(* ===== verification/Prelude.thy ===== *)
theory Prelude
  imports Main "HOL-Library.Word" "HOL-Library.AList" "HOL-Library.Code_Target_Nat"
begin

text \<open>
  Shared vocabulary of the development: machine integers, keyed stores and the
  iterator combinators of the Rust standard library that the components use.

  \<^item> The integer types of the source are words; \<open>+\<close> wraps around, as the
    \<open>fetch_add\<close> of an atomic and the plain operators of a release build do.
  \<^item> A \<open>HashMap\<close>, \<open>BTreeMap\<close> or \<open>DashMap\<close> is an association list with
    distinct keys (\<open>hm_wf\<close>), so that its length and a traversal can be computed.
    The contract the components rely on is the locale \<open>keyed_store\<close>, interpreted at
    the end of this theory.
  \<^item> \<open>max_by_key\<close> and \<open>min_by_key\<close> follow the documented tie rules of
    \<open>Iterator\<close>: the last maximum, the first minimum.
\<close>

section \<open>Automation\<close>

named_theorems hm_simps \<open>lookup laws of keyed stores\<close>
named_theorems str_simps \<open>normalisation of byte strings\<close>
named_theorems frame_simps \<open>fields an operation leaves alone\<close>

section \<open>Machine integers\<close>

type_synonym u8 = "8 word"
type_synonym u16 = "16 word"
type_synonym u32 = "32 word"
type_synonym u64 = "64 word"
type_synonym usize = "64 word"

text \<open>Rust's \<open>saturating_add\<close>, \<open>saturating_sub\<close> and \<open>saturating_mul\<close>.\<close>

definition sat_add :: "'a::len word \<Rightarrow> 'a word \<Rightarrow> 'a word" where
  "sat_add a b = (if a + b < a then - 1 else a + b)"

definition sat_sub :: "'a::len word \<Rightarrow> 'a word \<Rightarrow> 'a word" where
  "sat_sub a b = (if a < b then 0 else a - b)"

definition sat_mul :: "'a::len word \<Rightarrow> 'a word \<Rightarrow> 'a word" where
  "sat_mul a b = (if unat a * unat b < 2 ^ LENGTH('a) then a * b else - 1)"

section \<open>Keyed stores\<close>

type_synonym ('k, 'v) hmap = "('k \<times> 'v) list"

definition hm_wf :: "('k, 'v) hmap \<Rightarrow> bool" where
  "hm_wf m \<longleftrightarrow> distinct (map fst m)"

abbreviation hm_get :: "('k, 'v) hmap \<Rightarrow> 'k \<Rightarrow> 'v option" where
  "hm_get m k \<equiv> map_of m k"

definition hm_insert :: "'k \<Rightarrow> 'v \<Rightarrow> ('k, 'v) hmap \<Rightarrow> ('k, 'v) hmap" where
  "hm_insert k v m = AList.update k v m"

definition hm_remove :: "'k \<Rightarrow> ('k, 'v) hmap \<Rightarrow> ('k, 'v) hmap" where
  "hm_remove k m = AList.delete k m"

definition hm_retain :: "('k \<Rightarrow> 'v \<Rightarrow> bool) \<Rightarrow> ('k, 'v) hmap \<Rightarrow> ('k, 'v) hmap" where
  "hm_retain P m = filter (\<lambda>(k, v). P k v) m"

definition hm_contains :: "('k, 'v) hmap \<Rightarrow> 'k \<Rightarrow> bool" where
  "hm_contains m k \<longleftrightarrow> hm_get m k \<noteq> None"

text \<open>\<open>*entry(k).or_insert(d)\<close> read back: the value stored under \<open>k\<close>, or the default.\<close>

definition hm_get_or :: "('k, 'v) hmap \<Rightarrow> 'k \<Rightarrow> 'v \<Rightarrow> 'v" where
  "hm_get_or m k d = (case hm_get m k of None \<Rightarrow> d | Some v \<Rightarrow> v)"

section \<open>Iterator combinators\<close>

fun max_by_key :: "('a \<Rightarrow> 'b::linorder) \<Rightarrow> 'a list \<Rightarrow> 'a option" where
  "max_by_key f [] = None"
| "max_by_key f (x # xs) =
     (case max_by_key f xs of None \<Rightarrow> Some x
      | Some y \<Rightarrow> if f y < f x then Some x else Some y)"

fun min_by_key :: "('a \<Rightarrow> 'b::linorder) \<Rightarrow> 'a list \<Rightarrow> 'a option" where
  "min_by_key f [] = None"
| "min_by_key f (x # xs) =
     (case min_by_key f xs of None \<Rightarrow> Some x
      | Some y \<Rightarrow> if f x \<le> f y then Some x else Some y)"

text \<open>\<open>find_map\<close>: the first \<open>Some\<close> an element is mapped to.\<close>

fun find_map :: "('a \<Rightarrow> 'b option) \<Rightarrow> 'a list \<Rightarrow> 'b option" where
  "find_map f [] = None"
| "find_map f (x # xs) = (case f x of None \<Rightarrow> find_map f xs | Some y \<Rightarrow> Some y)"

section \<open>Results\<close>

text \<open>
  \<open>Result<T, E>\<close> is a sum with the error on the left. \<open>res_bind\<close> is the \<open>?\<close>
  operator, \<open>for_each\<close> a \<open>for\<close> loop whose body ends in \<open>?\<close>, and \<open>require\<close> the
  idiom \<open>if bad { return Err(e) }\<close>.
\<close>

definition res_bind :: "'e + 'a \<Rightarrow> ('a \<Rightarrow> 'e + 'b) \<Rightarrow> 'e + 'b" where
  "res_bind r f = (case r of Inl e \<Rightarrow> Inl e | Inr x \<Rightarrow> f x)"

definition require :: "bool \<Rightarrow> 'e \<Rightarrow> 'e + unit" where
  "require ok e = (if ok then Inr () else Inl e)"

fun for_each :: "('a \<Rightarrow> 'e + unit) \<Rightarrow> 'a list \<Rightarrow> 'e + unit" where
  "for_each f [] = Inr ()"
| "for_each f (x # xs) = res_bind (f x) (\<lambda>_. for_each f xs)"

fun run_checks :: "('e + unit) list \<Rightarrow> 'e + unit" where
  "run_checks [] = Inr ()"
| "run_checks (c # cs) = res_bind c (\<lambda>_. run_checks cs)"

definition is_ok :: "'e + 'a \<Rightarrow> bool" where
  "is_ok r \<longleftrightarrow> (case r of Inl _ \<Rightarrow> False | Inr _ \<Rightarrow> True)"

lemma res_bind_Inr_iff [simp]: "res_bind r f = Inr y \<longleftrightarrow> (\<exists>x. r = Inr x \<and> f x = Inr y)"
  by (auto simp: res_bind_def split: sum.splits)

lemma res_bind_simps [simp]: "res_bind (Inl e) f = Inl e" "res_bind (Inr x) f = f x"
  by (simp_all add: res_bind_def)

lemma require_simps [simp]: "require ok e = Inr u \<longleftrightarrow> ok" "require ok e = Inl e' \<longleftrightarrow> \<not> ok \<and> e' = e"
  by (auto simp: require_def)

lemma for_each_Inr_iff [simp]: "for_each f xs = Inr u \<longleftrightarrow> (\<forall>x\<in>set xs. f x = Inr ())"
  by (induction xs) auto

lemma run_checks_Inr_iff [simp]: "run_checks cs = Inr u \<longleftrightarrow> (\<forall>c\<in>set cs. c = Inr ())"
  by (induction cs) auto

lemma is_ok_simps [simp]: "is_ok (Inr x)" "\<not> is_ok (Inl e)"
  by (simp_all add: is_ok_def)

lemma is_ok_iff: "is_ok r \<longleftrightarrow> (\<exists>x. r = Inr x)"
  by (auto simp: is_ok_def split: sum.splits)

section \<open>Lemmas on machine integers\<close>

lemma unat_bound: "unat (a :: 'a::len word) < 2 ^ LENGTH('a)"
  by (rule unsigned_less)

lemma unat_max_word: "unat (- 1 :: 'a::len word) = 2 ^ LENGTH('a) - 1"
  by (metis mask_eq_exp_minus_1 unsigned_minus_1_eq_mask)

lemma sat_sub_le: "sat_sub a b \<le> a"
  by (simp add: sat_sub_def word_sub_le_iff not_less)

lemma unat_sat_sub: "unat (sat_sub a b) = unat a - unat b"
proof (cases "a < b")
  case True
  then show ?thesis by (simp add: sat_sub_def word_less_nat_alt)
next
  case False
  then have "b \<le> a" by simp
  then show ?thesis using False by (simp add: sat_sub_def unat_sub)
qed

lemma unat_sat_add:
  fixes a b :: "'a::len word"
  shows "unat (sat_add a b) = min (unat a + unat b) (2 ^ LENGTH('a) - 1)"
proof (cases "unat a + unat b < 2 ^ LENGTH('a)")
  case True
  then have "unat (a + b) = unat a + unat b" by (simp add: unat_add_lem)
  with True show ?thesis by (auto simp: sat_add_def word_less_nat_alt)
next
  case False
  let ?m = "2 ^ LENGTH('a) :: nat"
  have "unat a + unat b - ?m < ?m"
    using unat_bound [of a] unat_bound [of b] by linarith
  then have "(unat a + unat b) mod ?m = unat a + unat b - ?m"
    using False by (simp add: le_mod_geq)
  then have eq: "unat (a + b) = unat a + unat b - ?m" by (simp add: unat_word_ariths(1))
  have "unat a + unat b - ?m < unat a"
    using unat_bound [of b] False by linarith
  with eq have "a + b < a" by (simp add: word_less_nat_alt)
  moreover have "unat (- 1 :: 'a word) = ?m - 1" by (rule unat_max_word)
  ultimately show ?thesis using False by (simp add: sat_add_def)
qed

lemma sat_add_ge: "a \<le> sat_add a b"
proof -
  have "unat a \<le> unat (sat_add a b)"
    unfolding unat_sat_add using unat_bound [of a] by linarith
  then show ?thesis by (simp add: word_le_nat_alt)
qed

section \<open>Lemmas on iterator combinators\<close>

lemma max_by_key_eq_None [simp]: "max_by_key f xs = None \<longleftrightarrow> xs = []"
  by (cases xs) (auto split: option.splits)

lemma min_by_key_eq_None [simp]: "min_by_key f xs = None \<longleftrightarrow> xs = []"
  by (cases xs) (auto split: option.splits)

text \<open>The last maximum: nothing before it is larger, everything after it is smaller.\<close>

lemma max_by_key_split:
  "max_by_key f xs = Some y \<Longrightarrow>
   \<exists>us vs. xs = us @ y # vs \<and> (\<forall>u\<in>set us. f u \<le> f y) \<and> (\<forall>v\<in>set vs. f v < f y)"
proof (induction xs arbitrary: y)
  case Nil
  then show ?case by simp
next
  case (Cons x xs)
  show ?case
  proof (cases "max_by_key f xs")
    case None
    with Cons.prems show ?thesis by (intro exI [of _ "[]"]) auto
  next
    case (Some z)
    then obtain us vs where z: "xs = us @ z # vs" "\<forall>u\<in>set us. f u \<le> f z" "\<forall>v\<in>set vs. f v < f z"
      using Cons.IH by blast
    show ?thesis
    proof (cases "f z < f x")
      case True
      then have "y = x" and "\<forall>v\<in>set xs. f v < f x"
        using Some Cons.prems z by (auto dest: le_less_trans less_trans)
      then show ?thesis by (intro exI [of _ "[]"] exI [of _ xs]) simp
    next
      case False
      with Some Cons.prems z show ?thesis
        by (intro exI [of _ "x # us"] exI [of _ vs]) auto
    qed
  qed
qed

lemma max_by_key_in_set: "max_by_key f xs = Some y \<Longrightarrow> y \<in> set xs"
  by (drule max_by_key_split) auto

lemma max_by_key_ge: "max_by_key f xs = Some y \<Longrightarrow> x \<in> set xs \<Longrightarrow> f x \<le> f y"
  by (drule max_by_key_split) (fastforce intro: less_imp_le)

text \<open>The first minimum: everything before it is larger, nothing after it is smaller.\<close>

lemma min_by_key_split:
  "min_by_key f xs = Some y \<Longrightarrow>
   \<exists>us vs. xs = us @ y # vs \<and> (\<forall>u\<in>set us. f y < f u) \<and> (\<forall>v\<in>set vs. f y \<le> f v)"
proof (induction xs arbitrary: y)
  case Nil
  then show ?case by simp
next
  case (Cons x xs)
  show ?case
  proof (cases "min_by_key f xs")
    case None
    with Cons.prems show ?thesis by (intro exI [of _ "[]"]) auto
  next
    case (Some z)
    then obtain us vs where z: "xs = us @ z # vs" "\<forall>u\<in>set us. f z < f u" "\<forall>v\<in>set vs. f z \<le> f v"
      using Cons.IH by blast
    show ?thesis
    proof (cases "f x \<le> f z")
      case True
      then have "y = x" and "\<forall>v\<in>set xs. f x \<le> f v"
        using Some Cons.prems z by (auto dest: order_trans less_imp_le)
      then show ?thesis by (intro exI [of _ "[]"] exI [of _ xs]) simp
    next
      case False
      with Some Cons.prems z show ?thesis
        by (intro exI [of _ "x # us"] exI [of _ vs]) auto
    qed
  qed
qed

lemma min_by_key_in_set: "min_by_key f xs = Some y \<Longrightarrow> y \<in> set xs"
  by (drule min_by_key_split) auto

lemma min_by_key_le: "min_by_key f xs = Some y \<Longrightarrow> x \<in> set xs \<Longrightarrow> f y \<le> f x"
  by (drule min_by_key_split) (fastforce intro: less_imp_le)

lemma find_map_Some:
  "find_map f xs = Some y \<Longrightarrow> \<exists>x\<in>set xs. f x = Some y"
  by (induction xs) (auto split: option.splits)

lemma find_map_None_iff: "find_map f xs = None \<longleftrightarrow> (\<forall>x\<in>set xs. f x = None)"
  by (induction xs) (auto split: option.splits)

section \<open>The contract of a keyed store\<close>

text \<open>
  What the components rely on when they keep per-key state in a concurrent map: the
  value read after an insert, a removal or a \<open>retain\<close>, and how the number of entries
  moves. The lemmas of the block are the ones their proofs share.
\<close>

locale keyed_store =
  fixes get :: "'m \<Rightarrow> 'k \<Rightarrow> 'v option"
    and put :: "'k \<Rightarrow> 'v \<Rightarrow> 'm \<Rightarrow> 'm"
    and del :: "'k \<Rightarrow> 'm \<Rightarrow> 'm"
    and keep :: "('k \<Rightarrow> 'v \<Rightarrow> bool) \<Rightarrow> 'm \<Rightarrow> 'm"
    and entries :: "'m \<Rightarrow> nat"
    and wf :: "'m \<Rightarrow> bool"
  assumes get_put: "get (put k v m) k' = (if k' = k then Some v else get m k')"
    and get_del: "get (del k m) k' = (if k' = k then None else get m k')"
    and get_keep: "wf m \<Longrightarrow> get (keep P m) k =
      (case get m k of None \<Rightarrow> None | Some v \<Rightarrow> if P k v then Some v else None)"
    and wf_put: "wf m \<Longrightarrow> wf (put k v m)"
    and wf_del: "wf m \<Longrightarrow> wf (del k m)"
    and wf_keep: "wf m \<Longrightarrow> wf (keep P m)"
    and entries_put: "wf m \<Longrightarrow> entries (put k v m) =
      (if get m k = None then Suc (entries m) else entries m)"
    and entries_keep: "entries (keep P m) \<le> entries m"
    and entries_del: "entries (del k m) \<le> entries m"
begin

lemma put_other: "k' \<noteq> k \<Longrightarrow> get (put k v m) k' = get m k'"
  by (simp add: get_put)

lemma guarded_put_bound:
  assumes "wf m" and "entries m \<le> n" and "get m k \<noteq> None \<or> entries m < n"
  shows "entries (put k v m) \<le> n"
  using assms by (auto simp: entries_put)

lemma put_grows_by_one: "wf m \<Longrightarrow> entries (put k v m) \<le> Suc (entries m)"
  by (simp add: entries_put)

lemma keep_all: "wf m \<Longrightarrow> (\<And>k v. get m k = Some v \<Longrightarrow> P k v) \<Longrightarrow> get (keep P m) k = get m k"
  by (auto simp: get_keep split: option.splits)

lemma keep_survivor: "wf m \<Longrightarrow> get (keep P m) k = Some v \<Longrightarrow> get m k = Some v \<and> P k v"
  by (auto simp: get_keep split: option.splits if_splits)

end

lemma hm_get_filter:
  "distinct (map fst m) \<Longrightarrow> map_of (filter (\<lambda>(k, v). P k v) m) k =
   (case map_of m k of None \<Rightarrow> None | Some v \<Rightarrow> if P k v then Some v else None)"
  by (induction m) (auto split: option.splits simp: map_of_eq_None_iff image_iff)

lemma length_alist_update:
  "length (AList.update k v m) = (if map_of m k = None then Suc (length m) else length m)"
  by (induction m) auto

interpretation hm: keyed_store map_of hm_insert hm_remove hm_retain length hm_wf
proof unfold_locales
  fix k k' :: 'k and v :: 'v and m :: "('k, 'v) hmap" and P :: "'k \<Rightarrow> 'v \<Rightarrow> bool"
  show "map_of (hm_insert k v m) k' = (if k' = k then Some v else map_of m k')"
    by (simp add: hm_insert_def update_conv')
  show "map_of (hm_remove k m) k' = (if k' = k then None else map_of m k')"
    by (simp add: hm_remove_def delete_conv')
  show "map_of (hm_retain P m) k =
      (case map_of m k of None \<Rightarrow> None | Some v \<Rightarrow> if P k v then Some v else None)" if "hm_wf m"
    using that by (simp add: hm_retain_def hm_wf_def hm_get_filter)
  show "hm_wf (hm_insert k v m)" if "hm_wf m"
    using that by (simp add: hm_wf_def hm_insert_def distinct_update)
  show "hm_wf (hm_remove k m)" if "hm_wf m"
    using that by (simp add: hm_wf_def hm_remove_def distinct_delete)
  show "hm_wf (hm_retain P m)" if "hm_wf m"
    using that by (simp add: hm_wf_def hm_retain_def distinct_map_filter)
  show "length (hm_insert k v m) = (if map_of m k = None then Suc (length m) else length m)"
    if "hm_wf m"
    by (simp add: hm_insert_def length_alist_update)
  show "length (hm_retain P m) \<le> length m" by (simp add: hm_retain_def)
  show "length (hm_remove k m) \<le> length m" by (simp add: hm_remove_def length_delete_le)
qed

declare hm.get_put [simp, hm_simps] hm.get_del [simp, hm_simps]
declare hm.wf_put [intro] hm.wf_del [intro] hm.wf_keep [intro]

lemma hm_insert_append:
  "k \<notin> fst ` set m1 \<Longrightarrow> hm_insert k v (m1 @ m2) = m1 @ hm_insert k v m2"
  by (induction m1) (auto simp: hm_insert_def)

lemma hm_insert_fresh: "k \<notin> fst ` set m \<Longrightarrow> hm_insert k v m = m @ [(k, v)]"
  using hm_insert_append [of k m v "[]"] by (simp add: hm_insert_def)

lemma foldl_insert_fresh:
  "distinct (map fst m @ map f xs) \<Longrightarrow>
   foldl (\<lambda>m x. hm_insert (f x) (g x) m) m xs = m @ map (\<lambda>x. (f x, g x)) xs"
proof (induction xs arbitrary: m)
  case (Cons x xs)
  then have "hm_insert (f x) (g x) m = m @ [(f x, g x)]"
    by (intro hm_insert_fresh) auto
  with Cons.IH [of "m @ [(f x, g x)]"] Cons.prems show ?case by simp
qed simp

lemma hm_wf_Nil [simp]: "hm_wf []"
  by (simp add: hm_wf_def)

lemma hm_get_or_insert [simp]:
  "hm_get_or (hm_insert k v m) k' d = (if k' = k then v else hm_get_or m k' d)"
  by (simp add: hm_get_or_def)

end
