(* ===== verification/Rust_Str.thy ===== *)
theory Rust_Str
  imports Prelude "HOL-Library.Sublist"
begin

text \<open>
  The operations of Rust's \<open>str\<close> that the source calls, on UTF-8 byte strings: a
  \<open>string\<close> here is the list of bytes of a Rust \<open>String\<close>, so \<open>length\<close> is
  \<open>len()\<close>. Searching, splitting and trimming at an ASCII character works on bytes as it
  does on characters, because no byte of a multi-byte UTF-8 sequence is an ASCII byte.
  \<open>trim\<close> removes the Unicode white space of \<open>char::is_whitespace\<close>, written as the
  list of its UTF-8 encodings.
\<close>

section \<open>Bytes\<close>

definition byte_of :: "char \<Rightarrow> nat" where
  "byte_of c = of_char c"

definition is_ascii_upper :: "char \<Rightarrow> bool" where
  "is_ascii_upper c \<longleftrightarrow> 65 \<le> byte_of c \<and> byte_of c \<le> 90"

definition is_ascii_lower :: "char \<Rightarrow> bool" where
  "is_ascii_lower c \<longleftrightarrow> 97 \<le> byte_of c \<and> byte_of c \<le> 122"

definition is_ascii_digit :: "char \<Rightarrow> bool" where
  "is_ascii_digit c \<longleftrightarrow> 48 \<le> byte_of c \<and> byte_of c \<le> 57"

definition is_ascii_alphabetic :: "char \<Rightarrow> bool" where
  "is_ascii_alphabetic c \<longleftrightarrow> is_ascii_upper c \<or> is_ascii_lower c"

definition is_ascii_alphanumeric :: "char \<Rightarrow> bool" where
  "is_ascii_alphanumeric c \<longleftrightarrow> is_ascii_alphabetic c \<or> is_ascii_digit c"

definition is_ascii_whitespace :: "char \<Rightarrow> bool" where
  "is_ascii_whitespace c \<longleftrightarrow> c \<in> {CHR 0x20, CHR 0x09, CHR 0x0A, CHR 0x0C, CHR 0x0D}"

definition ascii_lower :: "char \<Rightarrow> char" where
  "ascii_lower c = (if is_ascii_upper c then char_of (byte_of c + 32) else c)"

definition ascii_upper :: "char \<Rightarrow> char" where
  "ascii_upper c = (if is_ascii_lower c then char_of (byte_of c - 32) else c)"

definition to_ascii_lowercase :: "string \<Rightarrow> string" where
  "to_ascii_lowercase s = map ascii_lower s"

definition to_ascii_uppercase :: "string \<Rightarrow> string" where
  "to_ascii_uppercase s = map ascii_upper s"

definition eq_ignore_ascii_case :: "string \<Rightarrow> string \<Rightarrow> bool" where
  "eq_ignore_ascii_case a b \<longleftrightarrow> to_ascii_lowercase a = to_ascii_lowercase b"

section \<open>Searching and splitting\<close>

abbreviation starts_with :: "string \<Rightarrow> string \<Rightarrow> bool" where
  "starts_with s p \<equiv> prefix p s"

abbreviation ends_with :: "string \<Rightarrow> string \<Rightarrow> bool" where
  "ends_with s p \<equiv> suffix p s"

fun str_contains :: "string \<Rightarrow> string \<Rightarrow> bool" where
  "str_contains [] p = (p = [])"
| "str_contains (x # xs) p = (prefix p (x # xs) \<or> str_contains xs p)"

definition strip_prefix :: "string \<Rightarrow> string \<Rightarrow> string option" where
  "strip_prefix s p = (if prefix p s then Some (drop (length p) s) else None)"

fun split_on :: "char \<Rightarrow> string \<Rightarrow> string list" where
  "split_on c [] = [[]]"
| "split_on c (x # xs) =
     (if x = c then [] # split_on c xs
      else (case split_on c xs of [] \<Rightarrow> [[x]] | p # ps \<Rightarrow> (x # p) # ps))"

fun join_with :: "string \<Rightarrow> string list \<Rightarrow> string" where
  "join_with sep [] = []"
| "join_with sep [x] = x"
| "join_with sep (x # y # ys) = x @ sep @ join_with sep (y # ys)"

fun split_once :: "char \<Rightarrow> string \<Rightarrow> (string \<times> string) option" where
  "split_once c [] = None"
| "split_once c (x # xs) =
     (if x = c then Some ([], xs)
      else map_option (\<lambda>(a, b). (x # a, b)) (split_once c xs))"

definition rsplit_once :: "char \<Rightarrow> string \<Rightarrow> (string \<times> string) option" where
  "rsplit_once c s = map_option (\<lambda>(a, b). (rev b, rev a)) (split_once c (rev s))"

definition replace_char :: "char \<Rightarrow> string \<Rightarrow> string \<Rightarrow> string" where
  "replace_char c r s = concat (map (\<lambda>x. if x = c then r else [x]) s)"

section \<open>Trimming\<close>

definition trim_start_matches :: "char \<Rightarrow> string \<Rightarrow> string" where
  "trim_start_matches c s = dropWhile (\<lambda>x. x = c) s"

definition trim_end_matches :: "char \<Rightarrow> string \<Rightarrow> string" where
  "trim_end_matches c s = rev (dropWhile (\<lambda>x. x = c) (rev s))"

definition trim_matches :: "char \<Rightarrow> string \<Rightarrow> string" where
  "trim_matches c s = trim_end_matches c (trim_start_matches c s)"

text \<open>
  The UTF-8 encodings of the characters with the Unicode property \<open>White_Space\<close>:
  U+0009 to U+000D, U+0020, U+0085, U+00A0, U+1680, U+2000 to U+200A, U+2028, U+2029,
  U+202F, U+205F and U+3000.
\<close>

definition whitespace_encodings :: "string list" where
  "whitespace_encodings =
     [[CHR 0x20], [CHR 0x09], [CHR 0x0A], [CHR 0x0B], [CHR 0x0C], [CHR 0x0D],
      [CHR 0xC2, CHR 0x85], [CHR 0xC2, CHR 0xA0], [CHR 0xE1, CHR 0x9A, CHR 0x80],
      [CHR 0xE2, CHR 0x80, CHR 0x80], [CHR 0xE2, CHR 0x80, CHR 0x81],
      [CHR 0xE2, CHR 0x80, CHR 0x82], [CHR 0xE2, CHR 0x80, CHR 0x83],
      [CHR 0xE2, CHR 0x80, CHR 0x84], [CHR 0xE2, CHR 0x80, CHR 0x85],
      [CHR 0xE2, CHR 0x80, CHR 0x86], [CHR 0xE2, CHR 0x80, CHR 0x87],
      [CHR 0xE2, CHR 0x80, CHR 0x88], [CHR 0xE2, CHR 0x80, CHR 0x89],
      [CHR 0xE2, CHR 0x80, CHR 0x8A], [CHR 0xE2, CHR 0x80, CHR 0xA8],
      [CHR 0xE2, CHR 0x80, CHR 0xA9], [CHR 0xE2, CHR 0x80, CHR 0xAF],
      [CHR 0xE2, CHR 0x81, CHR 0x9F], [CHR 0xE3, CHR 0x80, CHR 0x80]]"

function strip_all :: "string list \<Rightarrow> string \<Rightarrow> string" where
  "strip_all ws s =
     (case find (\<lambda>w. w \<noteq> [] \<and> prefix w s) ws of
        None \<Rightarrow> s
      | Some w \<Rightarrow> strip_all ws (drop (length w) s))"
  by pat_completeness auto
termination
  by (relation "measure (\<lambda>(ws, s). length s)")
     (auto simp: find_Some_iff prefix_def)

declare strip_all.simps [simp del]

definition trim_start :: "string \<Rightarrow> string" where
  "trim_start s = strip_all whitespace_encodings s"

definition trim_end :: "string \<Rightarrow> string" where
  "trim_end s = rev (strip_all (map rev whitespace_encodings) (rev s))"

definition trim :: "string \<Rightarrow> string" where
  "trim s = trim_end (trim_start s)"

section \<open>UTF-8 validity\<close>

text \<open>
  \<open>String::from_utf8\<close>: the well-formed byte sequences of the Unicode standard (no
  overlong forms, no surrogates, nothing above U+10FFFF).
\<close>

definition in_range :: "nat \<Rightarrow> nat \<Rightarrow> char \<Rightarrow> bool" where
  "in_range lo hi c \<longleftrightarrow> lo \<le> byte_of c \<and> byte_of c \<le> hi"

abbreviation is_cont :: "char \<Rightarrow> bool" where
  "is_cont c \<equiv> in_range 0x80 0xBF c"

definition utf8_two :: "char \<Rightarrow> char \<Rightarrow> bool" where
  "utf8_two a b \<longleftrightarrow> in_range 0xC2 0xDF a \<and> is_cont b"

definition utf8_three :: "char \<Rightarrow> char \<Rightarrow> char \<Rightarrow> bool" where
  "utf8_three a b c \<longleftrightarrow> in_range 0xE0 0xEF a \<and>
     (if byte_of a = 0xE0 then in_range 0xA0 0xBF b
      else if byte_of a = 0xED then in_range 0x80 0x9F b
      else is_cont b) \<and> is_cont c"

definition utf8_four :: "char \<Rightarrow> char \<Rightarrow> char \<Rightarrow> char \<Rightarrow> bool" where
  "utf8_four a b c d \<longleftrightarrow> in_range 0xF0 0xF4 a \<and>
     (if byte_of a = 0xF0 then in_range 0x90 0xBF b
      else if byte_of a = 0xF4 then in_range 0x80 0x8F b
      else is_cont b) \<and> is_cont c \<and> is_cont d"

inductive utf8_valid :: "string \<Rightarrow> bool" where
  utf8_Nil: "utf8_valid []"
| utf8_one: "byte_of a < 0x80 \<Longrightarrow> utf8_valid s \<Longrightarrow> utf8_valid (a # s)"
| utf8_two: "utf8_two a b \<Longrightarrow> utf8_valid s \<Longrightarrow> utf8_valid (a # b # s)"
| utf8_three: "utf8_three a b c \<Longrightarrow> utf8_valid s \<Longrightarrow> utf8_valid (a # b # c # s)"
| utf8_four: "utf8_four a b c d \<Longrightarrow> utf8_valid s \<Longrightarrow> utf8_valid (a # b # c # d # s)"

section \<open>Lemmas on splitting and joining\<close>

lemma split_on_not_Nil [simp]: "split_on c s \<noteq> []"
  by (cases s) (auto split: list.splits)

lemma split_on_pieces: "p \<in> set (split_on c s) \<Longrightarrow> c \<notin> set p"
  by (induction s arbitrary: p) (auto split: if_splits list.splits)

lemma split_on_subset: "p \<in> set (split_on c s) \<Longrightarrow> set p \<subseteq> set s"
  by (induction s arbitrary: p) (fastforce split: if_splits list.splits)+

lemma join_split_on [simp]: "join_with [c] (split_on c s) = s"
proof (induction s)
  case Nil
  then show ?case by simp
next
  case (Cons x xs)
  obtain p ps where ps: "split_on c xs = p # ps" by (cases "split_on c xs") auto
  with Cons show ?case by (cases ps) auto
qed

lemma split_on_no_sep [simp]: "c \<notin> set s \<Longrightarrow> split_on c s = [s]"
  by (induction s) auto

lemma split_on_append_sep:
  "c \<notin> set p \<Longrightarrow> split_on c (p @ c # s) = p # split_on c s"
  by (induction p) auto

lemma split_on_join:
  "ps \<noteq> [] \<Longrightarrow> \<forall>p\<in>set ps. c \<notin> set p \<Longrightarrow> split_on c (join_with [c] ps) = ps"
  by (induction "[c]" ps rule: join_with.induct) (auto simp: split_on_append_sep)

lemma join_with_snoc: "ps \<noteq> [] \<Longrightarrow> join_with sep (ps @ [p]) = join_with sep ps @ sep @ p"
  by (induction sep ps rule: join_with.induct) auto

lemma set_join_with: "set (join_with [c] ps) \<subseteq> insert c (\<Union> (set ` set ps))"
  by (induction "[c]" ps rule: join_with.induct) auto

lemma hd_split_on_prefix: "prefix (hd (split_on c s)) s"
  by (induction s) (auto split: list.splits)

lemma split_once_Some:
  "split_once c s = Some (a, b) \<longleftrightarrow> s = a @ c # b \<and> c \<notin> set a"
proof (induction s arbitrary: a)
  case Nil
  then show ?case by simp
next
  case (Cons x xs)
  show ?case by (cases a) (auto simp: Cons.IH)
qed

lemma split_once_None: "split_once c s = None \<longleftrightarrow> c \<notin> set s"
  by (induction s) auto

lemma str_contains_sublist: "str_contains s p \<longleftrightarrow> sublist p s"
  by (induction s) (auto simp: sublist_Cons_right)

lemma replace_char_no_occ: "c \<notin> set r \<Longrightarrow> c \<notin> set (replace_char c r s)"
  by (auto simp: replace_char_def)

lemma replace_char_id [simp]: "c \<notin> set s \<Longrightarrow> replace_char c r s = s"
  by (induction s) (auto simp: replace_char_def)

lemma set_replace_char: "set (replace_char c r s) \<subseteq> set r \<union> (set s - {c})"
  by (auto simp: replace_char_def split: if_splits)

section \<open>Lemmas on letter case\<close>

lemma byte_of_less [simp]: "byte_of c < 256"
  by (simp add: byte_of_def)

lemma byte_of_char_of [simp]: "n < 256 \<Longrightarrow> byte_of (char_of n) = n"
  by (simp add: byte_of_def)

lemma byte_of_inj [simp]: "byte_of a = byte_of b \<longleftrightarrow> a = b"
  by (simp add: byte_of_def)

lemma byte_of_ascii_lower:
  "byte_of (ascii_lower c) = (if is_ascii_upper c then byte_of c + 32 else byte_of c)"
  by (simp add: ascii_lower_def is_ascii_upper_def)

lemma ascii_lower_not_upper [simp]: "\<not> is_ascii_upper (ascii_lower c)"
  by (auto simp: is_ascii_upper_def byte_of_ascii_lower)

lemma ascii_lower_id: "\<not> is_ascii_upper c \<Longrightarrow> ascii_lower c = c"
  by (simp add: ascii_lower_def)

lemma ascii_lower_idem [simp]: "ascii_lower (ascii_lower c) = ascii_lower c"
  by (simp add: ascii_lower_id)

lemma lowercase_idem [simp]: "to_ascii_lowercase (to_ascii_lowercase s) = to_ascii_lowercase s"
  by (simp add: to_ascii_lowercase_def)

lemma length_lowercase [simp]: "length (to_ascii_lowercase s) = length s"
  by (simp add: to_ascii_lowercase_def)

lemma lowercase_Nil_iff [simp]: "to_ascii_lowercase s = [] \<longleftrightarrow> s = []"
  by (simp add: to_ascii_lowercase_def)

lemma lowercase_Nil [simp]: "to_ascii_lowercase [] = []"
  by (simp add: to_ascii_lowercase_def)

lemma lowercase_append: "to_ascii_lowercase (a @ b) = to_ascii_lowercase a @ to_ascii_lowercase b"
  by (simp add: to_ascii_lowercase_def)

lemma lowercase_id: "\<forall>c\<in>set s. \<not> is_ascii_upper c \<Longrightarrow> to_ascii_lowercase s = s"
  by (induction s) (auto simp: to_ascii_lowercase_def ascii_lower_id)

text \<open>A character that is not a letter occurs in the lower-cased string where it occurred.\<close>

lemma ascii_lower_eq_non_letter:
  assumes "\<not> is_ascii_alphabetic d"
  shows "ascii_lower c = d \<longleftrightarrow> c = d"
proof
  assume eq: "ascii_lower c = d"
  show "c = d"
  proof (cases "is_ascii_upper c")
    case True
    then have "is_ascii_lower (ascii_lower c)"
      by (simp add: is_ascii_lower_def is_ascii_upper_def byte_of_ascii_lower)
    with eq assms show ?thesis by (simp add: is_ascii_alphabetic_def)
  qed (use eq in \<open>simp add: ascii_lower_id\<close>)
next
  assume "c = d"
  then show "ascii_lower c = d"
    using assms by (simp add: ascii_lower_id is_ascii_alphabetic_def)
qed

lemma in_lowercase_non_letter:
  assumes "\<not> is_ascii_alphabetic d"
  shows "d \<in> set (to_ascii_lowercase s) \<longleftrightarrow> d \<in> set s"
proof -
  have "d = ascii_lower c \<longleftrightarrow> d = c" for c
    using ascii_lower_eq_non_letter [OF assms] by metis
  then show ?thesis by (induction s) (simp_all add: to_ascii_lowercase_def)
qed

lemma eq_ignore_ascii_case_refl [simp]: "eq_ignore_ascii_case s s"
  by (simp add: eq_ignore_ascii_case_def)

lemma eq_ignore_ascii_case_sym: "eq_ignore_ascii_case a b \<Longrightarrow> eq_ignore_ascii_case b a"
  by (simp add: eq_ignore_ascii_case_def)

section \<open>Lemmas on trimming\<close>

lemma dropWhile_last_id: "xs = [] \<or> \<not> P (hd xs) \<Longrightarrow> dropWhile P xs = xs"
  by (cases xs) auto

lemma trim_end_matches_idem [simp]:
  "trim_end_matches c (trim_end_matches c s) = trim_end_matches c s"
  by (simp add: trim_end_matches_def)

lemma trim_end_matches_id: "s = [] \<or> last s \<noteq> c \<Longrightarrow> trim_end_matches c s = s"
  by (auto simp: trim_end_matches_def dropWhile_last_id hd_rev)

lemma trim_end_matches_prefix: "prefix (trim_end_matches c s) s"
  by (metis rev_rev_ident suffix_dropWhile suffix_to_prefix trim_end_matches_def)

lemma trim_end_matches_last:
  "trim_end_matches c s \<noteq> [] \<Longrightarrow> last (trim_end_matches c s) \<noteq> c"
  using hd_dropWhile [of "\<lambda>x. x = c" "rev s"] by (auto simp: trim_end_matches_def last_rev)

lemma trim_end_matches_snoc [simp]:
  "trim_end_matches c (s @ [x]) = (if x = c then trim_end_matches c s else s @ [x])"
  by (simp add: trim_end_matches_def)

lemma trim_end_matches_Nil [simp]: "trim_end_matches c [] = []"
  by (simp add: trim_end_matches_def)

lemma strip_all_stop:
  "(\<And>w. w \<in> set ws \<Longrightarrow> w \<noteq> [] \<Longrightarrow> \<not> prefix w s) \<Longrightarrow> strip_all ws s = s"
  by (subst strip_all.simps) (auto split: option.splits simp: find_Some_iff in_set_conv_nth)

lemma strip_all_suffix: "suffix (strip_all ws s) s"
proof (induction ws s rule: strip_all.induct)
  case (1 ws s)
  show ?case
  proof (cases "find (\<lambda>w. w \<noteq> [] \<and> prefix w s) ws")
    case None
    then show ?thesis by (simp add: strip_all.simps)
  next
    case (Some w)
    with "1" have "suffix (strip_all ws (drop (length w) s)) s"
      using suffix_drop suffix_order.trans by blast
    with Some show ?thesis by (simp add: strip_all.simps [of ws s])
  qed
qed

lemma strip_all_done:
  "w \<in> set ws \<Longrightarrow> w \<noteq> [] \<Longrightarrow> \<not> prefix w (strip_all ws s)"
proof (induction ws s rule: strip_all.induct)
  case (1 ws s)
  show ?case
  proof (cases "find (\<lambda>w. w \<noteq> [] \<and> prefix w s) ws")
    case None
    then have "strip_all ws s = s" by (simp add: strip_all.simps)
    with None "1.prems" show ?thesis by (auto simp: find_None_iff)
  next
    case (Some w')
    with "1" show ?thesis by (simp add: strip_all.simps [of ws s])
  qed
qed

lemma strip_all_keeps:
  "\<forall>w\<in>set ws. x \<notin> set w \<Longrightarrow> x \<in> set s \<Longrightarrow> x \<in> set (strip_all ws s)"
proof (induction ws s rule: strip_all.induct)
  case (1 ws s)
  show ?case
  proof (cases "find (\<lambda>w. w \<noteq> [] \<and> prefix w s) ws")
    case None
    with "1.prems" show ?thesis by (simp add: strip_all.simps)
  next
    case (Some w)
    then have "w \<in> set ws" "prefix w s" by (auto simp: find_Some_iff)
    with "1.prems" have "x \<in> set (drop (length w) s)" by (auto simp: prefix_def)
    with "1.IH" [OF Some] "1.prems"(1) Some show ?thesis by (simp add: strip_all.simps [of ws s])
  qed
qed

text \<open>A string whose first and last bytes are graphic ASCII is its own \<open>trim\<close>.\<close>

definition graphic :: "char \<Rightarrow> bool" where
  "graphic c \<longleftrightarrow> 33 \<le> byte_of c \<and> byte_of c \<le> 126"

lemma whitespace_heads:
  "w \<in> set whitespace_encodings \<Longrightarrow> w \<noteq> [] \<and> \<not> graphic (hd w) \<and> \<not> graphic (last w)"
  by (auto simp: whitespace_encodings_def graphic_def byte_of_def)

lemma whitespace_not_graphic:
  "w \<in> set whitespace_encodings \<Longrightarrow> x \<in> set w \<Longrightarrow> \<not> graphic x"
  by (auto simp: whitespace_encodings_def graphic_def byte_of_def)

lemma trim_keeps_graphic: "x \<in> set s \<Longrightarrow> graphic x \<Longrightarrow> x \<in> set (trim s)"
  unfolding trim_def trim_start_def trim_end_def
  using whitespace_not_graphic [of _ x] by (auto intro!: strip_all_keeps)

lemma trim_start_graphic: "s = [] \<or> graphic (hd s) \<Longrightarrow> trim_start s = s"
  unfolding trim_start_def
  by (rule strip_all_stop) (auto dest!: whitespace_heads simp: prefix_def)

lemma trim_end_graphic:
  assumes "s = [] \<or> graphic (last s)"
  shows "trim_end s = s"
proof -
  have "strip_all (map rev whitespace_encodings) (rev s) = rev s"
  proof (rule strip_all_stop)
    fix w assume "w \<in> set (map rev whitespace_encodings)" and "w \<noteq> []"
    then have "\<not> graphic (hd w)" by (auto dest!: whitespace_heads simp: hd_rev)
    then show "\<not> prefix w (rev s)"
      using assms \<open>w \<noteq> []\<close> by (auto simp: prefix_def hd_append simp flip: hd_rev)
  qed
  then show ?thesis by (simp add: trim_end_def)
qed

lemma trim_graphic: "s = [] \<or> graphic (hd s) \<and> graphic (last s) \<Longrightarrow> trim s = s"
  by (auto simp: trim_def trim_start_graphic trim_end_graphic)

section \<open>Lemmas on UTF-8 validity\<close>

lemma utf8_lead_ge:
  "utf8_two a b \<Longrightarrow> 0x80 \<le> byte_of a \<and> 0x80 \<le> byte_of b"
  "utf8_three a b c \<Longrightarrow> 0x80 \<le> byte_of a \<and> 0x80 \<le> byte_of b \<and> 0x80 \<le> byte_of c"
  "utf8_four a b c d \<Longrightarrow> 0x80 \<le> byte_of a \<and> 0x80 \<le> byte_of b \<and> 0x80 \<le> byte_of c \<and> 0x80 \<le> byte_of d"
  by (auto simp: utf8_two_def utf8_three_def utf8_four_def in_range_def split: if_splits)

lemma utf8_ascii_lead:
  assumes "byte_of a < 0x80"
  shows "\<not> utf8_two a b" "\<not> utf8_three a b c" "\<not> utf8_four a b c d"
  using assms utf8_lead_ge by fastforce+

lemma utf8_valid_Nil [simp, code]: "utf8_valid [] \<longleftrightarrow> True"
  by (simp add: utf8_Nil)

lemma utf8_valid_Cons [code]:
  "utf8_valid (a # s) \<longleftrightarrow>
     (if byte_of a < 0x80 then utf8_valid s
      else case s of b # s2 \<Rightarrow> utf8_two a b \<and> utf8_valid s2 \<or>
       (case s2 of c # s3 \<Rightarrow> utf8_three a b c \<and> utf8_valid s3 \<or>
          (case s3 of d # s4 \<Rightarrow> utf8_four a b c d \<and> utf8_valid s4 | [] \<Rightarrow> False) | [] \<Rightarrow> False)
       | [] \<Rightarrow> False)"
  by (subst utf8_valid.simps) (auto simp: utf8_ascii_lead split: list.splits)

lemma utf8_valid_ascii_splitD:
  "utf8_valid s \<Longrightarrow> s = a @ c # b \<Longrightarrow> byte_of c < 0x80 \<Longrightarrow> utf8_valid a \<and> utf8_valid b"
  by (induction s arbitrary: a rule: utf8_valid.induct)
    (auto simp: Cons_eq_append_conv intro: utf8_valid.intros dest: utf8_lead_ge)

lemma utf8_valid_append: "utf8_valid a \<Longrightarrow> utf8_valid b \<Longrightarrow> utf8_valid (a @ b)"
  by (induction a rule: utf8_valid.induct) (auto intro: utf8_valid.intros)

lemma utf8_valid_ascii_split:
  "byte_of c < 0x80 \<Longrightarrow> utf8_valid (a @ c # b) \<longleftrightarrow> utf8_valid a \<and> utf8_valid b"
  using utf8_valid_ascii_splitD utf8_valid_append utf8_valid.intros(2) by blast
end
