(* ===== verification/Std_Net.thy ===== *)
theory Std_Net
  imports Rust_Str
begin

text \<open>
  \<open>std::net::IpAddr\<close> as the source uses it: addresses, the classification predicates,
  the textual parser (\<open>str::parse::<IpAddr>\<close>, a translation of the recursive-descent
  parser of \<open>core::net\<close>) and \<open>Display\<close>.

  \<open>ip_net\<close> is the data of an \<open>ipnet::IpNet\<close> (an address and a prefix length). The
  crate is not part of the repository: wherever the source asks a network whether it
  contains an address, the model takes the test as the parameter
  \<open>contains :: ip_net \<Rightarrow> ip_addr \<Rightarrow> bool\<close>.
\<close>

unbundle bit_operations_syntax

section \<open>Addresses\<close>

datatype ip_addr = V4 "32 word" | V6 "128 word"

datatype ip_net = V4Net "32 word" nat | V6Net "128 word" nat

fun prefix_len :: "ip_net \<Rightarrow> nat" where
  "prefix_len (V4Net _ n) = n"
| "prefix_len (V6Net _ n) = n"

definition octet :: "nat \<Rightarrow> 32 word \<Rightarrow> nat" where
  "octet i a = unat a div 256 ^ (3 - i) mod 256"

definition v4_of_octets :: "nat \<Rightarrow> nat \<Rightarrow> nat \<Rightarrow> nat \<Rightarrow> 32 word" where
  "v4_of_octets a b c d = word_of_nat (((a * 256 + b) * 256 + c) * 256 + d)"

definition segment :: "nat \<Rightarrow> 128 word \<Rightarrow> u16" where
  "segment i a = word_of_nat (unat a div 65536 ^ (7 - i) mod 65536)"

definition v6_of_segments :: "nat list \<Rightarrow> 128 word" where
  "v6_of_segments gs = word_of_nat (foldl (\<lambda>acc g. acc * 65536 + g) 0 gs)"

section \<open>Classification\<close>

definition v4_is_private :: "32 word \<Rightarrow> bool" where
  "v4_is_private a \<longleftrightarrow> octet 0 a = 10
     \<or> octet 0 a = 172 \<and> 16 \<le> octet 1 a \<and> octet 1 a \<le> 31
     \<or> octet 0 a = 192 \<and> octet 1 a = 168"

definition v4_is_loopback :: "32 word \<Rightarrow> bool" where
  "v4_is_loopback a \<longleftrightarrow> octet 0 a = 127"

definition v4_is_link_local :: "32 word \<Rightarrow> bool" where
  "v4_is_link_local a \<longleftrightarrow> octet 0 a = 169 \<and> octet 1 a = 254"

definition v4_is_multicast :: "32 word \<Rightarrow> bool" where
  "v4_is_multicast a \<longleftrightarrow> 224 \<le> octet 0 a \<and> octet 0 a \<le> 239"

definition v4_is_broadcast :: "32 word \<Rightarrow> bool" where
  "v4_is_broadcast a \<longleftrightarrow> a = - 1"

definition v4_is_documentation :: "32 word \<Rightarrow> bool" where
  "v4_is_documentation a \<longleftrightarrow>
     (octet 0 a, octet 1 a, octet 2 a) \<in> {(192, 0, 2), (198, 51, 100), (203, 0, 113)}"

definition v4_is_unspecified :: "32 word \<Rightarrow> bool" where
  "v4_is_unspecified a \<longleftrightarrow> a = 0"

definition v6_is_loopback :: "128 word \<Rightarrow> bool" where
  "v6_is_loopback a \<longleftrightarrow> a = 1"

definition v6_is_unspecified :: "128 word \<Rightarrow> bool" where
  "v6_is_unspecified a \<longleftrightarrow> a = 0"

definition v6_is_multicast :: "128 word \<Rightarrow> bool" where
  "v6_is_multicast a \<longleftrightarrow> segment 0 a AND 0xff00 = 0xff00"

section \<open>Parsing\<close>

definition to_digit :: "nat \<Rightarrow> char \<Rightarrow> nat option" where
  "to_digit radix c =
     (let d = (if is_ascii_digit c then Some (byte_of c - 48)
               else if is_ascii_lower c then Some (byte_of c - 87)
               else if is_ascii_upper c then Some (byte_of c - 55)
               else None)
      in case d of None \<Rightarrow> None | Some n \<Rightarrow> if n < radix then Some n else None)"

fun read_digits :: "nat \<Rightarrow> string \<Rightarrow> nat list \<times> string" where
  "read_digits radix [] = ([], [])"
| "read_digits radix (c # s) =
     (case to_digit radix c of
        None \<Rightarrow> ([], c # s)
      | Some d \<Rightarrow> (let (ds, r) = read_digits radix s in (d # ds, r)))"

definition digits_value :: "nat \<Rightarrow> nat list \<Rightarrow> nat" where
  "digits_value radix ds = foldl (\<lambda>acc d. acc * radix + d) 0 ds"

text \<open>\<open>Parser::read_number\<close>: at most \<open>max_digits\<close> digits, a value below \<open>bound\<close>.\<close>

definition read_number ::
    "nat \<Rightarrow> nat \<Rightarrow> bool \<Rightarrow> nat \<Rightarrow> string \<Rightarrow> (nat \<times> string) option" where
  "read_number radix max_digits allow_zero_prefix bound s =
     (let (ds, r) = read_digits radix s; n = length ds in
      if n > max_digits \<or> n = 0 then None
      else if \<not> allow_zero_prefix \<and> hd s = CHR ''0'' \<and> n > 1 then None
      else if digits_value radix ds < bound then Some (digits_value radix ds, r) else None)"

definition read_given_char :: "char \<Rightarrow> string \<Rightarrow> string option" where
  "read_given_char c s = (case s of [] \<Rightarrow> None | x # r \<Rightarrow> if x = c then Some r else None)"

text \<open>\<open>Parser::read_separator\<close>: before every element but the first, the separator.\<close>

definition read_separator ::
    "char \<Rightarrow> nat \<Rightarrow> (string \<Rightarrow> ('a \<times> string) option) \<Rightarrow> string \<Rightarrow> ('a \<times> string) option" where
  "read_separator c i inner s =
     (if i = 0 then inner s
      else case read_given_char c s of None \<Rightarrow> None | Some r \<Rightarrow> inner r)"

definition read_v4_part :: "nat \<Rightarrow> string \<Rightarrow> (nat \<times> string) option" where
  "read_v4_part i s = read_separator CHR ''.'' i (read_number 10 3 False 256) s"

definition read_ipv4_addr :: "string \<Rightarrow> (32 word \<times> string) option" where
  "read_ipv4_addr s =
     (case read_v4_part 0 s of None \<Rightarrow> None | Some (a, s1) \<Rightarrow>
      case read_v4_part 1 s1 of None \<Rightarrow> None | Some (b, s2) \<Rightarrow>
      case read_v4_part 2 s2 of None \<Rightarrow> None | Some (c, s3) \<Rightarrow>
      case read_v4_part 3 s3 of None \<Rightarrow> None | Some (d, s4) \<Rightarrow>
        Some (v4_of_octets a b c d, s4))"

text \<open>
  \<open>read_groups limit i s\<close>: the groups read from position \<open>i\<close> on, whether the last two
  came from an embedded IPv4 address, and the rest of the input. The first argument counts
  the groups still wanted.
\<close>

fun read_groups :: "nat \<Rightarrow> nat \<Rightarrow> string \<Rightarrow> nat list \<times> bool \<times> string" where
  "read_groups 0 i s = ([], False, s)"
| "read_groups (Suc left) i s =
     (case (if left > 0 then read_separator CHR '':'' i read_ipv4_addr s else None) of
        Some (v4, r) \<Rightarrow> ([unat v4 div 65536, unat v4 mod 65536], True, r)
      | None \<Rightarrow>
          (case read_separator CHR '':'' i (read_number 16 4 True 65536) s of
             None \<Rightarrow> ([], False, s)
           | Some (g, r) \<Rightarrow>
               (let (gs, v4, r') = read_groups left (Suc i) r in (g # gs, v4, r'))))"

definition read_ipv6_addr :: "string \<Rightarrow> (128 word \<times> string) option" where
  "read_ipv6_addr s =
     (let (head, head_v4, r) = read_groups 8 0 s in
      if length head = 8 then Some (v6_of_segments head, r)
      else if head_v4 then None
      else case read_given_char CHR '':'' r of None \<Rightarrow> None | Some r1 \<Rightarrow>
           case read_given_char CHR '':'' r1 of None \<Rightarrow> None | Some r2 \<Rightarrow>
             (let (tail, _, r3) = read_groups (8 - (length head + 1)) 0 r2 in
              Some (v6_of_segments
                     (head @ replicate (8 - length head - length tail) 0 @ tail), r3)))"

definition parse_ip :: "string \<Rightarrow> ip_addr option" where
  "parse_ip s =
     (case read_ipv4_addr s of
        Some (a, r) \<Rightarrow> if r = [] then Some (V4 a) else None
      | None \<Rightarrow>
          (case read_ipv6_addr s of
             Some (a, r) \<Rightarrow> if r = [] then Some (V6 a) else None
           | None \<Rightarrow> None))"

section \<open>Display\<close>

definition digit_char :: "nat \<Rightarrow> char" where
  "digit_char n = (if n < 10 then char_of (n + 48) else char_of (n + 87))"

fun show_radix :: "nat \<Rightarrow> nat \<Rightarrow> string" where
  "show_radix r n =
     (if r < 2 \<or> n < r then [digit_char n] else show_radix r (n div r) @ [digit_char (n mod r)])"

declare show_radix.simps [simp del]

abbreviation show_nat :: "nat \<Rightarrow> string" where
  "show_nat n \<equiv> show_radix 10 n"

definition show_v4 :: "32 word \<Rightarrow> string" where
  "show_v4 a = join_with ''.'' (map (\<lambda>i. show_nat (octet i a)) [0, 1, 2, 3])"

text \<open>The first longest run of zero segments: its start and length.\<close>

fun zero_run :: "nat \<Rightarrow> nat list \<Rightarrow> nat \<times> nat \<Rightarrow> nat \<times> nat \<Rightarrow> nat \<times> nat" where
  "zero_run i [] cur best = best"
| "zero_run i (g # gs) cur best =
     (if g = 0 then
        (let cur' = (if snd cur = 0 then i else fst cur, Suc (snd cur))
         in zero_run (Suc i) gs cur' (if snd cur' > snd best then cur' else best))
      else zero_run (Suc i) gs (0, 0) best)"

definition show_v6 :: "128 word \<Rightarrow> string" where
  "show_v6 a =
     (let gs = map (\<lambda>i. unat (segment i a)) [0 ..< 8];
          (start, len) = zero_run 0 gs (0, 0) (0, 0);
          hex = (\<lambda>xs. join_with '':'' (map (show_radix 16) xs))
      in if take 6 gs = [0, 0, 0, 0, 0, 0xffff] then ''::ffff:'' @ show_v4 (ucast a)
         else if len > 1 then hex (take start gs) @ ''::'' @ hex (drop (start + len) gs)
         else hex gs)"

fun ip_to_string :: "ip_addr \<Rightarrow> string" where
  "ip_to_string (V4 a) = show_v4 a"
| "ip_to_string (V6 a) = show_v6 a"

end
