(* ===== verification/F64.thy ===== *)
theory F64
  imports Complex_Main Prelude "HOL-Library.Log_Nat"
begin

text \<open>
  The \<open>f64\<close> operations of the source, on the rational numbers that doubles denote. Every
  operation is the exact one followed by \<open>f64_round\<close>, rounding to the nearest 53-bit
  mantissa with ties to even. Exponents are unbounded: the values of this program (durations
  in seconds, request rates, token counts, latencies in microseconds) stay far from overflow
  and from the subnormal range.
\<close>

section \<open>Definitions\<close>

type_synonym f64 = rat

definition half_even :: "rat \<Rightarrow> int" where
  "half_even y = (let f = \<lfloor>y\<rfloor>; d = y - of_int f in
     if d < 1/2 then f else if 1/2 < d then f + 1 else if even f then f else f + 1)"

text \<open>The exponent \<open>e\<close> with \<open>2^52 \<le> \<bar>x\<bar> / 2^e < 2^53\<close>.\<close>

definition f64_exp :: "rat \<Rightarrow> int" where
  "f64_exp x = (let (p, q) = quotient_of x;
       e = int (floorlog 2 (nat \<bar>p\<bar>)) - int (floorlog 2 (nat q)) - 53
     in if 2 ^ 53 \<le> \<bar>x\<bar> / 2 powi e then e + 1 else e)"

definition f64_round :: "rat \<Rightarrow> f64" where
  "f64_round x = (if x = 0 then 0
     else of_int (half_even (x / 2 powi f64_exp x)) * 2 powi f64_exp x)"

definition f64_add :: "f64 \<Rightarrow> f64 \<Rightarrow> f64" where "f64_add a b = f64_round (a + b)"
definition f64_sub :: "f64 \<Rightarrow> f64 \<Rightarrow> f64" where "f64_sub a b = f64_round (a - b)"
definition f64_mul :: "f64 \<Rightarrow> f64 \<Rightarrow> f64" where "f64_mul a b = f64_round (a * b)"
definition f64_div :: "f64 \<Rightarrow> f64 \<Rightarrow> f64" where "f64_div a b = f64_round (a / b)"

definition f64_of_nat :: "nat \<Rightarrow> f64" where "f64_of_nat n = f64_round (of_nat n)"

text \<open>\<open>x as u64\<close>: truncation, saturating at both ends.\<close>

definition f64_to_u64 :: "f64 \<Rightarrow> u64" where
  "f64_to_u64 x = (if x \<le> 0 then 0 else if 2 ^ 64 \<le> x then - 1 else word_of_int \<lfloor>x\<rfloor>)"

text \<open>\<open>Duration::as_secs_f64\<close> of a duration in nanoseconds.\<close>

definition as_secs_f64 :: "nat \<Rightarrow> f64" where
  "as_secs_f64 ns = f64_add (f64_of_nat (ns div 1000000000))
     (f64_div (f64_of_nat (ns mod 1000000000)) 1000000000)"

section \<open>Rounding error\<close>

lemma half_even_error: "\<bar>of_int (half_even y) - y\<bar> \<le> 1/2"
proof -
  have "of_int \<lfloor>y\<rfloor> \<le> y" "y < of_int \<lfloor>y\<rfloor> + 1" by linarith+
  then show ?thesis by (auto simp: half_even_def Let_def abs_le_iff)
qed

lemma half_even_of_int [simp]: "half_even (of_int n) = n"
  by (simp add: half_even_def)

lemma half_even_nonneg: "0 \<le> y \<Longrightarrow> 0 \<le> half_even y"
  by (auto simp: half_even_def Let_def)

lemma powi_pos [simp]: "0 < (2::rat) powi e"
  by simp

lemma floorlog_ratio:
  assumes "p \<noteq> 0" and "0 < q"
  shows "2 ^ 52 \<le> \<bar>of_int p / of_int q\<bar> / (2::rat) powi
    (int (floorlog 2 (nat \<bar>p\<bar>)) - int (floorlog 2 (nat q)) - 53)"
proof -
  let ?a = "floorlog 2 (nat \<bar>p\<bar>)" and ?b = "floorlog 2 (nat q)"
  have "2 ^ (?a - 1) \<le> nat \<bar>p\<bar>" "nat q < 2 ^ ?b" and a0: "0 < ?a"
    using floorlog_bounds [of "nat \<bar>p\<bar>" 2] floorlog_bounds [of "nat q" 2] assms
    by (auto simp: floorlog_def)
  then have a: "(2::rat) ^ (?a - 1) \<le> \<bar>of_int p\<bar>" and b: "of_int q < (2::rat) ^ ?b"
    using assms(2)
    by (metis (mono_tags) nat_le_iff of_int_abs of_int_le_iff of_int_numeral of_int_power
          of_nat_le_iff of_nat_numeral of_nat_power nat_0_le abs_ge_zero,
        metis (mono_tags) of_int_less_iff of_int_numeral of_int_power nat_less_iff of_nat_numeral
          of_nat_power order_less_imp_le)
  have "(2::rat) ^ 52 * 2 powi (int ?a - int ?b - 53) = 2 powi (52 + (int ?a - int ?b - 53))"
    by (subst power_int_add) (simp_all add: power_int_numeral)
  also have "\<dots> = 2 powi (int (?a - 1) - int ?b)" using a0 by (simp add: of_nat_diff algebra_simps)
  also have "\<dots> = 2 ^ (?a - 1) / 2 ^ ?b" by (simp add: power_int_diff)
  also have "\<dots> \<le> \<bar>of_int p\<bar> / of_int q"
    using a b assms(2) by (intro frac_le) auto
  finally show ?thesis using assms(2) by (simp add: pos_le_divide_eq mult_ac)
qed

lemma f64_exp_lower:
  assumes "x \<noteq> 0"
  shows "2 ^ 52 \<le> \<bar>x\<bar> / 2 powi f64_exp x"
proof -
  obtain p q where pq: "quotient_of x = (p, q)" by (cases "quotient_of x")
  then have q: "0 < q" and x: "x = of_int p / of_int q"
    by (auto dest: quotient_of_denom_pos quotient_of_div)
  with assms have p: "p \<noteq> 0" by auto
  define e where "e = int (floorlog 2 (nat \<bar>p\<bar>)) - int (floorlog 2 (nat q)) - 53"
  have "2 ^ 52 \<le> \<bar>x\<bar> / 2 powi e"
    unfolding e_def x using p q by (rule floorlog_ratio)
  moreover have "\<bar>x\<bar> / 2 powi (e + 1) = (\<bar>x\<bar> / 2 powi e) / 2" by (simp add: power_int_add)
  moreover have "f64_exp x = (if 2 ^ 53 \<le> \<bar>x\<bar> / 2 powi e then e + 1 else e)"
    by (simp add: f64_exp_def pq e_def)
  ultimately show ?thesis by (auto split: if_splits)
qed

text \<open>The relative error of one rounding is at most \<open>2 ^ - 53\<close>.\<close>

lemma f64_round_error: "\<bar>f64_round x - x\<bar> \<le> \<bar>x\<bar> / 2 ^ 53"
proof (cases "x = 0")
  case False
  let ?u = "2 powi f64_exp x :: rat"
  have "f64_round x - x = (of_int (half_even (x / ?u)) - x / ?u) * ?u"
    using False by (simp add: f64_round_def field_simps)
  then have "\<bar>f64_round x - x\<bar> = \<bar>of_int (half_even (x / ?u)) - x / ?u\<bar> * ?u"
    by (simp add: abs_mult)
  also have "\<dots> \<le> 1/2 * ?u"
    using half_even_error by (intro mult_right_mono) auto
  also have "\<dots> \<le> \<bar>x\<bar> / 2 ^ 53"
    using f64_exp_lower [OF False] by (simp add: field_simps)
  finally show ?thesis .
qed (simp add: f64_round_def)

lemma f64_round_0 [simp]: "f64_round 0 = 0"
  by (simp add: f64_round_def)

lemma f64_round_nonneg: "0 \<le> x \<Longrightarrow> 0 \<le> f64_round x"
  by (auto simp: f64_round_def intro!: mult_nonneg_nonneg half_even_nonneg)

lemma f64_round_bounds:
  assumes "0 \<le> x"
  shows "f64_round x \<le> x + x / 2 ^ 53" and "x - x / 2 ^ 53 \<le> f64_round x"
proof -
  have "\<bar>f64_round x - x\<bar> \<le> x / 2 ^ 53" using f64_round_error [of x] assms by simp
  then show "f64_round x \<le> x + x / 2 ^ 53" "x - x / 2 ^ 53 \<le> f64_round x"
    unfolding abs_le_iff by linarith+
qed

text \<open>Integers of at most 53 bits are exact.\<close>

lemma f64_round_of_int:
  assumes "\<bar>n\<bar> < 2 ^ 53"
  shows "f64_round (of_int n) = of_int n"
proof (cases "n = 0")
  case False
  let ?e = "f64_exp (of_int n)"
  have "\<bar>n\<bar> \<le> 2 ^ 53 - 1" using assms by linarith
  then have "of_int \<bar>n\<bar> \<le> (of_int (2 ^ 53 - 1) :: rat)" by (simp only: of_int_le_iff)
  then have n: "\<bar>of_int n :: rat\<bar> < 2 ^ 53" by simp
  have "2 ^ 52 * 2 powi ?e \<le> \<bar>of_int n :: rat\<bar>"
    using f64_exp_lower [of "of_int n"] False by (simp add: pos_le_divide_eq)
  then have "2 ^ 52 * 2 powi ?e < (2 ^ 53 :: rat)" using n by (rule le_less_trans)
  then have e: "2 powi ?e < (2 :: rat)" by simp
  have "?e \<le> 0"
  proof (rule ccontr)
    assume "\<not> ?e \<le> 0"
    then have "(2 :: rat) powi 1 \<le> 2 powi ?e" by (intro power_int_increasing) auto
    with e show False by simp
  qed
  then have "2 powi ?e = 1 / (2 :: rat) ^ nat (- ?e)"
    by (simp add: power_int_def field_simps)
  note pow = this
  then have "of_int n / 2 powi ?e = (of_int (n * 2 ^ nat (- ?e)) :: rat)" by simp
  then have "half_even (of_int n / 2 powi ?e :: rat) = n * 2 ^ nat (- ?e)"
    by (simp only: half_even_of_int)
  then have "f64_round (of_int n) = of_int (n * 2 ^ nat (- ?e)) * 2 powi ?e"
    using False by (simp only: f64_round_def of_int_eq_0_iff if_False)
  then show ?thesis using pow by simp
qed simp

lemma f64_of_nat_exact: "n < 2 ^ 53 \<Longrightarrow> f64_of_nat n = of_nat n"
  using f64_round_of_int [of "int n"] by (simp add: f64_of_nat_def)

lemma f64_sub_one_exact: "0 < n \<Longrightarrow> n < 2 ^ 53 \<Longrightarrow> f64_sub (of_nat n) 1 = of_nat (n - 1)"
  using f64_round_of_int [of "int (n - 1)"] by (simp add: f64_sub_def of_nat_diff)

end
