(* ===== verification/Token_Bucket.thy ===== *)
theory Token_Bucket
  imports F64
begin

text \<open>
  The token bucket that the global rate limiter (\<open>edge/crates/ddos/src/lib.rs\<close>) and the
  per-domain policy limiter (\<open>edge/crates/http-proxy/src/lib.rs\<close>) both contain, with its
  \<open>f64\<close> arithmetic. Instants are nanoseconds; \<open>duration_since\<close> is the truncating difference.
  A call reads the clock once.
\<close>

section \<open>Definitions\<close>

type_synonym instant = nat

record rate_bucket =
  tb_tokens :: f64
  tb_last_refill :: instant

definition fresh_bucket :: "f64 \<Rightarrow> instant \<Rightarrow> rate_bucket" where
  "fresh_bucket burst now = \<lparr>tb_tokens = burst, tb_last_refill = now\<rparr>"

definition refill_bucket :: "f64 \<Rightarrow> f64 \<Rightarrow> instant \<Rightarrow> rate_bucket \<Rightarrow> rate_bucket" where
  "refill_bucket rate burst now b =
     (let elapsed = as_secs_f64 (now - tb_last_refill b);
          refill = f64_mul elapsed rate
      in if 0 < refill
         then \<lparr>tb_tokens = min (f64_add (tb_tokens b) refill) burst, tb_last_refill = now\<rparr>
         else b)"

definition take_token :: "f64 \<Rightarrow> f64 \<Rightarrow> instant \<Rightarrow> rate_bucket \<Rightarrow> bool \<times> rate_bucket" where
  "take_token rate burst now b =
     (let b = refill_bucket rate burst now b in
      if 1 \<le> tb_tokens b then (True, b\<lparr>tb_tokens := f64_sub (tb_tokens b) 1\<rparr>)
      else (False, b))"

section \<open>A metered resource\<close>

text \<open>
  The contract that bounds admissions: a call admits at most what the level holds, the level
  grows by at most \<open>gain\<close> per unit of clock, and each call loses at most \<open>slack\<close> to rounding.
  Over any run the admissions are bounded by the initial level, the elapsed clock and the
  accumulated slack.
\<close>

fun admit_run :: "(nat \<Rightarrow> 's \<Rightarrow> bool \<times> 's) \<Rightarrow> nat list \<Rightarrow> 's \<Rightarrow> nat \<times> 's" where
  "admit_run f [] s = (0, s)"
| "admit_run f (t # ts) s =
     (let (ok, s1) = f t s; (n, s2) = admit_run f ts s1 in (of_bool ok + n, s2))"

locale metered =
  fixes step :: "'c \<Rightarrow> nat \<Rightarrow> 's \<Rightarrow> bool \<times> 's"
    and level :: "'s \<Rightarrow> rat" and clock :: "'s \<Rightarrow> nat"
    and gain :: "'c \<Rightarrow> rat" and slack :: "'c \<Rightarrow> rat" and wf :: "'c \<Rightarrow> 's \<Rightarrow> bool"
  assumes step_wf: "wf c s \<Longrightarrow> wf c (snd (step c now s))"
    and level_nonneg: "wf c s \<Longrightarrow> 0 \<le> level s"
    and gain_nonneg: "wf c s \<Longrightarrow> 0 \<le> gain c"
    and clock_step: "clock s \<le> now \<Longrightarrow> clock s \<le> clock (snd (step c now s)) \<and>
      clock (snd (step c now s)) \<le> now"
    and admit: "wf c s \<Longrightarrow> clock s \<le> now \<Longrightarrow>
      of_bool (fst (step c now s)) + level (snd (step c now s))
        \<le> level s + gain c * of_nat (clock (snd (step c now s)) - clock s) + slack c"
begin

lemma run_bound:
  assumes "wf c s" and "sorted ts" and "\<forall>t\<in>set ts. clock s \<le> t"
  shows "of_nat (fst (admit_run (step c) ts s)) + level (snd (admit_run (step c) ts s))
      \<le> level s + gain c * of_nat (clock (snd (admit_run (step c) ts s)) - clock s) + of_nat (length ts) * slack c
    \<and> clock s \<le> clock (snd (admit_run (step c) ts s))"
  using assms
proof (induction ts arbitrary: s)
  case (Cons t ts)
  let ?s = "snd (step c t s)" and ?ok = "fst (step c t s)"
  let ?e = "snd (admit_run (step c) ts ?s)"
  have ct: "clock s \<le> clock ?s" "clock ?s \<le> t" using clock_step Cons.prems(3) by auto
  then have "\<forall>x\<in>set ts. clock ?s \<le> x" using Cons.prems(2) by auto
  then have IH: "of_nat (fst (admit_run (step c) ts ?s)) + level ?e
      \<le> level ?s + gain c * of_nat (clock ?e - clock ?s) + of_nat (length ts) * slack c"
    "clock ?s \<le> clock ?e"
    using Cons.IH [of ?s] Cons.prems step_wf by auto
  have "of_nat (clock ?e - clock s) = (of_nat (clock ?e - clock ?s) + of_nat (clock ?s - clock s) :: rat)"
    using IH(2) ct(1) by (simp flip: of_nat_add)
  then have split: "gain c * of_nat (clock ?e - clock s) =
      gain c * of_nat (clock ?e - clock ?s) + gain c * of_nat (clock ?s - clock s)"
    by (simp add: distrib_left)
  have "fst (admit_run (step c) (t # ts) s) = of_bool ?ok + fst (admit_run (step c) ts ?s)" "snd (admit_run (step c) (t # ts) s) = ?e"
    by (simp_all add: case_prod_beta)
  moreover have "of_bool ?ok + level ?s \<le> level s + gain c * of_nat (clock ?s - clock s) + slack c"
    using admit Cons.prems by auto
  ultimately show ?case
    using IH ct(1) split by (simp add: distrib_right)
qed simp

lemma run_end:
  assumes "wf c s" and "clock s \<le> hi" and "sorted ts" and "\<forall>t\<in>set ts. clock s \<le> t \<and> t \<le> hi"
  shows "wf c (snd (admit_run (step c) ts s)) \<and> clock (snd (admit_run (step c) ts s)) \<le> hi"
  using assms
proof (induction ts arbitrary: s)
  case (Cons t ts)
  let ?s = "snd (step c t s)"
  have "clock ?s \<le> t" using clock_step [of s t c] Cons.prems by auto
  with Cons.prems have "wf c ?s" "clock ?s \<le> hi" "\<forall>x\<in>set ts. clock ?s \<le> x \<and> x \<le> hi"
    by (auto simp: step_wf)
  then show ?case using Cons.IH [of ?s] Cons.prems(3) by (simp add: case_prod_beta)
qed simp

lemma admitted_le:
  assumes "wf c s" and "sorted ts" and "\<forall>t\<in>set ts. clock s \<le> t \<and> t \<le> clock s + window"
  shows "of_nat (fst (admit_run (step c) ts s))
    \<le> level s + gain c * of_nat window + of_nat (length ts) * slack c"
proof -
  let ?e = "snd (admit_run (step c) ts s)"
  have e: "wf c ?e" "clock ?e \<le> clock s + window"
    using run_end [OF assms(1) _ assms(2), of "clock s + window"] assms(3) by auto
  have "clock ?e - clock s \<le> window" using e(2) by linarith
  then have "of_nat (clock ?e - clock s) \<le> (of_nat window :: rat)" by (simp only: of_nat_le_iff)
  then have "gain c * of_nat (clock ?e - clock s) \<le> gain c * of_nat window"
    using gain_nonneg [OF assms(1)] by (rule mult_left_mono)
  moreover have "0 \<le> level ?e" using e(1) by (rule level_nonneg)
  moreover have "of_nat (fst (admit_run (step c) ts s)) + level ?e
      \<le> level s + gain c * of_nat (clock ?e - clock s) + of_nat (length ts) * slack c"
    using run_bound [OF assms(1,2)] assms(3) by blast
  ultimately show ?thesis by linarith
qed

end

section \<open>The bucket is metered\<close>

definition rounding :: rat where "rounding = 1 / 2 ^ 53"

text \<open>Tokens gained per nanosecond, with the rounding of the four operations of a refill.\<close>

definition bucket_gain :: "f64 \<times> f64 \<Rightarrow> rat" where
  "bucket_gain c = fst c * (1 + rounding) ^ 4 / 1000000000"

definition bucket_slack :: "f64 \<times> f64 \<Rightarrow> rat" where
  "bucket_slack c = snd c * (2 * rounding)"

definition bucket_wf :: "f64 \<times> f64 \<Rightarrow> rate_bucket \<Rightarrow> bool" where
  "bucket_wf c b \<longleftrightarrow> 0 \<le> fst c \<and> 0 \<le> snd c \<and> snd c \<le> 2 ^ 53 \<and> 0 \<le> tb_tokens b \<and> tb_tokens b \<le> snd c"

lemma round_le: "0 \<le> x \<Longrightarrow> f64_round x \<le> x * (1 + rounding)"
  using f64_round_bounds(1) [of x] by (simp add: rounding_def distrib_left)

lemma as_secs_nonneg: "0 \<le> as_secs_f64 ns"
  by (simp add: as_secs_f64_def f64_add_def f64_div_def f64_of_nat_def f64_round_nonneg)

lemma as_secs_le: "as_secs_f64 ns \<le> of_nat ns / 1000000000 * (1 + rounding) ^ 3"
proof -
  let ?u = "1 + rounding :: rat" and ?q = "ns div 1000000000" and ?r = "ns mod 1000000000"
  have u: "1 \<le> ?u" by (simp add: rounding_def)
  have q: "f64_of_nat ?q \<le> of_nat ?q * ?u" and r: "f64_of_nat ?r \<le> of_nat ?r * ?u"
    unfolding f64_of_nat_def by (rule round_le; simp)+
  have r0: "0 \<le> f64_of_nat ?r" and q0: "0 \<le> f64_of_nat ?q"
    unfolding f64_of_nat_def by (rule f64_round_nonneg; simp)+
  have "f64_div (f64_of_nat ?r) 1000000000 \<le> f64_of_nat ?r / 1000000000 * ?u"
    unfolding f64_div_def using r0 by (intro round_le) simp
  also have "\<dots> \<le> of_nat ?r / 1000000000 * ?u\<^sup>2"
    using mult_right_mono [OF r, of "?u"] u by (simp add: power2_eq_square mult.assoc)
  finally have d: "f64_div (f64_of_nat ?r) 1000000000 \<le> of_nat ?r / 1000000000 * ?u\<^sup>2" .
  have q2: "f64_of_nat ?q \<le> of_nat ?q * ?u\<^sup>2"
  proof -
    have "of_nat ?q * ?u \<le> of_nat ?q * ?u\<^sup>2"
      using u by (intro mult_left_mono) (simp_all add: power2_eq_square)
    with q show ?thesis by linarith
  qed
  have "(of_nat ns :: rat) = of_nat (?q * 1000000000 + ?r)" by (simp only: div_mult_mod_eq)
  also have "\<dots> = of_nat ?q * 1000000000 + of_nat ?r" by (simp only: of_nat_add of_nat_mult of_nat_numeral)
  finally have split: "(of_nat ns :: rat) / 1000000000 = of_nat ?q + of_nat ?r / 1000000000"
    by (simp only: add_divide_distrib)
  have "0 \<le> f64_of_nat ?q + f64_div (f64_of_nat ?r) 1000000000"
    using q0 r0 by (simp add: f64_div_def f64_round_nonneg)
  then have "as_secs_f64 ns \<le> (f64_of_nat ?q + f64_div (f64_of_nat ?r) 1000000000) * ?u"
    unfolding as_secs_f64_def f64_add_def by (rule round_le)
  also have "\<dots> \<le> (of_nat ?q * ?u\<^sup>2 + of_nat ?r / 1000000000 * ?u\<^sup>2) * ?u"
    using q2 d u by (intro mult_right_mono) auto
  also have "\<dots> = of_nat ns / 1000000000 * ?u ^ 3"
    unfolding split by (simp add: power2_eq_square power3_eq_cube algebra_simps)
  finally show ?thesis .
qed

text \<open>What a refill adds, and what taking a token costs.\<close>

lemma refill_amount:
  assumes "0 \<le> rate"
  shows "f64_mul (as_secs_f64 ns) rate \<le> rate * (1 + rounding) ^ 4 / 1000000000 * of_nat ns"
proof -
  let ?u = "1 + rounding :: rat"
  have "f64_mul (as_secs_f64 ns) rate \<le> (as_secs_f64 ns * rate) * ?u"
    unfolding f64_mul_def using assms as_secs_nonneg by (intro round_le) simp
  also have "\<dots> \<le> (of_nat ns / 1000000000 * ?u ^ 3 * rate) * ?u"
    using as_secs_le assms by (intro mult_right_mono) (simp_all add: rounding_def)
  also have "\<dots> = rate * ?u ^ 4 / 1000000000 * of_nat ns"
    by (simp add: power3_eq_cube power4_eq_xxxx mult_ac)
  finally show ?thesis .
qed

lemma refill_wf:
  assumes "bucket_wf (rate, burst) b"
  shows "bucket_wf (rate, burst) (refill_bucket rate burst now b)"
proof -
  have "0 \<le> f64_mul (as_secs_f64 (now - tb_last_refill b)) rate"
    using assms as_secs_nonneg by (simp add: bucket_wf_def f64_mul_def f64_round_nonneg)
  then show ?thesis
    using assms by (auto simp: bucket_wf_def refill_bucket_def Let_def f64_add_def
        intro!: f64_round_nonneg)
qed

lemma refill_clock:
  "tb_last_refill b \<le> now \<Longrightarrow> tb_last_refill b \<le> tb_last_refill (refill_bucket rate burst now b) \<and>
   tb_last_refill (refill_bucket rate burst now b) \<le> now"
  by (simp add: refill_bucket_def Let_def)

lemma refill_level:
  assumes "bucket_wf (rate, burst) b" and "tb_last_refill b \<le> now"
  shows "tb_tokens (refill_bucket rate burst now b) \<le> tb_tokens b +
    bucket_gain (rate, burst) * of_nat (tb_last_refill (refill_bucket rate burst now b) - tb_last_refill b) +
    burst * rounding"
proof -
  let ?r = "f64_mul (as_secs_f64 (now - tb_last_refill b)) rate" and ?b = "refill_bucket rate burst now b"
  have b: "0 \<le> rate" "0 \<le> burst" "0 \<le> tb_tokens b" "tb_tokens b \<le> burst"
    using assms(1) by (simp_all add: bucket_wf_def)
  have pos: "0 \<le> burst * rounding" using b by (simp add: rounding_def)
  show ?thesis
  proof (cases "0 < ?r")
    case True
    let ?g = "bucket_gain (rate, burst) * of_nat (now - tb_last_refill b)"
    have r: "?r \<le> ?g" using refill_amount [OF b(1)] by (simp only: bucket_gain_def fst_conv)
    have new: "tb_tokens ?b \<le> f64_add (tb_tokens b) ?r" "tb_tokens ?b \<le> burst" "tb_last_refill ?b = now"
      using True by (simp_all add: refill_bucket_def Let_def)
    have "tb_tokens ?b \<le> tb_tokens b + ?r + burst * rounding"
    proof (cases "tb_tokens b + ?r \<le> burst")
      case small: True
      have "f64_add (tb_tokens b) ?r \<le> (tb_tokens b + ?r) * (1 + rounding)"
        unfolding f64_add_def using b True by (intro round_le) simp
      also have "\<dots> \<le> tb_tokens b + ?r + burst * rounding"
        using small by (simp add: distrib_left mult_right_mono rounding_def)
      finally show ?thesis using new by linarith
    qed (use new pos in linarith)
    with r show ?thesis unfolding new(3) by linarith
  next
    case False
    then show ?thesis using pos by (simp add: refill_bucket_def Let_def)
  qed
qed

lemma take_level:
  assumes "1 \<le> x" and "x \<le> burst" and "burst \<le> 2 ^ 53"
  shows "0 \<le> f64_sub x 1" and "f64_sub x 1 \<le> burst" and "1 + f64_sub x 1 \<le> x + burst * rounding"
proof -
  show "0 \<le> f64_sub x 1" using assms(1) by (simp add: f64_sub_def f64_round_nonneg)
  have "f64_sub x 1 \<le> (x - 1) * (1 + rounding)"
    unfolding f64_sub_def using assms(1) by (intro round_le) simp
  also have "\<dots> \<le> x - 1 + burst * rounding"
    using assms(2) by (simp add: distrib_left mult_right_mono rounding_def)
  finally show le: "1 + f64_sub x 1 \<le> x + burst * rounding" by simp
  have "burst * rounding \<le> 1" using assms(3) by (simp add: rounding_def)
  with le assms(2) show "f64_sub x 1 \<le> burst" by linarith
qed

lemma take_token_wf:
  "bucket_wf (rate, burst) b \<Longrightarrow> bucket_wf (rate, burst) (snd (take_token rate burst now b))"
  using refill_wf [of rate burst b now] take_level [of "tb_tokens (refill_bucket rate burst now b)" burst]
  by (auto simp: take_token_def Let_def bucket_wf_def)

lemma take_token_clock:
  "tb_last_refill (snd (take_token rate burst now b)) = tb_last_refill (refill_bucket rate burst now b)"
  by (simp add: take_token_def Let_def)

lemma take_token_level:
  assumes "bucket_wf (rate, burst) b" and "tb_last_refill b \<le> now"
  shows "of_bool (fst (take_token rate burst now b)) + tb_tokens (snd (take_token rate burst now b))
    \<le> tb_tokens b + bucket_gain (rate, burst) *
      of_nat (tb_last_refill (snd (take_token rate burst now b)) - tb_last_refill b) +
      bucket_slack (rate, burst)"
proof -
  let ?b = "refill_bucket rate burst now b"
  have b: "tb_tokens ?b \<le> burst" "burst \<le> 2 ^ 53" "0 \<le> burst"
    using refill_wf [OF assms(1), of now] by (simp_all add: bucket_wf_def)
  have pos: "0 \<le> burst * rounding" using b by (simp add: rounding_def)
  have "of_bool (fst (take_token rate burst now b)) + tb_tokens (snd (take_token rate burst now b))
      \<le> tb_tokens ?b + burst * rounding"
    using take_level(3) [of "tb_tokens ?b" burst] b pos by (auto simp: take_token_def Let_def)
  with refill_level [OF assms] show ?thesis
    unfolding take_token_clock bucket_slack_def snd_conv by (simp add: mult.assoc [symmetric])
qed

interpretation bucket: metered
  "\<lambda>(rate, burst). take_token rate burst" tb_tokens tb_last_refill bucket_gain bucket_slack bucket_wf
proof (unfold_locales, goal_cases)
  case (1 c s now)
  then show ?case by (cases c) (simp add: take_token_wf)
next
  case (2 c s)
  then show ?case by (cases c) (simp add: bucket_wf_def)
next
  case (3 c s)
  then show ?case by (cases c) (simp add: bucket_wf_def bucket_gain_def rounding_def)
next
  case (4 s now c)
  then show ?case by (cases c) (simp add: take_token_clock refill_clock)
next
  case (5 c s now)
  then show ?case by (cases c) (simp only: prod.case take_token_level)
qed

section \<open>Properties\<close>

text \<open>
  A token bucket admits at most its burst plus its rate times the elapsed time: over any
  sequence of calls at non-decreasing instants, the admitted calls are bounded by the tokens
  at the start plus the rate over the refilled time, up to the accumulated rounding of the
  \<open>f64\<close> arithmetic (a relative \<open>2 ^ - 51\<close> of the rate and \<open>2 ^ - 52\<close> of the burst per call).
\<close>

theorem bucket_admission_bound:
  assumes "bucket_wf (rate, burst) b" and "sorted ts"
    and "\<forall>t\<in>set ts. tb_last_refill b \<le> t \<and> t \<le> tb_last_refill b + window"
  shows "of_nat (fst (admit_run (take_token rate burst) ts b)) \<le>
    tb_tokens b + rate * (1 + 1 / 2 ^ 53) ^ 4 * (of_nat window / 1000000000) +
    of_nat (length ts) * (burst / 2 ^ 52)"
proof -
  have slack: "bucket_slack (rate, burst) = burst / 2 ^ 52" by (simp add: bucket_slack_def rounding_def)
  have gain: "bucket_gain (rate, burst) * of_nat window =
      rate * (1 + 1 / 2 ^ 53) ^ 4 * (of_nat window / 1000000000)"
    by (simp only: bucket_gain_def fst_conv rounding_def) simp
  show ?thesis
    using bucket.admitted_le [of "(rate, burst)" b ts window] assms unfolding slack gain by simp
qed

theorem bucket_admission_bound_witness:
  "of_nat (fst (admit_run (take_token 10 5) [0, 0, 0, 100000000] (fresh_bucket 5 0))) \<le>
     (5 + 10 * (1 + 1 / 2 ^ 53) ^ 4 * (of_nat 100000000 / 1000000000) + of_nat 4 * (5 / 2 ^ 52) :: rat)"
proof -
  have "bucket_wf (10, 5) (fresh_bucket 5 0)" by (simp add: bucket_wf_def fresh_bucket_def)
  from bucket_admission_bound [OF this, of "[0, 0, 0, 100000000]" 100000000] show ?thesis
    by (simp add: fresh_bucket_def)
qed

end
