(* ===== verification/Keyed_Limiter.thy ===== *)
theory Keyed_Limiter
  imports Token_Bucket
begin

text \<open>
  A limiter with one token bucket per key, as an interface: what a call does to the bucket of
  its key, and what it leaves of the buckets of other keys. The bound on the calls admitted to
  one key is proved here once, for the limiter of addresses (\<open>edge/crates/ddos/src/lib.rs\<close>) and
  for the limiter of domain rules (\<open>edge/crates/http-proxy/src/lib.rs\<close>).
\<close>

section \<open>Buckets that refill\<close>

lemma f64_round_pos:
  assumes "0 < x"
  shows "0 < f64_round x"
proof -
  have "0 < x - x / 2 ^ 53" using assms by simp
  with f64_round_bounds(2) [of x] assms show ?thesis by linarith
qed

lemma f64_of_nat_nonneg: "0 \<le> f64_of_nat n"
  by (simp add: f64_of_nat_def f64_round_nonneg)

lemma f64_of_nat_pos: "0 < n \<Longrightarrow> 0 < f64_of_nat n"
  by (simp add: f64_of_nat_def f64_round_pos)

lemma as_secs_pos:
  assumes "0 < ns"
  shows "0 < as_secs_f64 ns"
proof -
  let ?q = "ns div 1000000000" and ?r = "ns mod 1000000000"
  have r: "0 \<le> f64_div (f64_of_nat ?r) 1000000000"
    by (simp add: f64_div_def f64_round_nonneg f64_of_nat_nonneg)
  have "0 < f64_of_nat ?q + f64_div (f64_of_nat ?r) 1000000000"
  proof (cases "?q = 0")
    case True
    with assms have "0 < ?r" by (metis div_mult_mod_eq mult_0 add_0)
    then have "0 < f64_div (f64_of_nat ?r) 1000000000"
      by (simp add: f64_div_def f64_round_pos f64_of_nat_pos)
    then show ?thesis using f64_of_nat_nonneg [of ?q] by linarith
  next
    case False
    then have "0 < f64_of_nat ?q" by (intro f64_of_nat_pos) simp
    with r show ?thesis by linarith
  qed
  then show ?thesis by (simp add: as_secs_f64_def f64_add_def f64_round_pos)
qed

lemma take_token_now:
  assumes "0 < rate" and "tb_last_refill b \<le> now"
  shows "tb_last_refill (snd (take_token rate burst now b)) = now"
proof (cases "tb_last_refill b = now")
  case False
  then have "0 < f64_mul (as_secs_f64 (now - tb_last_refill b)) rate"
    using assms by (simp add: f64_mul_def f64_round_pos as_secs_pos)
  then show ?thesis by (simp add: take_token_clock refill_bucket_def Let_def)
qed (use assms in \<open>simp add: take_token_clock refill_bucket_def Let_def\<close>)

lemma take_token_burst:
  assumes "bucket_wf (rate, burst) b"
  shows "of_bool (fst (take_token rate burst now b)) + tb_tokens (snd (take_token rate burst now b))
    \<le> burst + bucket_slack (rate, burst)"
proof -
  let ?b = "refill_bucket rate burst now b"
  have b: "tb_tokens ?b \<le> burst" "burst \<le> 2 ^ 53" "0 \<le> burst"
    using refill_wf [OF assms, of now] by (simp_all add: bucket_wf_def)
  have "0 \<le> burst * rounding" using b by (simp add: rounding_def)
  then show ?thesis
    using take_level(3) [of "tb_tokens ?b" burst] b
    by (auto simp: take_token_def Let_def bucket_slack_def)
qed

lemma gain_mono:
  assumes "0 \<le> r" and "x \<le> y"
  shows "bucket_gain (r, m) * of_nat x \<le> bucket_gain (r, m) * of_nat y"
proof (rule mult_left_mono)
  show "rat_of_nat x \<le> of_nat y" using assms by (simp only: of_nat_le_iff)
  show "0 \<le> bucket_gain (r, m)" using assms by (simp add: bucket_gain_def rounding_def)
qed

section \<open>The interface\<close>

fun keyed_admitted ::
    "('q \<Rightarrow> instant \<Rightarrow> 's \<Rightarrow> bool \<times> 's) \<Rightarrow> ('q \<Rightarrow> 'k) \<Rightarrow> 'k \<Rightarrow> (instant \<times> 'q) list \<Rightarrow> 's \<Rightarrow> nat" where
  "keyed_admitted call key k [] s = 0"
| "keyed_admitted call key k ((now, q) # cs) s =
     (let (ok, s') = call q now s in of_bool (key q = k \<and> ok) + keyed_admitted call key k cs s')"

abbreviation keyed_calls :: "('q \<Rightarrow> 'k) \<Rightarrow> 'k \<Rightarrow> (instant \<times> 'q) list \<Rightarrow> instant list" where
  "keyed_calls key k cs \<equiv> map fst (filter (\<lambda>c. key (snd c) = k) cs)"

locale keyed_limiter =
  fixes call :: "'q \<Rightarrow> instant \<Rightarrow> 's \<Rightarrow> bool \<times> 's"
    and get :: "'s \<Rightarrow> 'k \<Rightarrow> rate_bucket option"
    and key :: "'q \<Rightarrow> 'k" and conf :: "'q \<Rightarrow> f64 \<times> f64"
    and good :: "'s \<Rightarrow> bool" and ttl :: nat
  assumes good_call: "good s \<Longrightarrow> good (snd (call q now s))"
    and own_bucket: "good s \<Longrightarrow> \<exists>b.
      (get s (key q) = Some b \<or> b = fresh_bucket (snd (conf q)) now \<and>
         (\<forall>b'. get s (key q) = Some b' \<longrightarrow> ttl < now - tb_last_refill b')) \<and>
      fst (call q now s) = fst (take_token (fst (conf q)) (snd (conf q)) now b) \<and>
      get (snd (call q now s)) (key q) = Some (snd (take_token (fst (conf q)) (snd (conf q)) now b))"
    and other_buckets: "good s \<Longrightarrow> k \<noteq> key q \<Longrightarrow> get (snd (call q now s)) k = get s k \<or>
      get (snd (call q now s)) k = None \<and> (\<exists>b. get s k = Some b \<and> ttl < now - tb_last_refill b)"
begin

lemma other_kept:
  "good s \<Longrightarrow> k \<noteq> key q \<Longrightarrow> get s k = Some b \<Longrightarrow> now \<le> tb_last_refill b + ttl \<Longrightarrow>
   get (snd (call q now s)) k = Some b"
  using other_buckets [of s k q now] by auto

text \<open>While its bucket is young enough, a key sees exactly its own token bucket.\<close>

lemma admitted_bucket:
  assumes "good s" and "get s k = Some b" and "sorted (map fst cs)"
    and "\<forall>t\<in>set (map fst cs). tb_last_refill b \<le> t \<and> t \<le> tb_last_refill b + ttl"
    and "\<forall>q\<in>set (map snd cs). key q = k \<longrightarrow> conf q = (r, m)"
  shows "keyed_admitted call key k cs s = fst (admit_run (take_token r m) (keyed_calls key k cs) b)"
  using assms
proof (induction cs arbitrary: s b)
  case (Cons x cs)
  obtain now q where x: "x = (now, q)" by (cases x)
  let ?s = "snd (call q now s)"
  have good: "good ?s" using Cons.prems(1) by (rule good_call)
  have young: "now \<le> tb_last_refill b + ttl" "tb_last_refill b \<le> now" using Cons.prems(4) x by auto
  show ?case
  proof (cases "key q = k")
    case True
    let ?r = "take_token r m now b"
    have r: "fst (call q now s) = fst ?r" "get ?s k = Some (snd ?r)"
      using own_bucket [OF Cons.prems(1), of q now] Cons.prems(2,5) True x young by auto
    have clock: "tb_last_refill b \<le> tb_last_refill (snd ?r)" "tb_last_refill (snd ?r) \<le> now"
      using refill_clock [OF young(2)] by (simp_all add: take_token_clock)
    have "\<forall>t\<in>set (map fst cs). tb_last_refill (snd ?r) \<le> t \<and> t \<le> tb_last_refill (snd ?r) + ttl"
      using Cons.prems(3,4) x clock by fastforce
    then have "keyed_admitted call key k cs ?s = fst (admit_run (take_token r m) (keyed_calls key k cs) (snd ?r))"
      using Cons.IH [OF good r(2)] Cons.prems(3,5) x by simp
    then show ?thesis using r(1) True x by (simp add: case_prod_beta)
  next
    case False
    have "get ?s k = Some b" using other_kept [OF Cons.prems(1) _ Cons.prems(2) young(1)] False by auto
    then show ?thesis
      using Cons.IH [OF good] False x Cons.prems(3,4,5) by (simp add: case_prod_beta)
  qed
qed simp

lemma first_call_window:
  assumes "good s" and "bucket_wf (r, m) (fresh_bucket m now)" and "0 < r" and "conf q = (r, m)" and "key q = k"
    and "\<forall>b. get s k = Some b \<longrightarrow> bucket_wf (r, m) b \<and> tb_last_refill b \<le> now"
    and "sorted (map fst cs)" and "\<forall>t\<in>set (map fst cs). now \<le> t \<and> t \<le> hi" and "hi \<le> now + ttl"
    and "\<forall>q\<in>set (map snd cs). key q = k \<longrightarrow> conf q = (r, m)"
  shows "of_nat (keyed_admitted call key k ((now, q) # cs) s) \<le>
    m + bucket_gain (r, m) * of_nat (hi - now) + of_nat (Suc (length (keyed_calls key k cs))) * bucket_slack (r, m)"
proof -
  let ?s = "snd (call q now s)"
  obtain b where b: "bucket_wf (r, m) b" "tb_last_refill b \<le> now"
    and call: "fst (call q now s) = fst (take_token r m now b)" "get ?s k = Some (snd (take_token r m now b))"
    using own_bucket [OF assms(1), of q now] assms(2,4-6) by (auto simp: fresh_bucket_def)
  let ?b = "take_token r m now b"
  have clock: "tb_last_refill (snd ?b) = now" using take_token_now [OF assms(3) b(2)] .
  have rest: "keyed_admitted call key k cs ?s = fst (admit_run (take_token r m) (keyed_calls key k cs) (snd ?b))"
    using admitted_bucket [OF good_call [OF assms(1)] call(2) assms(7)] assms(8,9,10) clock by fastforce
  have "sorted (keyed_calls key k cs)" using assms(7) by (rule sorted_filter)
  then have "of_nat (keyed_admitted call key k cs ?s) \<le> tb_tokens (snd ?b) + bucket_gain (r, m) * of_nat (hi - now) +
      of_nat (length (keyed_calls key k cs)) * bucket_slack (r, m)"
    using bucket.admitted_le [of "(r, m)" "snd ?b" "keyed_calls key k cs" "hi - now"] take_token_wf [OF b(1)]
      clock assms(8) by (fastforce simp: rest)
  moreover have "keyed_admitted call key k ((now, q) # cs) s = of_bool (fst ?b) + keyed_admitted call key k cs ?s"
    using call(1) assms(5) by (simp add: case_prod_beta)
  moreover have "of_bool (fst ?b) + tb_tokens (snd ?b) \<le> m + bucket_slack (r, m)" using b(1) by (rule take_token_burst)
  ultimately show ?thesis by (simp add: distrib_right)
qed

text \<open>The buckets of the calls to come are well formed and were last refilled in the past.\<close>

lemma other_wf:
  assumes "good s" and "k \<noteq> key q" and "t0 \<le> now"
    and "\<forall>b. get s k = Some b \<longrightarrow> bucket_wf c b \<and> tb_last_refill b \<le> t0"
  shows "\<forall>b. get (snd (call q now s)) k = Some b \<longrightarrow> bucket_wf c b \<and> tb_last_refill b \<le> now"
  using other_buckets [OF assms(1,2), of now] assms(3,4) by (auto dest: order_trans)

lemma admitted_window:
  assumes "good s" and "0 < r" and "0 \<le> m" and "m \<le> 2 ^ 53"
    and "\<forall>b. get s k = Some b \<longrightarrow> bucket_wf (r, m) b \<and> tb_last_refill b \<le> t0"
    and "sorted (map fst cs)" and "\<forall>t\<in>set (map fst cs). t0 \<le> t \<and> t \<le> hi" and "hi \<le> t0 + ttl"
    and "\<forall>q\<in>set (map snd cs). key q = k \<longrightarrow> conf q = (r, m)"
  shows "of_nat (keyed_admitted call key k cs s) \<le>
    m + bucket_gain (r, m) * of_nat (hi - t0) + of_nat (length (keyed_calls key k cs)) * bucket_slack (r, m)"
  using assms
proof (induction cs arbitrary: s t0)
  case Nil
  have "0 \<le> bucket_gain (r, m) * of_nat (hi - t0)"
    using Nil.prems(2) by (simp add: bucket_gain_def rounding_def)
  then show ?case using Nil.prems(3) by simp
next
  case (Cons x cs)
  obtain now q where x: "x = (now, q)" by (cases x)
  have now: "t0 \<le> now" "now \<le> hi" "\<forall>t\<in>set (map fst cs). now \<le> t \<and> t \<le> hi" "sorted (map fst cs)" "hi \<le> now + ttl"
    "\<forall>q\<in>set (map snd cs). key q = k \<longrightarrow> conf q = (r, m)"
    using Cons.prems x by auto
  have less: "bucket_gain (r, m) * of_nat (hi - now) \<le> bucket_gain (r, m) * of_nat (hi - t0)"
    using gain_mono [of r "hi - now" "hi - t0" m] now(1) Cons.prems(2) by simp
  show ?case
  proof (cases "key q = k")
    case True
    have fresh: "bucket_wf (r, m) (fresh_bucket m now)"
      using Cons.prems(2-4) by (simp add: bucket_wf_def fresh_bucket_def)
    have old: "\<forall>b. get s k = Some b \<longrightarrow> bucket_wf (r, m) b \<and> tb_last_refill b \<le> now"
      using Cons.prems(5) now(1) by (auto dest: order_trans)
    have conf: "conf q = (r, m)" using Cons.prems(9) True x by simp
    show ?thesis
      using first_call_window [OF Cons.prems(1) fresh Cons.prems(2) conf True old now(4,3,5,6)] less True x by simp
  next
    case False
    then have "\<forall>b. get (snd (call q now s)) k = Some b \<longrightarrow> bucket_wf (r, m) b \<and> tb_last_refill b \<le> now"
      using other_wf [OF Cons.prems(1) _ now(1) Cons.prems(5), of q] by auto
    from Cons.IH [OF good_call [OF Cons.prems(1)] Cons.prems(2-4) this now(4,3,5,6)]
    show ?thesis using less False x by (simp add: case_prod_beta)
  qed
qed

end

end
