(* ===== verification/Rate_Limit.thy ===== *)
theory Rate_Limit
  imports Std_Net Keyed_Limiter
begin

text \<open>
  The blacklist and the per-address rate limiter (\<open>edge/crates/ddos/src/lib.rs\<close>). Whether a
  network contains an address is decided by the \<open>ipnet\<close> crate and is an argument.
\<close>

section \<open>Definitions\<close>

subsection \<open>Blacklist\<close>

datatype blacklist_action = Add | Remove

record blacklist_command =
  bc_action :: blacklist_action
  bc_domain_id :: string
  bc_ip :: ip_addr

record blacklist_engine =
  bl_domains :: "(string, ip_addr set) hmap"
  bl_cidr_blocks :: "ip_net list"

definition new_blacklist :: blacklist_engine where
  "new_blacklist = \<lparr>bl_domains = [], bl_cidr_blocks = []\<rparr>"

definition with_cidrs :: "ip_net list \<Rightarrow> blacklist_engine" where
  "with_cidrs cidrs = \<lparr>bl_domains = [], bl_cidr_blocks = cidrs\<rparr>"

definition blacklist_add :: "string \<Rightarrow> ip_addr \<Rightarrow> blacklist_engine \<Rightarrow> blacklist_engine" where
  "blacklist_add d ip b =
     b\<lparr>bl_domains := hm_insert d (insert ip (hm_get_or (bl_domains b) d {})) (bl_domains b)\<rparr>"

definition blacklist_remove :: "string \<Rightarrow> ip_addr \<Rightarrow> blacklist_engine \<Rightarrow> blacklist_engine" where
  "blacklist_remove d ip b =
     (case hm_get (bl_domains b) d of None \<Rightarrow> b
      | Some s \<Rightarrow> b\<lparr>bl_domains := hm_insert d (s - {ip}) (bl_domains b)\<rparr>)"

definition blacklist_contains ::
    "(ip_net \<Rightarrow> ip_addr \<Rightarrow> bool) \<Rightarrow> string \<Rightarrow> ip_addr \<Rightarrow> blacklist_engine \<Rightarrow> bool" where
  "blacklist_contains contains d ip b =
     (if list_ex (\<lambda>n. contains n ip) (bl_cidr_blocks b) then True
      else (case hm_get (bl_domains b) d of None \<Rightarrow> False | Some s \<Rightarrow> ip \<in> s))"

definition blacklist_apply :: "blacklist_command \<Rightarrow> blacklist_engine \<Rightarrow> blacklist_engine" where
  "blacklist_apply c b = (case bc_action c of
       Add \<Rightarrow> blacklist_add (bc_domain_id c) (bc_ip c) b
     | Remove \<Rightarrow> blacklist_remove (bc_domain_id c) (bc_ip c) b)"

definition replace_cidrs :: "ip_net list \<Rightarrow> blacklist_engine \<Rightarrow> blacklist_engine" where
  "replace_cidrs cidrs b = b\<lparr>bl_cidr_blocks := cidrs\<rparr>"

subsection \<open>Rate limiter\<close>

datatype security_decision = Allowed | Blocked string | RateLimited nat

record rate_limit_config =
  rl_requests_per_second :: u32
  rl_burst :: u32

definition default_rate_limit_config :: rate_limit_config where
  "default_rate_limit_config = \<lparr>rl_requests_per_second = 120, rl_burst = 240\<rparr>"

record rate_limiter =
  rl_config :: rate_limit_config
  rl_buckets :: "(ip_addr, rate_bucket) hmap"
  rl_last_eviction :: instant

definition RATE_BUCKET_TTL_SECONDS :: nat where "RATE_BUCKET_TTL_SECONDS = 600"
definition RATE_BUCKET_EVICT_AT :: nat where "RATE_BUCKET_EVICT_AT = 100000"

definition from_secs :: "nat \<Rightarrow> nat" where "from_secs s = s * 1000000000"

text \<open>\<open>Duration::from_secs_f64\<close>: the nearest nanosecond.\<close>

definition from_secs_f64 :: "f64 \<Rightarrow> nat" where
  "from_secs_f64 x = nat (half_even (x * 1000000000))"

definition new_rate_limiter :: "rate_limit_config \<Rightarrow> instant \<Rightarrow> rate_limiter" where
  "new_rate_limiter c now = \<lparr>rl_config = c, rl_buckets = [], rl_last_eviction = now\<rparr>"

definition retain_recent :: "instant \<Rightarrow> rate_limiter \<Rightarrow> rate_limiter" where
  "retain_recent now l = l\<lparr>rl_buckets := hm_retain
     (\<lambda>_ b. now - tb_last_refill b \<le> from_secs RATE_BUCKET_TTL_SECONDS) (rl_buckets l)\<rparr>"

definition rate_evict_if_due :: "instant \<Rightarrow> rate_limiter \<Rightarrow> rate_limiter" where
  "rate_evict_if_due now l =
     (if now - rl_last_eviction l < from_secs 30 then l
      else retain_recent now (l\<lparr>rl_last_eviction := now\<rparr>))"

definition rate_evict_stale :: "instant \<Rightarrow> rate_limiter \<Rightarrow> rate_limiter" where
  "rate_evict_stale now l =
     (if length (rl_buckets l) < RATE_BUCKET_EVICT_AT then l else retain_recent now l)"

definition rps_f64 :: "rate_limit_config \<Rightarrow> f64" where
  "rps_f64 c = f64_of_nat (unat (rl_requests_per_second c))"

definition burst_f64 :: "rate_limit_config \<Rightarrow> f64" where
  "burst_f64 c = f64_of_nat (unat (rl_burst c))"

definition allow :: "instant \<Rightarrow> ip_addr \<Rightarrow> rate_limiter \<Rightarrow> security_decision \<times> rate_limiter" where
  "allow now ip l =
     (let l = rate_evict_stale now (rate_evict_if_due now l); c = rl_config l;
          b = hm_get_or (rl_buckets l) ip (fresh_bucket (burst_f64 c) now);
          (ok, b) = take_token (rps_f64 c) (burst_f64 c) now b
      in (if ok then Allowed
          else RateLimited (from_secs_f64
                 (f64_div 1 (f64_of_nat (unat (max (rl_requests_per_second c) 1))))),
          l\<lparr>rl_buckets := hm_insert ip b (rl_buckets l)\<rparr>))"

definition bucket_count :: "rate_limiter \<Rightarrow> nat" where
  "bucket_count l = length (rl_buckets l)"

section \<open>Blacklist lemmas\<close>

lemma contains_add:
  "blacklist_contains c d ip (blacklist_add d' ip' b) \<longleftrightarrow>
   blacklist_contains c d ip b \<or> d = d' \<and> ip = ip'"
  by (auto simp: blacklist_contains_def blacklist_add_def hm_get_or_def split: option.splits)

lemma contains_remove:
  "blacklist_contains c d ip (blacklist_remove d' ip' b) \<longleftrightarrow>
   blacklist_contains c d ip b \<and>
   (d = d' \<and> ip = ip' \<longrightarrow> list_ex (\<lambda>n. c n ip) (bl_cidr_blocks b))"
  by (auto simp: blacklist_contains_def blacklist_remove_def split: option.splits)

lemma contains_cidr: "list_ex (\<lambda>n. c n ip) (bl_cidr_blocks b) \<Longrightarrow> blacklist_contains c d ip b"
  by (simp add: blacklist_contains_def)

lemma contains_apply:
  "blacklist_contains c d ip (blacklist_apply x b) \<longleftrightarrow>
   (if bc_domain_id x = d \<and> bc_ip x = ip
    then list_ex (\<lambda>n. c n ip) (bl_cidr_blocks b) \<or> bc_action x = Add
    else blacklist_contains c d ip b)"
  using contains_cidr [of c ip b d]
  by (cases "bc_action x") (auto simp: blacklist_apply_def contains_add contains_remove)

lemma apply_cidrs [frame_simps]: "bl_cidr_blocks (blacklist_apply c b) = bl_cidr_blocks b"
  by (simp add: blacklist_apply_def blacklist_add_def blacklist_remove_def
      split: blacklist_action.split option.split)

text \<open>The last command about a domain and an address decides.\<close>

definition last_command :: "string \<Rightarrow> ip_addr \<Rightarrow> blacklist_command list \<Rightarrow> blacklist_action option" where
  "last_command d ip cs = map_option bc_action
     (List.find (\<lambda>c. bc_domain_id c = d \<and> bc_ip c = ip) (rev cs))"

lemma blacklist_run:
  "blacklist_contains c d ip (fold blacklist_apply cs b) \<longleftrightarrow>
   list_ex (\<lambda>n. c n ip) (bl_cidr_blocks b) \<or>
   (case last_command d ip cs of None \<Rightarrow> blacklist_contains c d ip b | Some a \<Rightarrow> a = Add)"
proof (induction cs rule: rev_induct)
  case Nil
  then show ?case by (auto simp: last_command_def blacklist_contains_def)
next
  case (snoc x cs)
  have cidr: "bl_cidr_blocks (fold blacklist_apply cs b) = bl_cidr_blocks b"
    by (induction cs rule: rev_induct) (simp_all add: frame_simps)
  have last: "last_command d ip (cs @ [x]) =
      (if bc_domain_id x = d \<and> bc_ip x = ip then Some (bc_action x) else last_command d ip cs)"
    by (simp add: last_command_def)
  show ?case using snoc by (simp add: contains_apply cidr last)
qed

section \<open>Rate limiter lemmas\<close>

lemma u32_bound: "unat (w :: u32) < 2 ^ 32"
  using unat_bound [of w] by simp

lemma u32_le_f64: "rat_of_nat (unat (w :: u32)) \<le> 2 ^ 53"
proof -
  have "unat w \<le> 2 ^ 53" using u32_bound [of w] by simp
  then have "rat_of_nat (unat w) \<le> of_nat (2 ^ 53)" by (simp only: of_nat_le_iff)
  then show ?thesis by simp
qed

lemma rps_f64_exact: "rps_f64 c = of_nat (unat (rl_requests_per_second c))"
  unfolding rps_f64_def using u32_bound [of "rl_requests_per_second c"] by (intro f64_of_nat_exact) simp

lemma burst_f64_exact: "burst_f64 c = of_nat (unat (rl_burst c))"
  unfolding burst_f64_def using u32_bound [of "rl_burst c"] by (intro f64_of_nat_exact) simp

lemma limit_f64_bounds: "0 \<le> rps_f64 c" "0 \<le> burst_f64 c" "burst_f64 c \<le> 2 ^ 53"
  using u32_le_f64 [of "rl_burst c"]
  by (simp_all only: rps_f64_exact burst_f64_exact of_nat_0_le_iff)

text \<open>The buckets of a limiter are well formed and were last refilled in the past.\<close>

definition limiter_wf :: "instant \<Rightarrow> rate_limiter \<Rightarrow> bool" where
  "limiter_wf now l \<longleftrightarrow> hm_wf (rl_buckets l) \<and>
     (\<forall>ip b. hm_get (rl_buckets l) ip = Some b \<longrightarrow>
        bucket_wf (rps_f64 (rl_config l), burst_f64 (rl_config l)) b \<and> tb_last_refill b \<le> now)"

definition rate_evict :: "instant \<Rightarrow> rate_limiter \<Rightarrow> rate_limiter" where
  "rate_evict now l = rate_evict_stale now (rate_evict_if_due now l)"

lemma rate_evict_config [frame_simps]: "rl_config (rate_evict now l) = rl_config l"
  by (simp add: rate_evict_def rate_evict_stale_def rate_evict_if_due_def retain_recent_def)

lemma retain_recent_get:
  assumes "hm_wf (rl_buckets l)"
  shows "hm_get (rl_buckets (retain_recent now l)) ip =
    (case hm_get (rl_buckets l) ip of None \<Rightarrow> None
     | Some b \<Rightarrow> if now - tb_last_refill b \<le> from_secs RATE_BUCKET_TTL_SECONDS then Some b else None)"
  using assms by (simp add: retain_recent_def hm.get_keep)

lemma retain_recent_wf: "hm_wf (rl_buckets l) \<Longrightarrow> hm_wf (rl_buckets (retain_recent now l))"
  by (auto simp: retain_recent_def)

text \<open>Eviction keeps every bucket that was refilled within the time to live.\<close>

lemma rate_evict_get:
  assumes "hm_wf (rl_buckets l)"
  shows "hm_get (rl_buckets (rate_evict now l)) ip = hm_get (rl_buckets l) ip \<or>
    hm_get (rl_buckets (rate_evict now l)) ip = None \<and>
    (\<exists>b. hm_get (rl_buckets l) ip = Some b \<and> from_secs RATE_BUCKET_TTL_SECONDS < now - tb_last_refill b)"
  and "hm_wf (rl_buckets (rate_evict now l))"
proof -
  let ?l = "rate_evict_if_due now l"
  have wf1: "hm_wf (rl_buckets ?l)"
    using assms retain_recent_wf by (simp add: rate_evict_if_due_def)
  then show "hm_wf (rl_buckets (rate_evict now l))"
    by (simp add: rate_evict_def rate_evict_stale_def retain_recent_wf)
  have "hm_get (rl_buckets ?l) ip = hm_get (rl_buckets l) ip \<or> hm_get (rl_buckets ?l) ip = None \<and>
    (\<exists>b. hm_get (rl_buckets l) ip = Some b \<and> from_secs RATE_BUCKET_TTL_SECONDS < now - tb_last_refill b)"
    using assms retain_recent_get [of "l\<lparr>rl_last_eviction := now\<rparr>" now ip]
    by (auto simp: rate_evict_if_due_def split: option.splits if_splits)
  then show "hm_get (rl_buckets (rate_evict now l)) ip = hm_get (rl_buckets l) ip \<or>
    hm_get (rl_buckets (rate_evict now l)) ip = None \<and>
    (\<exists>b. hm_get (rl_buckets l) ip = Some b \<and> from_secs RATE_BUCKET_TTL_SECONDS < now - tb_last_refill b)"
    using retain_recent_get [OF wf1, of now ip]
    by (auto simp: rate_evict_def rate_evict_stale_def split: option.splits if_splits)
qed

lemma allow_unfold:
  "allow now ip l =
     (let l = rate_evict now l; c = rl_config l;
          r = take_token (rps_f64 c) (burst_f64 c) now
                (hm_get_or (rl_buckets l) ip (fresh_bucket (burst_f64 c) now))
      in (if fst r then Allowed
          else RateLimited (from_secs_f64
                 (f64_div 1 (f64_of_nat (unat (max (rl_requests_per_second c) 1))))),
          l\<lparr>rl_buckets := hm_insert ip (snd r) (rl_buckets l)\<rparr>))"
  by (simp add: allow_def rate_evict_def Let_def case_prod_beta)

lemma allow_config [frame_simps]: "rl_config (snd (allow now ip l)) = rl_config l"
  by (simp add: allow_unfold Let_def frame_simps)

lemma allow_hm_wf: "hm_wf (rl_buckets l) \<Longrightarrow> hm_wf (rl_buckets (snd (allow now ip l)))"
  using rate_evict_get(2) [of l now] by (auto simp: allow_unfold Let_def)

text \<open>The bucket that a call on an address works with.\<close>

definition effective_bucket :: "instant \<Rightarrow> ip_addr \<Rightarrow> rate_limiter \<Rightarrow> rate_bucket" where
  "effective_bucket now ip l = hm_get_or (rl_buckets (rate_evict now l)) ip
     (fresh_bucket (burst_f64 (rl_config l)) now)"

lemma allow_same:
  defines "r now ip l \<equiv> take_token (rps_f64 (rl_config l)) (burst_f64 (rl_config l)) now (effective_bucket now ip l)"
  shows "fst (allow now ip l) = Allowed \<longleftrightarrow> fst (r now ip l)"
    and "hm_get (rl_buckets (snd (allow now ip l))) ip = Some (snd (r now ip l))"
  by (auto simp: allow_unfold Let_def frame_simps effective_bucket_def r_def)

lemma effective_wf:
  assumes "limiter_wf t l" and "t \<le> now"
  shows "bucket_wf (rps_f64 (rl_config l), burst_f64 (rl_config l)) (effective_bucket now ip l) \<and>
    tb_last_refill (effective_bucket now ip l) \<le> now"
proof -
  have "bucket_wf (rps_f64 (rl_config l), burst_f64 (rl_config l)) (fresh_bucket (burst_f64 (rl_config l)) now)"
    by (simp only: bucket_wf_def fresh_bucket_def limit_f64_bounds fst_conv snd_conv
        rate_bucket.simps order_refl simp_thms)
  moreover have "bucket_wf (rps_f64 (rl_config l), burst_f64 (rl_config l)) b \<and> tb_last_refill b \<le> now"
    if "hm_get (rl_buckets l) ip = Some b" for b
    using that assms by (auto simp: limiter_wf_def dest: order_trans)
  moreover have "hm_wf (rl_buckets l)" using assms(1) by (simp add: limiter_wf_def)
  ultimately show ?thesis
    using rate_evict_get(1) [of l now ip]
    by (auto simp: effective_bucket_def hm_get_or_def fresh_bucket_def split: option.splits)
qed

lemma allow_wf:
  assumes "limiter_wf t l" and "t \<le> now"
  shows "limiter_wf now (snd (allow now ip l))"
  unfolding limiter_wf_def frame_simps
proof (intro conjI allI impI)
  let ?c = "rl_config l"
  have wf: "hm_wf (rl_buckets l)" using assms(1) by (simp add: limiter_wf_def)
  then show "hm_wf (rl_buckets (snd (allow now ip l)))" by (rule allow_hm_wf)
  fix i b assume b: "hm_get (rl_buckets (snd (allow now ip l))) i = Some b"
  have "bucket_wf (rps_f64 ?c, burst_f64 ?c) b \<and> tb_last_refill b \<le> now"
  proof (cases "i = ip")
    case True
    then have "b = snd (take_token (rps_f64 ?c) (burst_f64 ?c) now (effective_bucket now ip l))"
      using b allow_same(2) by simp
    then show ?thesis
      using effective_wf [OF assms] by (simp add: take_token_wf take_token_clock refill_clock)
  next
    case False
    then have "hm_get (rl_buckets (rate_evict now l)) i = Some b"
      using b by (simp add: allow_unfold Let_def)
    then have "hm_get (rl_buckets l) i = Some b" using rate_evict_get(1) [OF wf, of now i] by auto
    then show ?thesis using assms by (auto simp: limiter_wf_def dest: order_trans)
  qed
  then show "bucket_wf (rps_f64 ?c, burst_f64 ?c) b" "tb_last_refill b \<le> now" by auto
qed

subsection \<open>Runs of the limiter\<close>

fun allowed_calls :: "ip_addr \<Rightarrow> (instant \<times> ip_addr) list \<Rightarrow> rate_limiter \<Rightarrow> nat" where
  "allowed_calls ip [] l = 0"
| "allowed_calls ip ((now, i) # cs) l =
     (let (d, l') = allow now i l
      in (if i = ip \<and> d = Allowed then 1 else 0) + allowed_calls ip cs l')"

abbreviation calls_of :: "ip_addr \<Rightarrow> (instant \<times> ip_addr) list \<Rightarrow> instant list" where
  "calls_of ip cs \<equiv> map fst (filter (\<lambda>c. snd c = ip) cs)"

lemma allow_bucket:
  assumes "hm_wf (rl_buckets l)"
  shows "(hm_get (rl_buckets l) ip = Some (effective_bucket now ip l) \<or>
      effective_bucket now ip l = fresh_bucket (burst_f64 (rl_config l)) now \<and>
      (\<forall>b. hm_get (rl_buckets l) ip = Some b \<longrightarrow> from_secs RATE_BUCKET_TTL_SECONDS < now - tb_last_refill b))"
  using rate_evict_get(1) [OF assms, of now ip] by (auto simp: effective_bucket_def hm_get_or_def split: option.splits)

lemma allow_others:
  assumes "hm_wf (rl_buckets l)" and "k \<noteq> ip"
  shows "hm_get (rl_buckets (snd (allow now ip l))) k = hm_get (rl_buckets l) k \<or>
    hm_get (rl_buckets (snd (allow now ip l))) k = None \<and>
    (\<exists>b. hm_get (rl_buckets l) k = Some b \<and> from_secs RATE_BUCKET_TTL_SECONDS < now - tb_last_refill b)"
  using rate_evict_get(1) [OF assms(1), of now k] assms(2) by (simp add: allow_unfold Let_def)

interpretation addresses: keyed_limiter
  "\<lambda>ip now l. (fst (allow now ip l) = Allowed, snd (allow now ip l))" "\<lambda>l. hm_get (rl_buckets l)" id
  "\<lambda>_. (rps_f64 c, burst_f64 c)" "\<lambda>l. hm_wf (rl_buckets l) \<and> rl_config l = c"
  "from_secs RATE_BUCKET_TTL_SECONDS" for c
proof (unfold_locales, goal_cases)
  case (2 l ip now)
  then show ?case using allow_bucket [of l ip now] allow_same [where now = now and ip = ip and l = l] by auto
qed (use allow_others in \<open>auto simp: frame_simps allow_hm_wf\<close>)

lemma allowed_calls_keyed:
  "allowed_calls ip cs l =
     keyed_admitted (\<lambda>ip now l. (fst (allow now ip l) = Allowed, snd (allow now ip l))) id ip cs l"
  by (induction cs arbitrary: l) (auto simp: case_prod_beta Let_def)

lemma allowed_window:
  assumes "limiter_wf t0 l" and "0 < rl_requests_per_second (rl_config l)"
    and "sorted (map fst cs)" and "\<forall>t\<in>set (map fst cs). t0 \<le> t \<and> t \<le> hi"
    and "hi \<le> t0 + from_secs RATE_BUCKET_TTL_SECONDS"
    and "c = (rps_f64 (rl_config l), burst_f64 (rl_config l))"
  shows "of_nat (allowed_calls ip cs l) \<le> burst_f64 (rl_config l) +
    bucket_gain c * of_nat (hi - t0) + of_nat (length (calls_of ip cs)) * bucket_slack c"
proof -
  have "0 < unat (rl_requests_per_second (rl_config l))" using assms(2) by (simp add: unat_gt_0)
  then have rate: "0 < rps_f64 (rl_config l)" by (simp only: rps_f64_exact of_nat_0_less_iff)
  show ?thesis
    using addresses.admitted_window [of l "rl_config l" "rps_f64 (rl_config l)" "burst_f64 (rl_config l)" ip t0 cs hi]
      rate limit_f64_bounds(2,3) assms by (simp add: limiter_wf_def allowed_calls_keyed)
qed

section \<open>Properties\<close>



text \<open>
  The blacklist is decided by the last command: after any sequence of commands an address
  is blacklisted for a domain exactly when a blocked network contains it, or the last command
  about that domain and address added it, or there was none and it was listed before. Commands
  about other domains or addresses have no effect.
\<close>

theorem blacklist_last_command:
  "blacklist_contains contains d ip (fold blacklist_apply cs b) \<longleftrightarrow>
   list_ex (\<lambda>n. contains n ip) (bl_cidr_blocks b) \<or>
   (case last_command d ip cs of None \<Rightarrow> blacklist_contains contains d ip b | Some a \<Rightarrow> a = Add)"
  by (rule blacklist_run)

end
