(* ===== verification/Common_Types.thy ===== *)
theory Common_Types
  imports Std_Net "HOL-Library.Finite_Map" "HOL-Library.List_Lexorder" "HOL-Library.Char_ord"
begin

text \<open>
  The data model of \<open>edge/crates/common/src/lib.rs\<close>: routes, upstreams, per-domain rules
  and the configuration structs they carry, each with its \<open>Default\<close>.

  A struct is a record whose fields carry a short prefix of the struct's name before the
  source's field name (\<open>up_url\<close> is \<open>Upstream::url\<close>). A \<open>HashMap\<close> inside a struct is
  a finite map, so that \<open>=\<close> on the model is the derived \<open>PartialEq\<close> of the source,
  which ignores the order of a \<open>HashMap\<close>. A \<open>DateTime<Utc>\<close> is its number of
  milliseconds. Strings order bytewise, as Rust's \<open>str\<close> does.
\<close>

section \<open>Errors\<close>

datatype pxxl_error =
    RouteNotFound string string
  | NoHealthyUpstreams string
  | InvalidUpstream string
  | UpstreamDnsResolutionFailed string
  | UpstreamConnectionRefused string
  | UpstreamConnectionTimeout string
  | UpstreamConnectionFailed string
  | InvalidHost
  | InvalidPath string
  | BandwidthLimitExceeded string u64 u64 string

section \<open>Quotas\<close>

definition MAX_ROUTES_PER_SOURCE :: nat where "MAX_ROUTES_PER_SOURCE = 100000"
definition MAX_PATHS_PER_ROUTE :: nat where "MAX_PATHS_PER_ROUTE = 64"
definition MAX_UPSTREAMS_PER_ROUTE :: nat where "MAX_UPSTREAMS_PER_ROUTE = 128"
definition MAX_MIRROR_UPSTREAMS_PER_ROUTE :: nat where "MAX_MIRROR_UPSTREAMS_PER_ROUTE = 16"

section \<open>Enumerations\<close>

datatype route_source = Static | Docker | Podman | Api

datatype load_balancing_algorithm =
    RoundRobin | LeastConnections | IpHash | WeightedRoundRobin
  | EwmaLatency | P2c | Hrw | LatencyAware

datatype in_flight_limit_scope = ScopeRoute | ScopeDomain | ScopeUpstream

datatype acme_challenge = Http01 | Dns01 | TlsAlpn01

datatype rate_limit_scope = PerIp | PerDomain | PerIpPath

text \<open>\<open>ProxyMode::External {proxy_url, max_connections, auth_token, forward_client_ip}\<close>.\<close>

datatype proxy_mode =
    Direct
  | External string "u32 option" "string option" bool

section \<open>Upstreams and paths\<close>

record upstream_transport =
  ut_server_name :: "string option"
  ut_insecure_skip_verify :: bool
  ut_ca_roots :: "string list"
  ut_mtls_cert_path :: "string option"
  ut_mtls_key_path :: "string option"

definition default_upstream_transport :: upstream_transport where
  "default_upstream_transport =
     \<lparr>ut_server_name = None, ut_insecure_skip_verify = False, ut_ca_roots = [],
      ut_mtls_cert_path = None, ut_mtls_key_path = None\<rparr>"

record upstream =
  up_url :: string
  up_weight :: u32
  up_healthy :: bool
  up_backup :: bool
  up_transport :: upstream_transport

definition default_weight :: u32 where "default_weight = 1"

definition new_upstream :: "string \<Rightarrow> upstream" where
  "new_upstream url =
     \<lparr>up_url = url, up_weight = default_weight, up_healthy = True, up_backup = False,
      up_transport = default_upstream_transport\<rparr>"

record path_route =
  pr_prefix :: string
  pr_upstreams :: "upstream list"
  pr_middlewares :: "string list"

section \<open>Locations\<close>

record geo_location =
  geo_country_code :: "string option"
  geo_country_name :: "string option"
  geo_continent_code :: "string option"
  geo_continent_name :: "string option"
  geo_region :: "string option"
  geo_city :: "string option"
  geo_source :: string

definition unknown_geo_source :: string where "unknown_geo_source = ''unknown''"

definition geo_unknown :: geo_location where
  "geo_unknown =
     \<lparr>geo_country_code = None, geo_country_name = None, geo_continent_code = None,
      geo_continent_name = None, geo_region = None, geo_city = None,
      geo_source = unknown_geo_source\<rparr>"

section \<open>Middleware configuration\<close>

definition default_auth_realm :: string where "default_auth_realm = ''Pxxl''"

record basic_auth_config =
  ba_enabled :: bool
  ba_realm :: string
  ba_users :: "(string, string) fmap"

definition default_basic_auth :: basic_auth_config where
  "default_basic_auth = \<lparr>ba_enabled = True, ba_realm = default_auth_realm, ba_users = fmempty\<rparr>"

record digest_auth_config =
  da_enabled :: bool
  da_realm :: string
  da_users :: "(string, string) fmap"

definition default_digest_auth :: digest_auth_config where
  "default_digest_auth = \<lparr>da_enabled = False, da_realm = default_auth_realm, da_users = fmempty\<rparr>"

record forward_auth_config =
  fa_enabled :: bool
  fa_url :: string
  fa_request_headers :: "string list"
  fa_response_headers :: "string list"

definition default_request_buffer_bytes :: u64 where
  "default_request_buffer_bytes = 16 * 1024 * 1024"

definition default_response_buffer_bytes :: u64 where
  "default_response_buffer_bytes = 32 * 1024 * 1024"

record buffering_config =
  buf_enabled :: bool
  buf_max_request_bytes :: u64
  buf_max_response_bytes :: u64

definition default_buffering :: buffering_config where
  "default_buffering =
     \<lparr>buf_enabled = False, buf_max_request_bytes = default_request_buffer_bytes,
      buf_max_response_bytes = default_response_buffer_bytes\<rparr>"

definition default_min_compress_bytes :: usize where "default_min_compress_bytes = 1024"

record compression_config =
  cmp_enabled :: bool
  cmp_min_bytes :: usize
  cmp_content_types :: "string list"

definition default_compression :: compression_config where
  "default_compression =
     \<lparr>cmp_enabled = False, cmp_min_bytes = default_min_compress_bytes, cmp_content_types = []\<rparr>"

record content_type_auto_detect_config =
  ctd_enabled :: bool

definition default_content_type_auto_detect :: content_type_auto_detect_config where
  "default_content_type_auto_detect = \<lparr>ctd_enabled = False\<rparr>"

definition default_retry_attempts :: u32 where "default_retry_attempts = 2"
definition default_retry_backoff_ms :: u64 where "default_retry_backoff_ms = 50"

record retry_config =
  re_enabled :: bool
  re_attempts :: u32
  re_backoff_ms :: u64
  re_retry_statuses :: "u16 list"

definition default_retry :: retry_config where
  "default_retry =
     \<lparr>re_enabled = False, re_attempts = default_retry_attempts,
      re_backoff_ms = default_retry_backoff_ms, re_retry_statuses = [502, 503, 504]\<rparr>"

definition default_circuit_failures :: u32 where "default_circuit_failures = 5"
definition default_circuit_open_seconds :: u64 where "default_circuit_open_seconds = 30"

record circuit_breaker_config =
  cb_enabled :: bool
  cb_failure_threshold :: u32
  cb_open_seconds :: u64

definition default_circuit_breaker :: circuit_breaker_config where
  "default_circuit_breaker =
     \<lparr>cb_enabled = False, cb_failure_threshold = default_circuit_failures,
      cb_open_seconds = default_circuit_open_seconds\<rparr>"

record in_flight_limit_config =
  ifl_enabled :: bool
  ifl_max :: "u32 option"
  ifl_scope :: in_flight_limit_scope

definition default_in_flight_limit :: in_flight_limit_config where
  "default_in_flight_limit = \<lparr>ifl_enabled = False, ifl_max = None, ifl_scope = ScopeRoute\<rparr>"

definition default_sticky_cookie_name :: string where
  "default_sticky_cookie_name = ''pxxl_upstream''"

record sticky_session_config =
  st_enabled :: bool
  st_cookie_name :: string
  st_http_only :: bool
  st_secure :: bool
  st_same_site :: "string option"
  st_max_age_seconds :: "u64 option"

definition default_sticky_session :: sticky_session_config where
  "default_sticky_session =
     \<lparr>st_enabled = False, st_cookie_name = default_sticky_cookie_name, st_http_only = True,
      st_secure = False, st_same_site = None, st_max_age_seconds = None\<rparr>"

definition default_passive_failure_threshold :: u32 where "default_passive_failure_threshold = 3"
definition default_passive_recovery_seconds :: u64 where "default_passive_recovery_seconds = 30"

record passive_health_config =
  ph_enabled :: bool
  ph_failure_threshold :: u32
  ph_recovery_seconds :: u64
  ph_failure_statuses :: "u16 list"

definition default_passive_health :: passive_health_config where
  "default_passive_health =
     \<lparr>ph_enabled = False, ph_failure_threshold = default_passive_failure_threshold,
      ph_recovery_seconds = default_passive_recovery_seconds,
      ph_failure_statuses = [500, 502, 503, 504]\<rparr>"

text \<open>
  The derived \<open>Default\<close> of \<open>TrafficMirrorConfig\<close> and \<open>ClientCertForwardingConfig\<close>
  uses the defaults of the field types (0 and the empty string), not the serde defaults
  (\<open>default_mirror_percent\<close>, \<open>default_client_cert_header\<close>) that a parsed config gets.
\<close>

record traffic_mirror_config =
  tm_enabled :: bool
  tm_upstreams :: "upstream list"
  tm_percent :: u8

definition default_mirror_percent :: u8 where "default_mirror_percent = 100"

definition default_traffic_mirror :: traffic_mirror_config where
  "default_traffic_mirror = \<lparr>tm_enabled = False, tm_upstreams = [], tm_percent = 0\<rparr>"

record client_cert_forwarding_config =
  ccf_enabled :: bool
  ccf_header_name :: string

definition default_client_cert_header :: string where
  "default_client_cert_header = ''x-forwarded-tls-client-cert''"

definition default_client_cert_forwarding :: client_cert_forwarding_config where
  "default_client_cert_forwarding = \<lparr>ccf_enabled = False, ccf_header_name = ''''\<rparr>"

record middleware_definition =
  mw_chain :: "string list"
  mw_basic_auth :: "basic_auth_config option"
  mw_digest_auth :: "digest_auth_config option"
  mw_forward_auth :: "forward_auth_config option"
  mw_request_buffering :: "buffering_config option"
  mw_response_buffering :: "buffering_config option"
  mw_compression :: "compression_config option"
  mw_content_type_autodetect :: "content_type_auto_detect_config option"
  mw_retry :: "retry_config option"
  mw_circuit_breaker :: "circuit_breaker_config option"
  mw_in_flight_limit :: "in_flight_limit_config option"
  mw_pass_tls_client_cert :: "client_cert_forwarding_config option"

definition default_middleware_definition :: middleware_definition where
  "default_middleware_definition =
     \<lparr>mw_chain = [], mw_basic_auth = None, mw_digest_auth = None, mw_forward_auth = None,
      mw_request_buffering = None, mw_response_buffering = None, mw_compression = None,
      mw_content_type_autodetect = None, mw_retry = None, mw_circuit_breaker = None,
      mw_in_flight_limit = None, mw_pass_tls_client_cert = None\<rparr>"

section \<open>Service, TLS and protocol options\<close>

record weighted_service_target =
  wst_service :: string
  wst_weight :: u32

record service_definition =
  sd_upstreams :: "upstream list"
  sd_weighted :: "weighted_service_target list"

record client_auth_config =
  ca_required :: bool
  ca_ca_roots :: "string list"

record router_tls_options =
  tls_min_version :: "string option"
  tls_cipher_suites :: "string list"
  tls_client_auth :: client_auth_config

definition default_router_tls :: router_tls_options where
  "default_router_tls =
     \<lparr>tls_min_version = None, tls_cipher_suites = [],
      tls_client_auth = \<lparr>ca_required = False, ca_ca_roots = []\<rparr>\<rparr>"

record acme_config =
  acme_enabled :: bool
  acme_email :: "string option"
  acme_directory_url :: "string option"
  acme_challenge :: acme_challenge
  acme_dns_provider :: "string option"
  acme_wildcard :: bool

definition default_acme :: acme_config where
  "default_acme =
     \<lparr>acme_enabled = False, acme_email = None, acme_directory_url = None,
      acme_challenge = Http01, acme_dns_provider = None, acme_wildcard = False\<rparr>"

record tcp_routing_config =
  tcp_enabled :: bool
  tcp_host_sni :: "string list"
  tcp_tls_passthrough :: bool

definition default_tcp_routing :: tcp_routing_config where
  "default_tcp_routing = \<lparr>tcp_enabled = False, tcp_host_sni = [], tcp_tls_passthrough = False\<rparr>"

record udp_routing_config =
  udp_enabled :: bool

definition default_udp_routing :: udp_routing_config where
  "default_udp_routing = \<lparr>udp_enabled = False\<rparr>"

record http3_config =
  h3_enabled :: bool

definition default_http3 :: http3_config where
  "default_http3 = \<lparr>h3_enabled = False\<rparr>"

section \<open>Domain rules\<close>

record location_route_rule =
  lr_name :: "string option"
  lr_countries :: "string list"
  lr_continents :: "string list"
  lr_upstreams :: "upstream list"

record traffic_split_rule =
  ts_name :: "string option"
  ts_weight :: u32
  ts_countries :: "string list"
  ts_continents :: "string list"
  ts_upstreams :: "upstream list"

record domain_waf_rules =
  waf_enabled :: bool
  waf_block_path_traversal :: bool
  waf_block_sql_injection :: bool
  waf_block_xss :: bool
  waf_block_bad_bots :: bool
  waf_blocked_user_agents :: "string list"
  waf_blocked_path_patterns :: "string list"
  waf_blocked_query_patterns :: "string list"

definition default_domain_waf :: domain_waf_rules where
  "default_domain_waf =
     \<lparr>waf_enabled = False, waf_block_path_traversal = True, waf_block_sql_injection = True,
      waf_block_xss = True, waf_block_bad_bots = False, waf_blocked_user_agents = [],
      waf_blocked_path_patterns = [], waf_blocked_query_patterns = []\<rparr>"

record required_header_rule =
  rh_name :: string
  rh_value :: "string option"

definition default_domain_rate_burst :: u32 where "default_domain_rate_burst = 240"
definition default_rate_limit_status_code :: u16 where "default_rate_limit_status_code = 429"

record domain_rate_limit =
  drl_enabled :: bool
  drl_requests_per_second :: "u32 option"
  drl_requests_per_minute :: "u32 option"
  drl_burst :: u32
  drl_scope :: rate_limit_scope
  drl_status_code :: u16
  drl_retry_after_seconds :: "u64 option"

definition default_domain_rate_limit :: domain_rate_limit where
  "default_domain_rate_limit =
     \<lparr>drl_enabled = True, drl_requests_per_second = None, drl_requests_per_minute = None,
      drl_burst = default_domain_rate_burst, drl_scope = PerIp,
      drl_status_code = default_rate_limit_status_code, drl_retry_after_seconds = None\<rparr>"

definition default_reset_day :: u8 where "default_reset_day = 1"

record bandwidth_limit =
  bl_enabled :: bool
  bl_max_bytes_per_month :: "u64 option"
  bl_max_bytes_per_day :: "u64 option"
  bl_reset_day_of_month :: u8
  bl_exceeded_error_page :: "string option"
  bl_exceeded_status_code :: "u16 option"

definition default_bandwidth_limit :: bandwidth_limit where
  "default_bandwidth_limit =
     \<lparr>bl_enabled = True, bl_max_bytes_per_month = None, bl_max_bytes_per_day = None,
      bl_reset_day_of_month = default_reset_day, bl_exceeded_error_page = None,
      bl_exceeded_status_code = Some 509\<rparr>"

end
