(* ===== verification/Common_Rules.thy ===== *)
theory Common_Rules
  imports Common_Types
begin

text \<open>
  \<open>DomainRules\<close>, \<open>Route\<close> and \<open>RouteMatch\<close> of \<open>edge/crates/common/src/lib.rs\<close>.
\<close>

section \<open>Per-domain rules\<close>

record domain_rules =
  dr_www_alias :: bool
  dr_redirect_www_to_apex :: bool
  dr_allow_websocket :: bool
  dr_require_https :: bool
  dr_redirect_http_to_https :: bool
  dr_allowed_methods :: "string list"
  dr_blocked_methods :: "string list"
  dr_allowed_headers :: "string list"
  dr_blocked_headers :: "string list"
  dr_required_headers :: "required_header_rule list"
  dr_strip_request_headers :: "string list"
  dr_add_request_headers :: "(string, string) fmap"
  dr_response_headers :: "(string, string) fmap"
  dr_ip_allowlist :: "ip_net list"
  dr_ip_blocklist :: "ip_net list"
  dr_country_allowlist :: "string list"
  dr_country_blocklist :: "string list"
  dr_continent_allowlist :: "string list"
  dr_continent_blocklist :: "string list"
  dr_location_routes :: "location_route_rule list"
  dr_traffic_splits :: "traffic_split_rule list"
  dr_waf :: domain_waf_rules
  dr_rate_limit :: "domain_rate_limit option"
  dr_max_body_bytes :: "u64 option"
  dr_max_uri_length :: "usize option"
  dr_allowed_content_types :: "string list"
  dr_maintenance_mode :: bool
  dr_maintenance_status_code :: "u16 option"
  dr_preserve_host_header :: bool
  dr_add_security_headers :: bool
  dr_cors_allowed_origins :: "string list"
  dr_cors_allow_credentials :: bool
  dr_cors_allowed_methods :: "string list"
  dr_cors_allowed_headers :: "string list"
  dr_cors_preflight_enabled :: bool
  dr_middlewares :: "(string, middleware_definition) fmap"
  dr_middleware_chains :: "(string, string list) fmap"
  dr_request_buffering :: buffering_config
  dr_response_buffering :: buffering_config
  dr_compression :: compression_config
  dr_content_type_autodetect :: content_type_auto_detect_config
  dr_retry :: retry_config
  dr_circuit_breaker :: circuit_breaker_config
  dr_in_flight_limit :: in_flight_limit_config
  dr_sticky_sessions :: sticky_session_config
  dr_passive_health :: passive_health_config
  dr_traffic_mirroring :: traffic_mirror_config
  dr_client_cert_forwarding :: client_cert_forwarding_config
  dr_services :: "(string, service_definition) fmap"
  dr_upstream_transport :: upstream_transport
  dr_tls_options :: router_tls_options
  dr_acme :: acme_config
  dr_tcp :: tcp_routing_config
  dr_udp :: udp_routing_config
  dr_http3 :: http3_config
  dr_bandwidth_limit :: "bandwidth_limit option"
  dr_proxy_mode :: proxy_mode

definition default_domain_rules :: domain_rules where
  "default_domain_rules =
     \<lparr>dr_www_alias = False, dr_redirect_www_to_apex = False, dr_allow_websocket = True,
      dr_require_https = False, dr_redirect_http_to_https = False,
      dr_allowed_methods = [], dr_blocked_methods = [], dr_allowed_headers = [],
      dr_blocked_headers = [], dr_required_headers = [], dr_strip_request_headers = [],
      dr_add_request_headers = fmempty, dr_response_headers = fmempty,
      dr_ip_allowlist = [], dr_ip_blocklist = [], dr_country_allowlist = [],
      dr_country_blocklist = [], dr_continent_allowlist = [], dr_continent_blocklist = [],
      dr_location_routes = [], dr_traffic_splits = [], dr_waf = default_domain_waf,
      dr_rate_limit = None, dr_max_body_bytes = None, dr_max_uri_length = None,
      dr_allowed_content_types = [], dr_maintenance_mode = False,
      dr_maintenance_status_code = None, dr_preserve_host_header = False,
      dr_add_security_headers = False, dr_cors_allowed_origins = [],
      dr_cors_allow_credentials = False, dr_cors_allowed_methods = [],
      dr_cors_allowed_headers = [], dr_cors_preflight_enabled = True,
      dr_middlewares = fmempty, dr_middleware_chains = fmempty,
      dr_request_buffering = default_buffering, dr_response_buffering = default_buffering,
      dr_compression = default_compression,
      dr_content_type_autodetect = default_content_type_auto_detect,
      dr_retry = default_retry, dr_circuit_breaker = default_circuit_breaker,
      dr_in_flight_limit = default_in_flight_limit,
      dr_sticky_sessions = default_sticky_session, dr_passive_health = default_passive_health,
      dr_traffic_mirroring = default_traffic_mirror,
      dr_client_cert_forwarding = default_client_cert_forwarding, dr_services = fmempty,
      dr_upstream_transport = default_upstream_transport, dr_tls_options = default_router_tls,
      dr_acme = default_acme, dr_tcp = default_tcp_routing, dr_udp = default_udp_routing,
      dr_http3 = default_http3, dr_bandwidth_limit = None, dr_proxy_mode = Direct\<rparr>"

section \<open>Routes\<close>

record route =
  rt_id :: string
  rt_domain :: string
  rt_paths :: "path_route list"
  rt_tls :: bool
  rt_algorithm :: load_balancing_algorithm
  rt_rules :: domain_rules
  rt_source :: route_source
  rt_route_version :: u64
  rt_created_at :: nat
  rt_updated_at :: nat

record route_match =
  rm_route :: route
  rm_path :: path_route

end
