(* ===== verification/Common_Names.thy ===== *)
theory Common_Names
  imports Common_Rules
begin

text \<open>
  Host names and request paths (\<open>edge/crates/common/src/lib.rs\<close>): normalisation, the
  canonical form of a request path, the tests that accept a domain or a path prefix, and
  the choice of the path route for a request. The second half proves what the canonical
  form excludes and when it is a fixed point.
\<close>

section \<open>Host names\<close>

definition quoted :: "string \<Rightarrow> string" where
  "quoted s = CHR 0x27 # s @ [CHR 0x27]"

definition host_without_port :: "string \<Rightarrow> string option" where
  "host_without_port host =
     (let trimmed = trim host in
      if trimmed = [] then None
      else if starts_with trimmed ''['' then
        Some (trim_start_matches CHR ''['' (hd (split_on CHR '']'' trimmed)))
      else Some (hd (split_on CHR '':'' trimmed)))"

definition normalize_domain :: "string \<Rightarrow> string" where
  "normalize_domain domain =
     to_ascii_lowercase (trim_end_matches CHR ''.''
       (case host_without_port domain of Some h \<Rightarrow> h | None \<Rightarrow> domain))"

section \<open>Path prefixes\<close>

definition normalize_path_prefix :: "string \<Rightarrow> string" where
  "normalize_path_prefix raw =
     (if trim raw = [] \<or> raw = ''/'' then ''/''
      else let with_slash = (if starts_with raw ''/'' then raw else ''/'' @ raw)
           in trim_end_matches CHR ''/'' with_slash)"

definition new_path_route :: "string \<Rightarrow> upstream list \<Rightarrow> path_route" where
  "new_path_route p ups =
     \<lparr>pr_prefix = normalize_path_prefix p, pr_upstreams = ups, pr_middlewares = []\<rparr>"

definition path_matches :: "path_route \<Rightarrow> string \<Rightarrow> bool" where
  "path_matches pr path \<longleftrightarrow>
     pr_prefix pr = ''/'' \<or> path = pr_prefix pr \<or>
     starts_with path (trim_end_matches CHR ''/'' (pr_prefix pr) @ ''/'')"

section \<open>The canonical form of a path\<close>

definition hex_value :: "char \<Rightarrow> nat option" where
  "hex_value c =
     (if is_ascii_digit c then Some (byte_of c - 48)
      else if 97 \<le> byte_of c \<and> byte_of c \<le> 102 then Some (byte_of c - 97 + 10)
      else if 65 \<le> byte_of c \<and> byte_of c \<le> 70 then Some (byte_of c - 65 + 10)
      else None)"

fun percent_decode_bytes :: "string \<Rightarrow> string option" where
  "percent_decode_bytes [] = Some []"
| "percent_decode_bytes (c # rest) =
     (if c = CHR ''%'' then
        (case rest of
           h # l # r \<Rightarrow>
             (case (hex_value h, hex_value l) of
                (Some high, Some low) \<Rightarrow>
                  map_option (\<lambda>s. char_of (high * 16 + low) # s) (percent_decode_bytes r)
              | _ \<Rightarrow> None)
         | _ \<Rightarrow> None)
      else map_option (\<lambda>s. c # s) (percent_decode_bytes rest))"

definition percent_decode_utf8 :: "string \<Rightarrow> string + string" where
  "percent_decode_utf8 input =
     (case percent_decode_bytes input of
        None \<Rightarrow> Inl ''invalid percent encoding''
      | Some output \<Rightarrow>
          if utf8_valid output then Inr output
          else Inl ''path percent-decoding produced invalid UTF-8'')"

text \<open>The loop \<open>for _ in 0..4\<close>: it stops as soon as a pass changes nothing.\<close>

fun decode_passes :: "nat \<Rightarrow> string \<Rightarrow> string + string" where
  "decode_passes 0 decoded = Inr decoded"
| "decode_passes (Suc n) decoded =
     res_bind (percent_decode_utf8 decoded)
       (\<lambda>next. if next = decoded then Inr next else decode_passes n next)"

definition is_control :: "char \<Rightarrow> bool" where
  "is_control c \<longleftrightarrow> byte_of c < 0x20 \<or> byte_of c = 0x7f"

definition push_segment :: "string list \<Rightarrow> string \<Rightarrow> string list" where
  "push_segment segs seg =
     (if seg = [] \<or> seg = ''.'' then segs
      else if seg = ''..'' then butlast segs
      else segs @ [seg])"

definition canonicalize_path :: "string \<Rightarrow> string + string" where
  "canonicalize_path path =
     (if path = [] then Inr ''/''
      else if \<not> starts_with path ''/'' then Inl (''path must start with '' @ quoted ''/'')
      else res_bind (decode_passes 4 path) (\<lambda>decoded.
        if list_ex is_control decoded then Inl ''path contains control characters''
        else
          (let decoded = replace_char CHR 0x5C ''/'' decoded;
               preserve_trailing_slash = ends_with decoded ''/'';
               segments = foldl push_segment [] (split_on CHR ''/'' decoded)
           in if segments = [] then Inr ''/''
              else if preserve_trailing_slash
                then Inr (''/'' @ join_with ''/'' segments @ ''/'')
              else Inr (''/'' @ join_with ''/'' segments))))"

definition canonicalize_request_path :: "string \<Rightarrow> pxxl_error + string" where
  "canonicalize_request_path path =
     (case canonicalize_path path of Inl e \<Rightarrow> Inl (InvalidPath e) | Inr p \<Rightarrow> Inr p)"

section \<open>Accepting domains and prefixes\<close>

definition validate_label :: "string \<Rightarrow> string + unit" where
  "validate_label label = run_checks
     [require (label \<noteq> [] \<and> length label \<le> 63) ''domain label is invalid'',
      require (\<not> (starts_with label ''-'' \<or> ends_with label ''-''))
        (''domain label cannot start or end with '' @ quoted ''-''),
      require (list_all (\<lambda>c. is_ascii_alphanumeric c \<or> c = CHR ''-'' \<or> c = CHR ''_'') label)
        ''domain label contains invalid characters'']"

definition validate_domain_name :: "string \<Rightarrow> string + unit" where
  "validate_domain_name domain =
     (let normalized = normalize_domain domain in run_checks
       [require (normalized \<noteq> []) ''domain is required'',
        require (length normalized \<le> 253) ''domain is too long'',
        require (\<not> list_ex (\<lambda>c. byte_of c \<le> 0x20 \<or> byte_of c = 0x7f \<or>
                             c = CHR ''/'' \<or> c = CHR 0x5C \<or> c = CHR ''@'') normalized)
          ''domain contains invalid characters'',
        require (\<not> (starts_with normalized ''.'' \<or> str_contains normalized ''..''))
          ''domain has empty labels'',
        for_each validate_label (split_on CHR ''.'' normalized)])"

definition validate_path_prefix :: "string \<Rightarrow> string + unit" where
  "validate_path_prefix p =
     (if p = [] \<or> \<not> starts_with p ''/'' then Inl (''path prefix must start with '' @ quoted ''/'')
      else res_bind (canonicalize_path p) (\<lambda>canonical.
        require (canonical = normalize_path_prefix p) ''path prefix must already be canonical''))"

section \<open>Routes\<close>

text \<open>The clock and the UUID generator are arguments.\<close>

definition new_route ::
    "nat \<Rightarrow> string \<Rightarrow> string \<Rightarrow> path_route list \<Rightarrow> route_source \<Rightarrow> route" where
  "new_route now uuid domain paths source =
     \<lparr>rt_id = uuid, rt_domain = normalize_domain domain,
      rt_paths = (if paths = [] then [new_path_route ''/'' []] else paths),
      rt_tls = True, rt_algorithm = RoundRobin, rt_rules = default_domain_rules,
      rt_source = source, rt_route_version = 0, rt_created_at = now, rt_updated_at = now\<rparr>"

definition with_id :: "string \<Rightarrow> route \<Rightarrow> route" where
  "with_id i r = r\<lparr>rt_id := i\<rparr>"

definition matches_host :: "route \<Rightarrow> string \<Rightarrow> bool" where
  "matches_host r host \<longleftrightarrow>
     (case host_without_port host of None \<Rightarrow> False
      | Some candidate \<Rightarrow> eq_ignore_ascii_case candidate (rt_domain r))"

definition best_path :: "route \<Rightarrow> string \<Rightarrow> path_route option" where
  "best_path r path =
     max_by_key (\<lambda>pr. length (pr_prefix pr)) (filter (\<lambda>pr. path_matches pr path) (rt_paths r))"

section \<open>The canonical form\<close>

text \<open>
  What a canonical path is: segments that are not empty, not dot segments and free of
  slashes, backslashes and control bytes, joined by single slashes after a leading one,
  with an optional trailing slash.
\<close>

definition safe_segment :: "string \<Rightarrow> bool" where
  "safe_segment s \<longleftrightarrow> s \<noteq> [] \<and> s \<noteq> ''.'' \<and> s \<noteq> ''..'' \<and>
     list_all (\<lambda>c. c \<noteq> CHR ''/'' \<and> c \<noteq> CHR 0x5C \<and> \<not> is_control c) s"

definition canonical_path :: "string \<Rightarrow> bool" where
  "canonical_path q \<longleftrightarrow> (\<exists>segs. list_all safe_segment segs \<and>
     (q = ''/'' @ join_with ''/'' segs \<or> segs \<noteq> [] \<and> q = ''/'' @ join_with ''/'' segs @ ''/''))"

subsection \<open>Percent decoding\<close>

lemma percent_decode_no_percent [simp]:
  "CHR ''%'' \<notin> set s \<Longrightarrow> percent_decode_bytes s = Some s"
  by (induction s) auto

lemma percent_decode_utf8_valid: "percent_decode_utf8 s = Inr t \<Longrightarrow> utf8_valid t"
  by (auto simp: percent_decode_utf8_def split: option.splits if_splits)

lemma percent_decode_head:
  "percent_decode_bytes (c # s) = Some t \<Longrightarrow> c \<noteq> CHR ''%'' \<Longrightarrow> t \<noteq> [] \<and> hd t = c"
  by auto

lemma decode_passes_head:
  "decode_passes n s = Inr t \<Longrightarrow> prefix ''/'' s \<Longrightarrow> prefix ''/'' t"
proof (induction n arbitrary: s)
  case 0
  then show ?case by simp
next
  case (Suc n)
  from Suc.prems obtain r u where s: "s = CHR ''/'' # r"
    and u: "percent_decode_utf8 s = Inr u"
    by (auto simp: prefix_def)
  then have "prefix ''/'' u"
    by (auto simp: percent_decode_utf8_def split: option.splits if_splits)
  with Suc u show ?case by (auto split: if_splits)
qed

lemma decode_passes_utf8: "decode_passes n s = Inr t \<Longrightarrow> utf8_valid s \<Longrightarrow> utf8_valid t"
  by (induction n arbitrary: s) (auto dest: percent_decode_utf8_valid split: if_splits)

lemma decode_passes_no_percent:
  "CHR ''%'' \<notin> set s \<Longrightarrow> utf8_valid s \<Longrightarrow> decode_passes n s = Inr s"
  by (cases n) (simp_all add: percent_decode_utf8_def)

subsection \<open>Segments\<close>

lemma push_segment_safe:
  "list_all safe_segment segs \<Longrightarrow> s = [] \<or> s = ''.'' \<or> s = ''..'' \<or> safe_segment s \<Longrightarrow>
   list_all safe_segment (push_segment segs s)"
  by (auto simp: push_segment_def list_all_iff dest: in_set_butlastD)

lemma foldl_push_safe:
  "list_all safe_segment segs \<Longrightarrow>
   \<forall>s\<in>set ss. s = [] \<or> s = ''.'' \<or> s = ''..'' \<or> safe_segment s \<Longrightarrow>
   list_all safe_segment (foldl push_segment segs ss)"
  by (induction ss arbitrary: segs) (auto simp: push_segment_safe)

lemma foldl_push_id:
  "list_all safe_segment ss \<Longrightarrow> foldl push_segment segs ss = segs @ ss"
  by (induction ss arbitrary: segs) (auto simp: push_segment_def safe_segment_def)

lemma foldl_push_Nils: "foldl push_segment segs ([] # ss) = foldl push_segment segs ss"
  "foldl push_segment segs (ss @ [[]]) = foldl push_segment segs ss"
  by (simp_all add: push_segment_def)

text \<open>The bytes that survive are bytes of the decoded path.\<close>

lemma split_segments_safe:
  assumes "\<not> list_ex is_control d" and "CHR 0x5C \<notin> set d" and "s \<in> set (split_on CHR ''/'' d)"
  shows "s = [] \<or> s = ''.'' \<or> s = ''..'' \<or> safe_segment s"
  using split_on_subset [OF assms(3)] split_on_pieces [OF assms(3)] assms(1,2)
  by (auto simp: safe_segment_def list_all_iff list_ex_iff)

lemma canonical_pathI:
  assumes "list_all safe_segment segs"
  shows "canonical_path (''/'' @ join_with ''/'' segs)"
    and "segs \<noteq> [] \<Longrightarrow> canonical_path (''/'' @ join_with ''/'' segs @ ''/'')"
  unfolding canonical_path_def using assms by blast+

lemma canonical_path_root: "canonical_path ''/''"
  using canonical_pathI(1) [of "[]"] by simp

lemma is_control_slash [simp]: "\<not> is_control CHR ''/''"
  by (simp add: is_control_def byte_of_def)

lemma canonicalize_path_canonical: "canonicalize_path p = Inr q \<Longrightarrow> canonical_path q"
proof -
  assume q: "canonicalize_path p = Inr q"
  show ?thesis
  proof (cases "p = []")
    case True
    with q canonical_path_root show ?thesis by (auto simp: canonicalize_path_def)
  next
    case False
    with q obtain d where d: "\<not> list_ex is_control d"
      and out: "let d' = replace_char CHR 0x5C ''/'' d;
                    segs = foldl push_segment [] (split_on CHR ''/'' d')
                in q = (if segs = [] then ''/''
                        else if suffix ''/'' d' then ''/'' @ join_with ''/'' segs @ ''/''
                        else ''/'' @ join_with ''/'' segs)"
      by (auto simp: canonicalize_path_def Let_def split: if_splits)
    let ?d = "replace_char CHR 0x5C ''/'' d"
    let ?segs = "foldl push_segment [] (split_on CHR ''/'' ?d)"
    have "\<not> list_ex is_control ?d"
      using d set_replace_char [of "CHR 0x5C" "''/''" d] by (auto simp: list_ex_iff)
    moreover have "CHR 0x5C \<notin> set ?d" by (rule replace_char_no_occ) simp
    ultimately have "list_all safe_segment ?segs"
      by (intro foldl_push_safe) (auto dest: split_segments_safe)
    with out canonical_pathI [of ?segs] canonical_path_root show ?thesis
      by (auto simp: Let_def split: if_splits)
  qed
qed


subsection \<open>Fixed points\<close>

lemma safe_segment_slash: "safe_segment s \<Longrightarrow> CHR ''/'' \<notin> set s"
  by (auto simp: safe_segment_def list_all_iff)

lemma safe_segment_bytes:
  "list_all safe_segment segs \<Longrightarrow> c \<in> set (join_with ''/'' segs) \<Longrightarrow>
   c = CHR ''/'' \<or> c \<noteq> CHR 0x5C \<and> \<not> is_control c"
  using set_join_with [of "CHR ''/''" segs] by (auto simp: safe_segment_def list_all_iff)

lemma join_not_suffix_slash:
  assumes "list_all safe_segment segs" and "segs \<noteq> []"
  shows "join_with ''/'' segs \<noteq> [] \<and> last (join_with ''/'' segs) \<noteq> CHR ''/''"
  using assms
proof (induction "''/''" segs rule: join_with.induct)
  case (2 x)
  then have "x \<noteq> []" "CHR ''/'' \<notin> set x" by (auto simp: safe_segment_def safe_segment_slash)
  then show ?case by (metis join_with.simps(2) last_in_set)
qed auto

lemma suffix_singleton: "suffix [c] s \<longleftrightarrow> s \<noteq> [] \<and> last s = c"
  by (cases s rule: rev_cases) (auto simp: suffix_def)

lemma split_on_safe_join:
  assumes "list_all safe_segment segs" and "segs \<noteq> []"
  shows "split_on CHR ''/'' (join_with ''/'' segs) = segs"
    and "split_on CHR ''/'' (join_with ''/'' segs @ ''/'') = segs @ [[]]"
proof -
  have ns: "\<forall>s\<in>set segs. CHR ''/'' \<notin> set s"
    using assms(1) by (auto simp: list_all_iff safe_segment_slash)
  then show "split_on CHR ''/'' (join_with ''/'' segs) = segs"
    using assms(2) by (rule split_on_join [rotated])
  show "split_on CHR ''/'' (join_with ''/'' segs @ ''/'') = segs @ [[]]"
    using split_on_join [of "segs @ [[]]" "CHR ''/''"] ns assms(2)
    by (auto simp: join_with_snoc)
qed

lemma canonicalize_path_undecoded:
  assumes "CHR ''%'' \<notin> set q" and "utf8_valid q" and "list_all safe_segment segs"
    and "q = ''/'' @ join_with ''/'' segs \<or> segs \<noteq> [] \<and> q = ''/'' @ join_with ''/'' segs @ ''/''"
  shows "canonicalize_path q = Inr q"
proof -
  have "q \<noteq> []" "prefix ''/'' q" using assms(4) by auto
  moreover have "decode_passes 4 q = Inr q"
    using assms(1,2) by (rule decode_passes_no_percent)
  moreover have "c = CHR ''/'' \<or> c \<noteq> CHR 0x5C \<and> \<not> is_control c" if "c \<in> set q" for c
    using that assms(4) safe_segment_bytes [OF assms(3), of c] by auto
  then have "\<not> list_ex is_control q" and bs: "CHR 0x5C \<notin> set q"
    by (fastforce simp: list_ex_iff)+
  moreover have "foldl push_segment [] (split_on CHR ''/'' q) = segs"
  proof (cases "segs = []")
    case True
    with assms(4) have "q = ''/''" by auto
    with True show ?thesis by (simp add: push_segment_def)
  next
    case False
    then have "split_on CHR ''/'' q = [] # segs \<or> split_on CHR ''/'' q = ([] # segs) @ [[]]"
      using assms(4) split_on_safe_join [OF assms(3)] by auto
    then show ?thesis
      using foldl_push_id [OF assms(3), of "[]"]
      by (elim disjE) (simp_all only: foldl_push_Nils append_Nil)
  qed
  ultimately have "canonicalize_path q = Inr (if segs = [] then ''/''
      else if suffix ''/'' q then ''/'' @ join_with ''/'' segs @ ''/''
      else ''/'' @ join_with ''/'' segs)"
    by (simp add: canonicalize_path_def Let_def)
  also have "\<dots> = Inr q"
    using assms(4) join_not_suffix_slash [OF assms(3)] by (auto simp: suffix_singleton)
  finally show ?thesis .
qed

lemma canonical_path_fixed:
  "canonical_path q \<Longrightarrow> CHR ''%'' \<notin> set q \<Longrightarrow> utf8_valid q \<Longrightarrow> canonicalize_path q = Inr q"
  unfolding canonical_path_def by (auto intro: canonicalize_path_undecoded)

subsection \<open>The canonical form is valid UTF-8\<close>

lemma byte_of_slash [simp]: "byte_of CHR ''/'' = 47" and byte_of_backslash [simp]: "byte_of CHR 0x5C = 92"
  by (simp_all add: byte_of_def)

lemma utf8_valid_join: "\<forall>s\<in>set ss. utf8_valid s \<Longrightarrow> utf8_valid (join_with ''/'' ss)"
  by (induction "''/''" ss rule: join_with.induct) (auto simp: utf8_valid_ascii_split)

lemma utf8_valid_split: "utf8_valid d \<Longrightarrow> s \<in> set (split_on CHR ''/'' d) \<Longrightarrow> utf8_valid s"
proof (induction d rule: measure_induct_rule [of length])
  case (less d)
  show ?case
  proof (cases "split_once CHR ''/'' d")
    case None
    with less.prems show ?thesis by (simp add: split_once_None)
  next
    case (Some ab)
    then obtain a b where d: "d = a @ CHR ''/'' # b" "CHR ''/'' \<notin> set a"
      by (cases ab) (auto simp: split_once_Some)
    with less.prems have "utf8_valid a" "utf8_valid b" "s = a \<or> s \<in> set (split_on CHR ''/'' b)"
      by (auto simp: utf8_valid_ascii_split split_on_append_sep)
    with less.IH [of b] d show ?thesis by auto
  qed
qed

lemma utf8_valid_push:
  "\<forall>s\<in>set segs. utf8_valid s \<Longrightarrow> \<forall>s\<in>set ss. utf8_valid s \<Longrightarrow>
   \<forall>s\<in>set (foldl push_segment segs ss). utf8_valid s"
proof (induction ss arbitrary: segs)
  case (Cons s ss)
  have "\<forall>t\<in>set (push_segment segs s). utf8_valid t"
    using Cons.prems by (auto simp: push_segment_def dest: in_set_butlastD)
  with Cons show ?case by simp
qed simp

lemma utf8_valid_unbackslash: "utf8_valid d \<Longrightarrow> utf8_valid (replace_char CHR 0x5C ''/'' d)"
  by (induction rule: utf8_valid.induct)
     (auto simp: replace_char_def intro: utf8_valid.intros dest: utf8_lead_ge)

lemma canonicalize_path_utf8:
  assumes "canonicalize_path p = Inr q" and "utf8_valid p"
  shows "utf8_valid q"
proof (cases "p = []")
  case True
  with assms(1) show ?thesis by (auto simp: canonicalize_path_def intro: utf8_one)
next
  case False
  with assms(1) obtain d where d: "decode_passes 4 p = Inr d"
    and q: "q \<in> (\<lambda>segs. ''/'' @ join_with ''/'' segs) `
      {foldl push_segment [] (split_on CHR ''/'' (replace_char CHR 0x5C ''/'' d)),
       foldl push_segment [] (split_on CHR ''/'' (replace_char CHR 0x5C ''/'' d)) @ [[]]}"
    by (fastforce simp: canonicalize_path_def Let_def join_with_snoc split: if_splits)
  let ?segs = "foldl push_segment [] (split_on CHR ''/'' (replace_char CHR 0x5C ''/'' d))"
  have "utf8_valid d" using d assms(2) by (rule decode_passes_utf8)
  then have "\<forall>s\<in>set ?segs. utf8_valid s"
    by (intro utf8_valid_push) (auto intro: utf8_valid_split utf8_valid_unbackslash)
  with q show ?thesis by (auto intro!: utf8_one utf8_valid_join)
qed

lemma canonical_path_safe:
  assumes "canonical_path q"
  shows "prefix ''/'' q \<and> ''.'' \<notin> set (split_on CHR ''/'' q) \<and>
    ''..'' \<notin> set (split_on CHR ''/'' q) \<and> [] \<notin> set (butlast (tl (split_on CHR ''/'' q))) \<and>
    CHR 0x5C \<notin> set q \<and> \<not> list_ex is_control q"
proof -
  from assms obtain segs where segs: "list_all safe_segment segs"
    and q: "q = ''/'' @ join_with ''/'' segs \<or> segs \<noteq> [] \<and> q = ''/'' @ join_with ''/'' segs @ ''/''"
    by (auto simp: canonical_path_def)
  have bytes: "c \<noteq> CHR 0x5C \<and> \<not> is_control c" if "c \<in> set q" for c
    using that q safe_segment_bytes [OF segs, of c] by auto
  have "split_on CHR ''/'' q = [] # (if segs = [] then [[]] else segs) \<or>
        split_on CHR ''/'' q = [] # segs @ [[]]"
    using q split_on_safe_join [OF segs] by (cases "segs = []") auto
  moreover have "s \<noteq> [] \<and> s \<noteq> ''.'' \<and> s \<noteq> ''..''" if "s \<in> set segs" for s
    using that segs by (auto simp: list_all_iff safe_segment_def)
  then have "''.'' \<notin> set segs" "''..'' \<notin> set segs" "[] \<notin> set segs" by blast+
  ultimately have "''.'' \<notin> set (split_on CHR ''/'' q)" "''..'' \<notin> set (split_on CHR ''/'' q)"
    "[] \<notin> set (butlast (tl (split_on CHR ''/'' q)))"
    by (auto simp: butlast_append split: if_splits dest: in_set_butlastD)
  then show ?thesis using q bytes by (auto simp: list_ex_iff)
qed

section \<open>Prefixes and segments\<close>

lemma split_on_append: "split_on c (s @ c # r) = split_on c s @ split_on c r"
  by (induction s) (auto split: list.splits)

lemma join_with_append:
  "xs \<noteq> [] \<Longrightarrow> ys \<noteq> [] \<Longrightarrow> join_with sep (xs @ ys) = join_with sep xs @ sep @ join_with sep ys"
  by (induction sep xs rule: join_with.induct) (auto simp: neq_Nil_conv)

lemma prefix_split_on:
  "prefix (split_on c s) (split_on c t) \<longleftrightarrow> t = s \<or> prefix (s @ [c]) t"
proof
  assume "prefix (split_on c s) (split_on c t)"
  then obtain zs where zs: "split_on c t = split_on c s @ zs" by (auto simp: prefix_def)
  have "t = join_with [c] (split_on c s @ zs)" by (metis join_split_on zs)
  then show "t = s \<or> prefix (s @ [c]) t"
    by (cases "zs = []") (auto simp: join_with_append)
next
  assume "t = s \<or> prefix (s @ [c]) t"
  then show "prefix (split_on c s) (split_on c t)"
    by (auto simp: prefix_def split_on_append)
qed

text \<open>The segments of a prefix; the root has the empty segment before its slash only.\<close>

definition prefix_segments :: "string \<Rightarrow> string list" where
  "prefix_segments p = split_on CHR ''/'' (trim_end_matches CHR ''/'' p)"

lemma path_matches_segments:
  assumes "pr_prefix pr = ''/'' \<or> (pr_prefix pr \<noteq> [] \<and> last (pr_prefix pr) \<noteq> CHR ''/'')"
    and "prefix ''/'' path"
  shows "path_matches pr path \<longleftrightarrow>
    prefix (prefix_segments (pr_prefix pr)) (split_on CHR ''/'' path)"
proof (cases "pr_prefix pr = ''/''")
  case True
  have "trim_end_matches CHR ''/'' ''/'' = []" by (simp add: trim_end_matches_def)
  then show ?thesis using True assms(2) by (auto simp: path_matches_def prefix_segments_def prefix_def)
next
  case False
  with assms(1) have "trim_end_matches CHR ''/'' (pr_prefix pr) = pr_prefix pr"
    by (intro trim_end_matches_id) auto
  with False show ?thesis by (auto simp: path_matches_def prefix_segments_def prefix_split_on)
qed

lemma length_prefix_segments:
  assumes "prefix (prefix_segments p) (prefix_segments q)"
    and "p = ''/'' \<or> (p \<noteq> [] \<and> last p \<noteq> CHR ''/'')" and "q = ''/'' \<or> (q \<noteq> [] \<and> last q \<noteq> CHR ''/'')"
    and "prefix ''/'' q" and "length q \<le> length p"
  shows "prefix_segments p = prefix_segments q"
proof -
  let ?t = "trim_end_matches CHR ''/''"
  have t: "?t ''/'' = []" "x \<noteq> [] \<and> last x \<noteq> CHR ''/'' \<Longrightarrow> ?t x = x" for x
    by (simp_all add: trim_end_matches_def trim_end_matches_id [unfolded trim_end_matches_def])
  from assms(1) have "?t q = ?t p \<or> prefix (?t p @ ''/'') (?t q)"
    by (simp add: prefix_segments_def prefix_split_on)
  then show ?thesis
  proof
    assume "prefix (?t p @ ''/'') (?t q)"
    then have "length (?t p) < length (?t q)" by (auto simp: prefix_def)
    moreover have "q = ''/'' \<or> 1 < length q" using assms(3,4) by (auto simp: prefix_def)
    ultimately have False using assms(2,3,5) t by (cases "p = ''/''"; cases "q = ''/''") auto
    then show ?thesis ..
  qed (simp add: prefix_segments_def)
qed

section \<open>What the validated prefixes are\<close>

lemma hex_value_slash [simp]: "hex_value CHR ''/'' = None"
  by (simp add: hex_value_def is_ascii_digit_def)

lemma percent_decode_last_slash:
  "percent_decode_bytes s = Some t \<Longrightarrow> s \<noteq> [] \<Longrightarrow> last s = CHR ''/'' \<Longrightarrow>
   t \<noteq> [] \<and> last t = CHR ''/''"
proof (induction s arbitrary: t rule: percent_decode_bytes.induct)
  case (2 c rest)
  show ?case
  proof (cases "c = CHR ''%''")
    case True
    with 2(3) obtain h l r hi lo u where r: "rest = h # l # r" "hex_value h = Some hi"
      "hex_value l = Some lo" "percent_decode_bytes r = Some u" "t = char_of (hi * 16 + lo) # u"
      by (auto split: list.splits option.splits)
    then have "r \<noteq> []" using 2(5) by auto
    with r 2(1) [OF True r(1)] 2(5) show ?thesis by auto
  next
    case False
    with 2(2) [OF False] 2(3-5) show ?thesis by (cases "rest = []") auto
  qed
qed simp

lemma decode_passes_last_slash:
  "decode_passes n s = Inr t \<Longrightarrow> s \<noteq> [] \<Longrightarrow> last s = CHR ''/'' \<Longrightarrow> t \<noteq> [] \<and> last t = CHR ''/''"
proof (induction n arbitrary: s)
  case (Suc n)
  then obtain u where u: "percent_decode_utf8 s = Inr u"
    "u = s \<and> t = u \<or> decode_passes n u = Inr t"
    by (auto split: if_splits)
  then have "u \<noteq> [] \<and> last u = CHR ''/''"
    using Suc.prems percent_decode_last_slash
    by (auto simp: percent_decode_utf8_def split: option.splits if_splits)
  with u Suc.IH show ?case by blast
qed simp

lemma graphic_slash [simp]: "graphic CHR ''/''"
  by (simp add: graphic_def)

lemma normalize_path_prefix_slash:
  assumes "prefix ''/'' p"
  shows "normalize_path_prefix p = (if p = ''/'' then p else trim_end_matches CHR ''/'' p)"
proof -
  have "CHR ''/'' \<in> set (trim p)"
    using assms by (intro trim_keeps_graphic) (auto simp: prefix_def)
  then have "trim p \<noteq> []" by auto
  with assms show ?thesis by (simp add: normalize_path_prefix_def)
qed

lemma canonicalize_last_slash:
  assumes "canonicalize_path p = Inr q" and "p \<noteq> []" and "last p = CHR ''/''"
  shows "q \<noteq> [] \<and> last q = CHR ''/''"
proof -
  from assms(1,2) obtain d where d: "decode_passes 4 p = Inr d"
    and q: "q = ''/'' \<or> suffix ''/'' q \<or> \<not> suffix ''/'' (replace_char CHR 0x5C ''/'' d)"
    by (auto simp: canonicalize_path_def Let_def suffix_singleton split: if_splits)
  from decode_passes_last_slash [OF d assms(2,3)]
  have "suffix ''/'' (replace_char CHR 0x5C ''/'' d)"
    by (cases d rule: rev_cases) (auto simp: replace_char_def suffix_singleton)
  with q show ?thesis by (auto simp: suffix_singleton)
qed

lemma canonicalize_starts: "canonicalize_path p = Inr q \<Longrightarrow> prefix ''/'' q"
  by (drule canonicalize_path_canonical) (auto simp: canonical_path_def)

lemma validate_path_prefix_normal:
  "validate_path_prefix p = Inr () \<longleftrightarrow>
   p \<noteq> [] \<and> canonicalize_path p = Inr p \<and> (p = ''/'' \<or> last p \<noteq> CHR ''/'')"
proof
  assume v: "validate_path_prefix p = Inr ()"
  then have p: "p \<noteq> []" "prefix ''/'' p"
    and c: "canonicalize_path p = Inr (normalize_path_prefix p)"
    by (auto simp: validate_path_prefix_def split: if_splits)
  show "p \<noteq> [] \<and> canonicalize_path p = Inr p \<and> (p = ''/'' \<or> last p \<noteq> CHR ''/'')"
  proof (cases "p = ''/'' \<or> last p \<noteq> CHR ''/''")
    case True
    with p c show ?thesis
      by (auto simp: normalize_path_prefix_slash trim_end_matches_id split: if_splits)
  next
    case False
    then have "normalize_path_prefix p = trim_end_matches CHR ''/'' p"
      using p by (simp add: normalize_path_prefix_slash)
    with canonicalize_last_slash [OF c p(1)] False trim_end_matches_last [of "CHR ''/''" p]
    show ?thesis by auto
  qed
next
  assume p: "p \<noteq> [] \<and> canonicalize_path p = Inr p \<and> (p = ''/'' \<or> last p \<noteq> CHR ''/'')"
  then have "prefix ''/'' p" by (auto dest: canonicalize_starts)
  with p show "validate_path_prefix p = Inr ()"
    by (auto simp: validate_path_prefix_def normalize_path_prefix_slash trim_end_matches_id)
qed

section \<open>Domains\<close>

lemma validate_label_bytes:
  "validate_label l = Inr u \<Longrightarrow> c \<in> set l \<Longrightarrow>
   is_ascii_alphanumeric c \<or> c = CHR ''-'' \<or> c = CHR ''_''"
  by (auto simp: validate_label_def list_all_iff)

lemma validate_domain_bytes:
  assumes "validate_domain_name d = Inr u" and "c \<in> set (normalize_domain d)"
  shows "is_ascii_alphanumeric c \<or> c = CHR ''-'' \<or> c = CHR ''_'' \<or> c = CHR ''.''"
proof (cases "c = CHR ''.''")
  case False
  have "c \<in> set (join_with ''.'' (split_on CHR ''.'' (normalize_domain d)))"
    using assms(2) by simp
  then obtain l where "l \<in> set (split_on CHR ''.'' (normalize_domain d))" "c \<in> set l"
    using set_join_with [of "CHR ''.''"] False by blast
  with assms(1) show ?thesis
    by (auto simp: validate_domain_name_def Let_def dest!: validate_label_bytes)
qed simp

lemma domain_byte_graphic:
  "is_ascii_alphanumeric c \<or> c = CHR ''-'' \<or> c = CHR ''_'' \<or> c = CHR ''.'' \<Longrightarrow>
   graphic c \<and> c \<noteq> CHR '':'' \<and> c \<noteq> CHR ''[''"
  by (auto simp: graphic_def is_ascii_alphanumeric_def is_ascii_alphabetic_def is_ascii_upper_def
      is_ascii_lower_def is_ascii_digit_def byte_of_def)

definition domain_byte :: "char \<Rightarrow> bool" where
  "domain_byte c \<longleftrightarrow> is_ascii_alphanumeric c \<or> c = CHR ''-'' \<or> c = CHR ''_'' \<or> c = CHR ''.''"

lemma domain_byte_lower: "domain_byte (ascii_lower c) \<Longrightarrow> domain_byte c"
  by (cases "is_ascii_upper c")
     (auto simp: domain_byte_def is_ascii_alphanumeric_def is_ascii_alphabetic_def ascii_lower_id)

lemma host_without_port_plain:
  assumes "h \<noteq> []" and "\<forall>c\<in>set h. domain_byte c" and "\<forall>c\<in>set ps. is_ascii_digit c"
  shows "host_without_port (h @ CHR '':'' # ps) = Some h" and "host_without_port h = Some h"
proof -
  have g: "graphic c \<and> c \<noteq> CHR '':'' \<and> c \<noteq> CHR ''[''" if "c \<in> set h" for c
    using that assms(2) domain_byte_graphic by (auto simp: domain_byte_def)
  have dig: "graphic c" if "c \<in> set ps" for c
    using that assms(3) by (auto simp: is_ascii_digit_def graphic_def)
  have "graphic (last (h @ CHR '':'' # ps))"
    using dig last_in_set [of ps] by (cases "ps = []") (auto simp: graphic_def byte_of_def)
  moreover have "graphic (hd h)" and first: "hd h \<noteq> CHR ''[''" using g assms(1) by auto
  moreover have "graphic (last h)" using g last_in_set [OF assms(1)] by blast
  ultimately have t: "trim (h @ CHR '':'' # ps) = h @ CHR '':'' # ps" "trim h = h"
    using assms(1) by (auto intro!: trim_graphic)
  have "CHR '':'' \<notin> set h" using g by blast
  then have "split_on CHR '':'' (h @ CHR '':'' # ps) = h # split_on CHR '':'' ps"
    "split_on CHR '':'' h = [h]"
    by (simp_all add: split_on_append_sep)
  moreover have "\<not> prefix ''['' (h @ CHR '':'' # ps)" "\<not> prefix ''['' h"
    using first assms(1) by (cases h; simp)+
  ultimately show "host_without_port (h @ CHR '':'' # ps) = Some h"
    and "host_without_port h = Some h"
    using t assms(1) by (simp_all add: host_without_port_def Let_def)
qed

lemma trim_end_matches_replicate:
  "trim_end_matches c (s @ replicate n c) = trim_end_matches c s"
proof (induction n)
  case (Suc n)
  have "s @ replicate (Suc n) c = (s @ replicate n c) @ [c]" by (simp add: replicate_append_same)
  then show ?case using Suc by (metis trim_end_matches_snoc)
qed simp

lemma normalize_domain_last: "normalize_domain d \<noteq> [] \<Longrightarrow> last (normalize_domain d) \<noteq> CHR ''.''"
proof -
  let ?t = "trim_end_matches CHR ''.'' (case host_without_port d of Some h \<Rightarrow> h | None \<Rightarrow> d)"
  assume "normalize_domain d \<noteq> []"
  then have ne: "?t \<noteq> []" by (simp add: normalize_domain_def)
  then have "last (normalize_domain d) = ascii_lower (last ?t)"
    by (simp add: normalize_domain_def to_ascii_lowercase_def last_map)
  moreover have "last ?t \<noteq> CHR ''.''" using ne by (rule trim_end_matches_last)
  moreover have "\<not> is_ascii_alphabetic CHR ''.''"
    by (simp add: is_ascii_alphabetic_def is_ascii_upper_def is_ascii_lower_def byte_of_def)
  ultimately show ?thesis by (simp add: ascii_lower_eq_non_letter)
qed

lemma normalize_domain_spelling:
  assumes "h \<noteq> []" and "\<forall>c\<in>set h. domain_byte c" and "last h \<noteq> CHR ''.''"
    and "\<forall>c\<in>set ps. is_ascii_digit c"
  shows "normalize_domain (h @ replicate n CHR ''.'' @ CHR '':'' # ps) = to_ascii_lowercase h"
    and "normalize_domain (h @ replicate n CHR ''.'') = to_ascii_lowercase h"
proof -
  let ?h = "h @ replicate n CHR ''.''"
  have "?h \<noteq> []" "\<forall>c\<in>set ?h. domain_byte c" using assms(1,2) by (auto simp: domain_byte_def)
  note host = host_without_port_plain [OF this assms(4)]
  have "trim_end_matches CHR ''.'' ?h = h"
    using assms(3) by (simp add: trim_end_matches_replicate trim_end_matches_id)
  with host show "normalize_domain (h @ replicate n CHR ''.'' @ CHR '':'' # ps) = to_ascii_lowercase h"
    and "normalize_domain ?h = to_ascii_lowercase h"
    by (simp_all add: normalize_domain_def)
qed

lemma valid_domain_spelling:
  assumes "validate_domain_name d = Inr ()" and "to_ascii_lowercase h = normalize_domain d"
  shows "h \<noteq> [] \<and> (\<forall>c\<in>set h. domain_byte c) \<and> last h \<noteq> CHR ''.''"
proof -
  have ne: "normalize_domain d \<noteq> []"
    using assms(1) by (auto simp: validate_domain_name_def Let_def)
  then have h: "h \<noteq> []" using assms(2) by auto
  have "domain_byte c" if "c \<in> set h" for c
    using that validate_domain_bytes [OF assms(1), of "ascii_lower c"] assms(2) [symmetric]
    by (auto simp: domain_byte_def [symmetric] to_ascii_lowercase_def intro: domain_byte_lower)
  moreover have "last (to_ascii_lowercase h) = ascii_lower (last h)"
    using h by (simp add: to_ascii_lowercase_def last_map)
  then have "last h \<noteq> CHR ''.''"
    using normalize_domain_last [OF ne] assms(2)
    by (auto simp: ascii_lower_def is_ascii_upper_def byte_of_def)
  ultimately show ?thesis using h by blast
qed

section \<open>Properties\<close>

text \<open>
  C1. A path that \<open>canonicalize_path\<close> returns is safe to route on: it starts with a slash,
  has no dot segment and no empty segment except possibly the last, and contains no
  backslash and no control byte, however the request spelled it.
\<close>

theorem canonicalize_path_safe:
  assumes "canonicalize_path p = Inr q"
  shows "prefix ''/'' q \<and> ''.'' \<notin> set (split_on CHR ''/'' q) \<and>
    ''..'' \<notin> set (split_on CHR ''/'' q) \<and> [] \<notin> set (butlast (tl (split_on CHR ''/'' q))) \<and>
    CHR 0x5C \<notin> set q \<and> \<not> list_ex is_control q"
  using canonicalize_path_canonical [OF assms] by (rule canonical_path_safe)

theorem canonicalize_path_safe_witness:
  "canonicalize_path ''/a/%2e%2e/b%5Cc//d/'' = Inr ''/b/c/d/'' \<and>
   ''..'' \<notin> set (split_on CHR ''/'' ''/b/c/d/'')"
proof -
  have c: "canonicalize_path ''/a/%2e%2e/b%5Cc//d/'' = Inr ''/b/c/d/''" by code_simp
  from canonicalize_path_safe [OF this] c show ?thesis by blast
qed

text \<open>
  Canonicalisation is idempotent on the paths it fully decodes: when the result has no
  percent sign left, running it again changes nothing.
\<close>

theorem canonicalize_path_idempotent:
  assumes "canonicalize_path p = Inr q" and "utf8_valid p" and "CHR ''%'' \<notin> set q"
  shows "canonicalize_path q = Inr q"
  using canonicalize_path_canonical [OF assms(1)] assms(3) canonicalize_path_utf8 [OF assms(1,2)]
  by (rule canonical_path_fixed)

theorem canonicalize_path_idempotent_witness:
  "canonicalize_path ''/a/%2e%2e/b/'' = Inr ''/b/'' \<and> canonicalize_path ''/b/'' = Inr ''/b/''"
proof -
  have c: "canonicalize_path ''/a/%2e%2e/b/'' = Inr ''/b/''" by code_simp
  have "utf8_valid ''/a/%2e%2e/b/''" "CHR ''%'' \<notin> set ''/b/''" by code_simp+
  from c canonicalize_path_idempotent [OF c this] show ?thesis by blast
qed

text \<open>
  \<open>validate_path_prefix\<close> accepts exactly the non-empty prefixes that are their own
  canonical form and, the root apart, do not end in a slash.
\<close>

theorem validate_path_prefix_iff:
  "validate_path_prefix p = Inr () \<longleftrightarrow>
   p \<noteq> [] \<and> canonicalize_path p = Inr p \<and> (p = ''/'' \<or> last p \<noteq> CHR ''/'')"
  by (rule validate_path_prefix_normal)

theorem validate_path_prefix_iff_witness:
  "validate_path_prefix ''/api'' = Inr () \<and> canonicalize_path ''/api'' = Inr ''/api''"
proof -
  have "canonicalize_path ''/api'' = Inr ''/api''" by code_simp
  moreover have "last ''/api'' \<noteq> CHR ''/''" by simp
  ultimately show ?thesis using validate_path_prefix_iff [of "''/api''"] by simp
qed

text \<open>
  \<open>best_path\<close> picks the most specific route: for a route whose prefixes are validated, the
  chosen path matches the request and every other matching prefix is, segment by segment, a
  prefix of the chosen one; it finds nothing only when no prefix matches.
\<close>

theorem best_path_most_specific:
  assumes "\<forall>pr\<in>set (rt_paths r). validate_path_prefix (pr_prefix pr) = Inr ()"
    and "prefix ''/'' path"
  shows "(best_path r path = None \<longleftrightarrow> (\<forall>pr\<in>set (rt_paths r). \<not> path_matches pr path)) \<and>
    (\<forall>p. best_path r path = Some p \<longrightarrow>
       p \<in> set (rt_paths r) \<and> path_matches p path \<and>
       (\<forall>q\<in>set (rt_paths r). path_matches q path \<longrightarrow>
          prefix (prefix_segments (pr_prefix q)) (prefix_segments (pr_prefix p))))"
proof (intro conjI allI impI ballI)
  show "best_path r path = None \<longleftrightarrow> (\<forall>pr\<in>set (rt_paths r). \<not> path_matches pr path)"
    by (auto simp: best_path_def filter_empty_conv)
next
  fix p assume p: "best_path r path = Some p"
  then show mem: "p \<in> set (rt_paths r)" and mat: "path_matches p path"
    by (auto simp: best_path_def dest: max_by_key_in_set)
  fix q assume q: "q \<in> set (rt_paths r)" "path_matches q path"
  with p have len: "length (pr_prefix q) \<le> length (pr_prefix p)"
    unfolding best_path_def by (auto dest: max_by_key_ge)
  have normal: "pr_prefix x = ''/'' \<or> (pr_prefix x \<noteq> [] \<and> last (pr_prefix x) \<noteq> CHR ''/'')"
    "prefix ''/'' (pr_prefix x)" if "x \<in> set (rt_paths r)" for x
    using assms(1) that by (auto simp: validate_path_prefix_normal dest: canonicalize_starts)
  have "prefix (prefix_segments (pr_prefix x)) (split_on CHR ''/'' path)"
    if "x \<in> set (rt_paths r)" "path_matches x path" for x
    using path_matches_segments [OF normal(1) assms(2)] that by blast
  with q mem mat consider "prefix (prefix_segments (pr_prefix q)) (prefix_segments (pr_prefix p))"
    | "prefix (prefix_segments (pr_prefix p)) (prefix_segments (pr_prefix q))"
    by (meson prefix_same_cases)
  then show "prefix (prefix_segments (pr_prefix q)) (prefix_segments (pr_prefix p))"
  proof cases
    case 2
    with length_prefix_segments [OF 2] normal q(1) mem len show ?thesis by simp
  qed
qed

theorem best_path_most_specific_witness:
  "let r = new_route 0 ''id'' ''a.com''
         [new_path_route ''/'' [], new_path_route ''/api'' [], new_path_route ''/api/v2'' []] Api
   in best_path r ''/api/v2/users'' = Some (new_path_route ''/api/v2'' []) \<and>
      prefix (prefix_segments ''/api'') (prefix_segments ''/api/v2'')"
proof -
  let ?r = "new_route 0 ''id'' ''a.com''
         [new_path_route ''/'' [], new_path_route ''/api'' [], new_path_route ''/api/v2'' []] Api"
  have paths: "rt_paths ?r =
      [new_path_route ''/'' [], new_path_route ''/api'' [], new_path_route ''/api/v2'' []]"
    by (simp add: new_route_def)
  have val: "\<forall>pr\<in>set (rt_paths ?r). validate_path_prefix (pr_prefix pr) = Inr ()"
    unfolding paths by code_simp
  have best: "best_path ?r ''/api/v2/users'' = Some (new_path_route ''/api/v2'' [])"
    by code_simp
  have "prefix ''/'' ''/api/v2/users''" "path_matches (new_path_route ''/api'' []) ''/api/v2/users''"
    "pr_prefix (new_path_route ''/api'' []) = ''/api''"
    "pr_prefix (new_path_route ''/api/v2'' []) = ''/api/v2''"
    by code_simp+
  with best_path_most_specific [OF val, of "''/api/v2/users''"] best
  have "prefix (prefix_segments ''/api'') (prefix_segments ''/api/v2'')"
    by (auto simp: paths)
  with best show ?thesis by simp
qed

text \<open>
  Every spelling of a host reaches the same route: for a valid domain, any letter case,
  any number of trailing dots and any decimal port normalise to the domain's own
  normal form, and the normal form is a fixed point.
\<close>

theorem host_spellings_normalize:
  assumes "validate_domain_name d = Inr ()" and "to_ascii_lowercase h = normalize_domain d"
    and "\<forall>c\<in>set port. is_ascii_digit c"
  shows "normalize_domain (h @ replicate n CHR ''.'') = normalize_domain d \<and>
    normalize_domain (h @ replicate n CHR ''.'' @ CHR '':'' # port) = normalize_domain d \<and>
    normalize_domain (normalize_domain d) = normalize_domain d"
proof -
  note h = valid_domain_spelling [OF assms(1,2)]
  have "to_ascii_lowercase (normalize_domain d) = normalize_domain d"
    by (simp add: normalize_domain_def)
  note n = valid_domain_spelling [OF assms(1) this]
  show ?thesis
    using normalize_domain_spelling [of h port n] normalize_domain_spelling(2) [of "normalize_domain d" "[]" 0]
      h n assms(2,3) by (auto simp: normalize_domain_def)
qed

theorem host_spellings_normalize_witness:
  "normalize_domain ''WWW.Example.COM.:8443'' = ''www.example.com''"
proof -
  have "validate_domain_name ''www.example.com'' = Inr ()"
    "to_ascii_lowercase ''WWW.Example.COM'' = normalize_domain ''www.example.com''"
    "\<forall>c\<in>set ''8443''. is_ascii_digit c"
    "normalize_domain ''www.example.com'' = ''www.example.com''"
    by code_simp+
  with host_spellings_normalize [OF this(1-3), of 1] show ?thesis by simp
qed


end
