(* ===== verification/Adaptive_Block.thy ===== *)
theory Adaptive_Block
  imports Rate_Limit Common_Names
begin

text \<open>
  Adaptive blocking of addresses (\<open>edge/crates/ddos/src/lib.rs\<close>):
  traffic windows per address, the thresholds that put an address on the watchlist or block
  it, expiry, eviction and the snapshot files. The environment of a
  call gives the wall clock, the monotonic clock and whether writing a file succeeds; the
  state holds what the two snapshot files contain. The order in which a \<open>HashSet\<close> yields its
  elements is not specified: sets are kept in insertion order, and only the samples shown to
  operators depend on it.
\<close>

section \<open>Definitions\<close>

record adaptive_block_config =
  ac_enabled :: bool
  ac_window_seconds :: u64
  ac_block_seconds :: u64
  ac_request_threshold :: u64
  ac_domain_threshold :: usize
  ac_high_request_threshold :: u64
  ac_high_request_domain_threshold :: usize
  ac_suspicious_path_threshold :: u64
  ac_suspicious_path_domain_threshold :: usize
  ac_watchlist_suspicious_path_threshold :: u64
  ac_watchlist_suspicious_path_domain_threshold :: usize
  ac_watchlist_ttl_seconds :: u64
  ac_failure_threshold :: u64
  ac_failure_domain_threshold :: usize
  ac_max_tracked_ips :: usize
  ac_bucket_seconds :: u64
  ac_snapshot_path :: string
  ac_watchlist_snapshot_path :: string
  ac_exempt_cidrs :: "ip_net list"
  ac_suspicious_path_prefixes :: "string list"

definition default_exempt_cidrs :: "ip_net list" where
  "default_exempt_cidrs =
     [V4Net (v4_of_octets 127 0 0 0) 8, V6Net 1 128, V4Net (v4_of_octets 10 88 0 0) 24]"

definition default_adaptive_block_config :: adaptive_block_config where
  "default_adaptive_block_config =
     \<lparr>ac_enabled = True, ac_window_seconds = 300, ac_block_seconds = 1800,
      ac_request_threshold = 300, ac_domain_threshold = 25, ac_high_request_threshold = 1200,
      ac_high_request_domain_threshold = 8, ac_suspicious_path_threshold = 25,
      ac_suspicious_path_domain_threshold = 5, ac_watchlist_suspicious_path_threshold = 5,
      ac_watchlist_suspicious_path_domain_threshold = 3, ac_watchlist_ttl_seconds = 86400,
      ac_failure_threshold = 200, ac_failure_domain_threshold = 15,
      ac_max_tracked_ips = 100000, ac_bucket_seconds = 10,
      ac_snapshot_path = ''/data/security/auto-blocks.json'',
      ac_watchlist_snapshot_path = ''/data/security/watchlist.json'',
      ac_exempt_cidrs = default_exempt_cidrs, ac_suspicious_path_prefixes = []\<rparr>"

record request_observation_input =
  oi_ip :: ip_addr
  oi_domain :: string
  oi_path :: string
  oi_status :: u16
  oi_timestamp_unix_ms :: u64

record adaptive_block_snapshot =
  bs_ip :: ip_addr
  bs_reason :: string
  bs_blocked_at_unix_ms :: u64
  bs_expires_at_unix_ms :: u64
  bs_requests :: u64
  bs_domains :: usize
  bs_failures :: u64
  bs_failure_domains :: usize
  bs_suspicious_paths :: u64
  bs_suspicious_domains :: usize
  bs_sample_domains :: "string list"

record suspicious_ip_watchlist_entry =
  we_ip :: ip_addr
  we_reason :: string
  we_first_seen_unix_ms :: u64
  we_last_seen_unix_ms :: u64
  we_expires_at_unix_ms :: u64
  we_requests :: u64
  we_domains :: usize
  we_failures :: u64
  we_failure_domains :: usize
  we_suspicious_paths :: u64
  we_suspicious_domains :: usize
  we_sample_domains :: "string list"
  we_sample_paths :: "string list"

record traffic_bucket =
  tk_start_ms :: u64
  tk_requests :: u64
  tk_failures :: u64
  tk_suspicious_paths :: u64
  tk_domains :: "string list"
  tk_failure_domains :: "string list"
  tk_suspicious_domains :: "string list"
  tk_suspicious_path_samples :: "string list"

definition empty_bucket :: "u64 \<Rightarrow> traffic_bucket" where
  "empty_bucket start =
     \<lparr>tk_start_ms = start, tk_requests = 0, tk_failures = 0, tk_suspicious_paths = 0,
      tk_domains = [], tk_failure_domains = [], tk_suspicious_domains = [],
      tk_suspicious_path_samples = []\<rparr>"

record ip_window =
  iw_buckets :: "traffic_bucket list"
  iw_last_seen_ms :: u64

definition default_ip_window :: ip_window where
  "default_ip_window = \<lparr>iw_buckets = [], iw_last_seen_ms = 0\<rparr>"

record window_totals =
  wt_requests :: u64
  wt_domains :: usize
  wt_failures :: u64
  wt_failure_domains :: usize
  wt_suspicious_paths :: u64
  wt_suspicious_domains :: usize
  wt_sample_domains :: "string list"
  wt_sample_paths :: "string list"

record adaptive_blocker =
  ab_config :: adaptive_block_config
  ab_windows :: "(ip_addr, ip_window) hmap"
  ab_blocks :: "(ip_addr, adaptive_block_snapshot) hmap"
  ab_watchlist :: "(ip_addr, suspicious_ip_watchlist_entry) hmap"
  ab_last_eviction :: instant
  ab_last_snapshot :: instant
  ab_blocks_file :: "adaptive_block_snapshot list"
  ab_watchlist_file :: "suspicious_ip_watchlist_entry list"

record environ =
  en_now_ms :: u64
  en_now :: instant
  en_io_ok :: bool

type_synonym net_contains = "ip_net \<Rightarrow> ip_addr \<Rightarrow> bool"

definition ADAPTIVE_BLOCK_REASON :: string where "ADAPTIVE_BLOCK_REASON = ''adaptive_ip_block''"

subsection \<open>Windows\<close>

definition trim_buckets :: "u64 \<Rightarrow> ip_window \<Rightarrow> ip_window" where
  "trim_buckets oldest w = w\<lparr>iw_buckets := dropWhile (\<lambda>b. tk_start_ms b < oldest) (iw_buckets w)\<rparr>"

definition union_all :: "string list list \<Rightarrow> string list" where
  "union_all xss = fold (fold List.insert) xss []"

definition window_totals_of :: "ip_window \<Rightarrow> window_totals" where
  "window_totals_of w =
     (let bs = iw_buckets w;
          domains = union_all (map tk_domains bs);
          failure_domains = union_all (map tk_failure_domains bs);
          suspicious_domains = union_all (map tk_suspicious_domains bs);
          samples = union_all (map tk_suspicious_path_samples bs)
      in \<lparr>wt_requests = sum_list (map tk_requests bs), wt_domains = of_nat (length domains),
          wt_failures = sum_list (map tk_failures bs),
          wt_failure_domains = of_nat (length failure_domains),
          wt_suspicious_paths = sum_list (map tk_suspicious_paths bs),
          wt_suspicious_domains = of_nat (length suspicious_domains),
          wt_sample_domains = sort (take 8 domains), wt_sample_paths = sort (take 8 samples)\<rparr>)"

definition normalize_domain_for_tracking :: "string \<Rightarrow> string" where
  "normalize_domain_for_tracking d = to_ascii_lowercase (trim_end_matches CHR ''.'' (trim d))"

text \<open>\<open>chars().take(n)\<close> on UTF-8: continuation bytes belong to the character before them.\<close>

fun take_chars :: "nat \<Rightarrow> string \<Rightarrow> string" where
  "take_chars n [] = []"
| "take_chars n (c # cs) =
     (if is_cont c then c # take_chars n cs
      else case n of 0 \<Rightarrow> [] | Suc m \<Rightarrow> c # take_chars m cs)"

definition normalize_path_for_tracking :: "string \<Rightarrow> string" where
  "normalize_path_for_tracking path =
     (let v = trim path in
      if v = [] then ''/''
      else let without_query = hd (split_on CHR ''?'' v);
               normalized = (if starts_with without_query ''/'' then without_query
                             else ''/'' @ without_query)
           in take_chars 160 normalized)"

definition SUSPICIOUS_PREFIXES :: "string list" where
  "SUSPICIOUS_PREFIXES =
     [''/.env'', ''/.git/'', ''/api/.git/'', ''/wp-admin/install.php'', ''/wp-cron.php'',
      ''/xmlrpc.php'', ''/admin.php'', ''/shell.php'', ''/cmd.php'', ''/wso.php'', ''/c99.php'',
      ''/r57.php'', ''/wp-content/plugins/'', ''/wp-content/uploads/'', ''/vendor/phpunit/'']"

definition is_suspicious_path :: "string \<Rightarrow> string list \<Rightarrow> bool" where
  "is_suspicious_path path configured =
     (let path = to_ascii_lowercase path in
      list_ex (\<lambda>p. starts_with path p) SUSPICIOUS_PREFIXES \<or>
      list_ex (\<lambda>p. starts_with path (to_ascii_lowercase p)) configured)"

definition is_exempt :: "net_contains \<Rightarrow> ip_addr \<Rightarrow> adaptive_blocker \<Rightarrow> bool" where
  "is_exempt contains ip ab = list_ex (\<lambda>n. contains n ip) (ac_exempt_cidrs (ab_config ab))"

subsection \<open>Snapshot files\<close>

definition persist_snapshot :: "environ \<Rightarrow> adaptive_blocker \<Rightarrow> adaptive_blocker" where
  "persist_snapshot env ab =
     (if en_io_ok env
      then ab\<lparr>ab_blocks_file :=
             filter (\<lambda>b. en_now_ms env < bs_expires_at_unix_ms b) (map snd (ab_blocks ab))\<rparr>
      else ab)"

definition persist_watchlist_snapshot :: "environ \<Rightarrow> adaptive_blocker \<Rightarrow> adaptive_blocker" where
  "persist_watchlist_snapshot env ab =
     (if en_io_ok env
      then ab\<lparr>ab_watchlist_file :=
             filter (\<lambda>w. en_now_ms env < we_expires_at_unix_ms w) (map snd (ab_watchlist ab))\<rparr>
      else ab)"

definition load_snapshot ::
    "net_contains \<Rightarrow> environ \<Rightarrow> adaptive_block_snapshot list \<Rightarrow> adaptive_blocker \<Rightarrow> adaptive_blocker" where
  "load_snapshot contains env file ab =
     foldl (\<lambda>ab b. if en_now_ms env < bs_expires_at_unix_ms b \<and> \<not> is_exempt contains (bs_ip b) ab
                   then ab\<lparr>ab_blocks := hm_insert (bs_ip b) b (ab_blocks ab)\<rparr> else ab) ab file"

definition load_watchlist_snapshot ::
    "net_contains \<Rightarrow> environ \<Rightarrow> suspicious_ip_watchlist_entry list \<Rightarrow> adaptive_blocker \<Rightarrow> adaptive_blocker" where
  "load_watchlist_snapshot contains env file ab =
     foldl (\<lambda>ab w. if en_now_ms env < we_expires_at_unix_ms w \<and> \<not> is_exempt contains (we_ip w) ab
                   then ab\<lparr>ab_watchlist := hm_insert (we_ip w) w (ab_watchlist ab)\<rparr> else ab) ab file"

text \<open>\<open>AdaptiveBlocker::new\<close> on the contents of the two files.\<close>

definition new_adaptive_blocker ::
    "net_contains \<Rightarrow> environ \<Rightarrow> adaptive_block_config \<Rightarrow> adaptive_block_snapshot list \<Rightarrow>
     suspicious_ip_watchlist_entry list \<Rightarrow> adaptive_blocker" where
  "new_adaptive_blocker contains env config blocks_file watchlist_file =
     load_watchlist_snapshot contains env watchlist_file
       (load_snapshot contains env blocks_file
         \<lparr>ab_config = config, ab_windows = [], ab_blocks = [], ab_watchlist = [],
          ab_last_eviction = en_now env, ab_last_snapshot = en_now env,
          ab_blocks_file = blocks_file, ab_watchlist_file = watchlist_file\<rparr>)"

subsection \<open>Checking and eviction\<close>

definition adaptive_check ::
    "net_contains \<Rightarrow> environ \<Rightarrow> ip_addr \<Rightarrow> adaptive_blocker \<Rightarrow>
     security_decision option \<times> adaptive_blocker" where
  "adaptive_check contains env ip ab =
     (if \<not> ac_enabled (ab_config ab) then (None, ab)
      else if is_exempt contains ip ab then (None, ab)
      else case hm_get (ab_blocks ab) ip of
        None \<Rightarrow> (None, ab)
      | Some b \<Rightarrow>
          if en_now_ms env < bs_expires_at_unix_ms b
          then (Some (Blocked ADAPTIVE_BLOCK_REASON), ab)
          else (None, persist_snapshot env (ab\<lparr>ab_blocks := hm_remove ip (ab_blocks ab)\<rparr>)))"

definition adaptive_evict_stale :: "u64 \<Rightarrow> adaptive_blocker \<Rightarrow> adaptive_blocker" where
  "adaptive_evict_stale now_ms ab =
     (let stale_after_ms = (max (ac_window_seconds (ab_config ab)) 1 + 300) * 1000
      in ab\<lparr>ab_windows := hm_retain (\<lambda>_ w. sat_sub now_ms (iw_last_seen_ms w) \<le> stale_after_ms)
              (ab_windows ab)\<rparr>)"

definition adaptive_evict_if_due :: "environ \<Rightarrow> u64 \<Rightarrow> adaptive_blocker \<Rightarrow> adaptive_blocker" where
  "adaptive_evict_if_due env now_ms ab =
     (if en_now env - ab_last_eviction ab < from_secs 30 then ab
      else
        (let ab = adaptive_evict_stale now_ms (ab\<lparr>ab_last_eviction := en_now env\<rparr>)
         in ab\<lparr>ab_blocks := hm_retain (\<lambda>_ b. now_ms < bs_expires_at_unix_ms b) (ab_blocks ab),
               ab_watchlist := hm_retain (\<lambda>_ w. now_ms < we_expires_at_unix_ms w)
                 (ab_watchlist ab)\<rparr>))"

definition persist_if_due :: "environ \<Rightarrow> adaptive_blocker \<Rightarrow> adaptive_blocker" where
  "persist_if_due env ab =
     (if en_now env - ab_last_snapshot ab < from_secs 30 then ab
      else persist_watchlist_snapshot env
             (persist_snapshot env (ab\<lparr>ab_last_snapshot := en_now env\<rparr>)))"

subsection \<open>Recording a request\<close>

definition trigger_reason :: "adaptive_block_config \<Rightarrow> window_totals \<Rightarrow> string option" where
  "trigger_reason c t =
     (if ac_request_threshold c \<le> wt_requests t \<and> ac_domain_threshold c \<le> wt_domains t
      then Some ''cross_domain_request_volume''
      else if ac_high_request_threshold c \<le> wt_requests t \<and>
              ac_high_request_domain_threshold c \<le> wt_domains t
      then Some ''high_request_volume''
      else if ac_suspicious_path_threshold c \<le> wt_suspicious_paths t \<and>
              ac_suspicious_path_domain_threshold c \<le> wt_suspicious_domains t
      then Some ''suspicious_path_scanner''
      else if ac_failure_threshold c \<le> wt_failures t \<and>
              ac_failure_domain_threshold c \<le> wt_failure_domains t
      then Some ''cross_domain_failures''
      else None)"

definition should_watch :: "adaptive_block_config \<Rightarrow> window_totals \<Rightarrow> bool" where
  "should_watch c t \<longleftrightarrow>
     ac_watchlist_suspicious_path_threshold c \<le> wt_suspicious_paths t \<and>
     ac_watchlist_suspicious_path_domain_threshold c \<le> wt_suspicious_domains t"

definition watch_ip ::
    "environ \<Rightarrow> ip_addr \<Rightarrow> string \<Rightarrow> window_totals \<Rightarrow> u64 \<Rightarrow> adaptive_blocker \<Rightarrow> adaptive_blocker" where
  "watch_ip env ip reason t now_ms ab =
     (let first_seen = (case hm_get (ab_watchlist ab) ip of
                          None \<Rightarrow> now_ms | Some w \<Rightarrow> we_first_seen_unix_ms w);
          w = \<lparr>we_ip = ip, we_reason = reason, we_first_seen_unix_ms = first_seen,
               we_last_seen_unix_ms = now_ms,
               we_expires_at_unix_ms = now_ms + max (ac_watchlist_ttl_seconds (ab_config ab)) 60 * 1000,
               we_requests = wt_requests t, we_domains = wt_domains t,
               we_failures = wt_failures t, we_failure_domains = wt_failure_domains t,
               we_suspicious_paths = wt_suspicious_paths t,
               we_suspicious_domains = wt_suspicious_domains t,
               we_sample_domains = wt_sample_domains t, we_sample_paths = wt_sample_paths t\<rparr>;
          is_new = (\<not> hm_contains (ab_watchlist ab) ip);
          ab = ab\<lparr>ab_watchlist := hm_insert ip w (ab_watchlist ab)\<rparr>
      in if is_new then persist_watchlist_snapshot env ab else ab)"

definition block_ip ::
    "environ \<Rightarrow> ip_addr \<Rightarrow> string \<Rightarrow> window_totals \<Rightarrow> u64 \<Rightarrow> adaptive_blocker \<Rightarrow>
     adaptive_block_snapshot \<times> adaptive_blocker" where
  "block_ip env ip reason t now_ms ab =
     (let b = \<lparr>bs_ip = ip, bs_reason = reason, bs_blocked_at_unix_ms = now_ms,
               bs_expires_at_unix_ms = now_ms + max (ac_block_seconds (ab_config ab)) 1 * 1000,
               bs_requests = wt_requests t, bs_domains = wt_domains t,
               bs_failures = wt_failures t, bs_failure_domains = wt_failure_domains t,
               bs_suspicious_paths = wt_suspicious_paths t,
               bs_suspicious_domains = wt_suspicious_domains t,
               bs_sample_domains = wt_sample_domains t\<rparr>
      in (b, persist_snapshot env (ab\<lparr>ab_blocks := hm_insert ip b (ab_blocks ab)\<rparr>)))"

definition count_in_bucket :: "string \<Rightarrow> string \<Rightarrow> bool \<Rightarrow> bool \<Rightarrow> traffic_bucket \<Rightarrow> traffic_bucket" where
  "count_in_bucket domain path failed suspicious b =
     (let b = b\<lparr>tk_requests := tk_requests b + 1, tk_domains := List.insert domain (tk_domains b)\<rparr>;
          b = (if failed then b\<lparr>tk_failures := tk_failures b + 1,
                 tk_failure_domains := List.insert domain (tk_failure_domains b)\<rparr> else b)
      in if suspicious
         then b\<lparr>tk_suspicious_paths := tk_suspicious_paths b + 1,
                tk_suspicious_domains := List.insert domain (tk_suspicious_domains b),
                tk_suspicious_path_samples :=
                  List.insert (normalize_path_for_tracking path) (tk_suspicious_path_samples b)\<rparr>
         else b)"

text \<open>The bucket of the interval, the first one with its start, or a new one at the back.\<close>

fun update_bucket :: "u64 \<Rightarrow> (traffic_bucket \<Rightarrow> traffic_bucket) \<Rightarrow> traffic_bucket list \<Rightarrow> traffic_bucket list" where
  "update_bucket start f [] = [f (empty_bucket start)]"
| "update_bucket start f (b # bs) =
     (if tk_start_ms b = start then f b # bs else b # update_bucket start f bs)"

definition observe_window ::
    "adaptive_block_config \<Rightarrow> request_observation_input \<Rightarrow> ip_window \<Rightarrow> ip_window" where
  "observe_window c e w =
     (let bucket_seconds = max (ac_bucket_seconds c) 1;
          bucket_ms = bucket_seconds * 1000;
          bucket_start = oi_timestamp_unix_ms e div bucket_ms * bucket_ms;
          window_ms = max (ac_window_seconds c) bucket_seconds * 1000;
          oldest_allowed = sat_sub (oi_timestamp_unix_ms e) window_ms;
          domain = normalize_domain_for_tracking (oi_domain e);
          suspicious = is_suspicious_path (oi_path e) (ac_suspicious_path_prefixes c);
          failed = (400 \<le> oi_status e);
          w = trim_buckets oldest_allowed (w\<lparr>iw_last_seen_ms := oi_timestamp_unix_ms e\<rparr>)
      in w\<lparr>iw_buckets := update_bucket bucket_start
             (count_in_bucket domain (oi_path e) failed suspicious) (iw_buckets w)\<rparr>)"

definition windows_full :: "ip_addr \<Rightarrow> adaptive_blocker \<Rightarrow> bool" where
  "windows_full ip ab \<longleftrightarrow>
     unat (ac_max_tracked_ips (ab_config ab)) \<le> length (ab_windows ab) \<and>
     \<not> hm_contains (ab_windows ab) ip"

definition track_request ::
    "environ \<Rightarrow> request_observation_input \<Rightarrow> adaptive_blocker \<Rightarrow>
     adaptive_block_snapshot option \<times> adaptive_blocker" where
  "track_request env e ab =
     (let w = observe_window (ab_config ab) e (hm_get_or (ab_windows ab) (oi_ip e) default_ip_window);
          ab = ab\<lparr>ab_windows := hm_insert (oi_ip e) w (ab_windows ab)\<rparr>;
          totals = window_totals_of w;
          ab = (if should_watch (ab_config ab) totals
                then watch_ip env (oi_ip e) ''suspicious_path_watch'' totals (oi_timestamp_unix_ms e) ab
                else ab)
      in case trigger_reason (ab_config ab) totals of
           None \<Rightarrow> (None, ab)
         | Some reason \<Rightarrow>
             let (b, ab) = block_ip env (oi_ip e) reason totals (oi_timestamp_unix_ms e) ab
             in (Some b, ab))"

definition adaptive_record ::
    "net_contains \<Rightarrow> environ \<Rightarrow> request_observation_input \<Rightarrow> adaptive_blocker \<Rightarrow>
     adaptive_block_snapshot option \<times> adaptive_blocker" where
  "adaptive_record contains env e ab =
     (if \<not> ac_enabled (ab_config ab) \<or> is_exempt contains (oi_ip e) ab then (None, ab)
      else
        (let ab = persist_if_due env (adaptive_evict_if_due env (oi_timestamp_unix_ms e) ab);
             (blocked, ab) = adaptive_check contains env (oi_ip e) ab
         in if blocked \<noteq> None then (None, ab)
            else
              (let ab = (if windows_full (oi_ip e) ab
                         then adaptive_evict_stale (oi_timestamp_unix_ms e) ab else ab)
               in if windows_full (oi_ip e) ab then (None, ab)
                  else track_request env e ab)))"

definition unblock :: "environ \<Rightarrow> ip_addr \<Rightarrow> adaptive_blocker \<Rightarrow> bool \<times> adaptive_blocker" where
  "unblock env ip ab =
     (if hm_contains (ab_blocks ab) ip
      then (True, persist_snapshot env (ab\<lparr>ab_blocks := hm_remove ip (ab_blocks ab)\<rparr>))
      else (False, ab))"

definition unwatch :: "environ \<Rightarrow> ip_addr \<Rightarrow> adaptive_blocker \<Rightarrow> bool \<times> adaptive_blocker" where
  "unwatch env ip ab =
     (if hm_contains (ab_watchlist ab) ip
      then (True, persist_watchlist_snapshot env
                    (ab\<lparr>ab_watchlist := hm_remove ip (ab_watchlist ab)\<rparr>))
      else (False, ab))"

definition active_blocks :: "environ \<Rightarrow> adaptive_blocker \<Rightarrow> adaptive_block_snapshot list" where
  "active_blocks env ab =
     filter (\<lambda>b. en_now_ms env < bs_expires_at_unix_ms b) (map snd (ab_blocks ab))"

definition active_block_count :: "adaptive_blocker \<Rightarrow> nat" where
  "active_block_count ab = length (ab_blocks ab)"

definition watchlist :: "environ \<Rightarrow> adaptive_blocker \<Rightarrow> suspicious_ip_watchlist_entry list" where
  "watchlist env ab =
     filter (\<lambda>w. en_now_ms env < we_expires_at_unix_ms w) (map snd (ab_watchlist ab))"

definition watchlist_count :: "adaptive_blocker \<Rightarrow> nat" where
  "watchlist_count ab = length (ab_watchlist ab)"

definition observed_ip_count :: "adaptive_blocker \<Rightarrow> nat" where
  "observed_ip_count ab = length (ab_windows ab)"

end
