(* ===== verification/Adaptive_Window.thy ===== *)
theory Adaptive_Window
  imports Adaptive_Block
begin

text \<open>
  The traffic window of an address against the log of its requests. The code keeps one
  bucket of counters per interval and drops buckets that are too old; the specification
  keeps the requests themselves and counts those whose interval starts inside the window.
\<close>

section \<open>Definitions\<close>

definition bucket_start_of :: "adaptive_block_config \<Rightarrow> request_observation_input \<Rightarrow> u64" where
  "bucket_start_of c e =
     (let bucket_ms = max (ac_bucket_seconds c) 1 * 1000
      in oi_timestamp_unix_ms e div bucket_ms * bucket_ms)"

definition window_floor :: "adaptive_block_config \<Rightarrow> request_observation_input \<Rightarrow> u64" where
  "window_floor c e =
     sat_sub (oi_timestamp_unix_ms e) (max (ac_window_seconds c) (max (ac_bucket_seconds c) 1) * 1000)"

definition tracked_domain :: "request_observation_input \<Rightarrow> string" where
  "tracked_domain e = normalize_domain_for_tracking (oi_domain e)"

definition failed_request :: "request_observation_input \<Rightarrow> bool" where
  "failed_request e \<longleftrightarrow> 400 \<le> oi_status e"

definition suspicious_request :: "adaptive_block_config \<Rightarrow> request_observation_input \<Rightarrow> bool" where
  "suspicious_request c e \<longleftrightarrow> is_suspicious_path (oi_path e) (ac_suspicious_path_prefixes c)"

text \<open>The part of the log that the window still covers at its last request.\<close>

definition recent_requests ::
    "adaptive_block_config \<Rightarrow> request_observation_input list \<Rightarrow> request_observation_input list" where
  "recent_requests c es = filter (\<lambda>e. window_floor c (last es) \<le> bucket_start_of c e) es"

definition count_event ::
    "adaptive_block_config \<Rightarrow> request_observation_input \<Rightarrow> traffic_bucket \<Rightarrow> traffic_bucket" where
  "count_event c e = count_in_bucket (tracked_domain e) (oi_path e) (failed_request e) (suspicious_request c e)"

definition log_bucket :: "adaptive_block_config \<Rightarrow> request_observation_input list \<Rightarrow> u64 \<Rightarrow> traffic_bucket" where
  "log_bucket c es s = fold (count_event c) (filter (\<lambda>e. bucket_start_of c e = s) es) (empty_bucket s)"

definition log_buckets :: "adaptive_block_config \<Rightarrow> request_observation_input list \<Rightarrow> traffic_bucket list" where
  "log_buckets c es = map (log_bucket c es) (sorted_list_of_set (bucket_start_of c ` set es))"

section \<open>Buckets hold the counts of their requests\<close>

lemma count_event_fields:
  "tk_start_ms (count_event c e b) = tk_start_ms b"
  "tk_requests (count_event c e b) = tk_requests b + 1"
  "tk_failures (count_event c e b) = tk_failures b + of_bool (failed_request e)"
  "tk_suspicious_paths (count_event c e b) = tk_suspicious_paths b + of_bool (suspicious_request c e)"
  "set (tk_domains (count_event c e b)) = insert (tracked_domain e) (set (tk_domains b))"
  "set (tk_failure_domains (count_event c e b)) =
     (if failed_request e then {tracked_domain e} else {}) \<union> set (tk_failure_domains b)"
  "set (tk_suspicious_domains (count_event c e b)) =
     (if suspicious_request c e then {tracked_domain e} else {}) \<union> set (tk_suspicious_domains b)"
  by (simp_all add: count_event_def count_in_bucket_def Let_def)

lemma fold_count_fields:
  "tk_start_ms (fold (count_event c) es b) = tk_start_ms b"
  "tk_requests (fold (count_event c) es b) = tk_requests b + of_nat (length es)"
  "tk_failures (fold (count_event c) es b) = tk_failures b + of_nat (length (filter failed_request es))"
  "tk_suspicious_paths (fold (count_event c) es b) =
     tk_suspicious_paths b + of_nat (length (filter (suspicious_request c) es))"
  "set (tk_domains (fold (count_event c) es b)) = tracked_domain ` set es \<union> set (tk_domains b)"
  "set (tk_failure_domains (fold (count_event c) es b)) =
     tracked_domain ` set (filter failed_request es) \<union> set (tk_failure_domains b)"
  "set (tk_suspicious_domains (fold (count_event c) es b)) =
     tracked_domain ` set (filter (suspicious_request c) es) \<union> set (tk_suspicious_domains b)"
  by (induction es arbitrary: b; auto simp: count_event_fields)+

lemma start_log_bucket [simp]: "tk_start_ms (log_bucket c es s) = s"
  by (simp add: log_bucket_def fold_count_fields empty_bucket_def)

lemma log_bucket_snoc:
  "log_bucket c (es @ [e]) s =
     (if bucket_start_of c e = s then count_event c e (log_bucket c es s) else log_bucket c es s)"
  by (simp add: log_bucket_def)

lemma log_bucket_empty: "s \<notin> bucket_start_of c ` set es \<Longrightarrow> log_bucket c es s = empty_bucket s"
proof -
  assume "s \<notin> bucket_start_of c ` set es"
  then have "filter (\<lambda>e. bucket_start_of c e = s) es = []" by (auto simp: filter_empty_conv)
  then show ?thesis by (simp add: log_bucket_def)
qed

section \<open>Observing a request on the log\<close>

lemma update_bucket_map:
  assumes "distinct ss" and "\<And>s. tk_start_ms (g s) = s"
  shows "update_bucket s0 f (map g ss) =
    (if s0 \<in> set ss then map (g(s0 := f (g s0))) ss else map g ss @ [f (empty_bucket s0)])"
  using assms by (induction ss) (auto simp: map_fun_upd)

lemma sorted_list_of_set_insert_greatest:
  fixes s :: "'a::linorder"
  assumes "finite S" and "\<forall>x\<in>S. x < s"
  shows "sorted_list_of_set (insert s S) = sorted_list_of_set S @ [s]"
proof -
  have "sorted (sorted_list_of_set S @ [s])" "distinct (sorted_list_of_set S @ [s])"
    "set (sorted_list_of_set S @ [s]) = insert s S"
    using assms by (auto simp: sorted_append less_imp_le)
  then show ?thesis using sorted_list_of_set.idem_if_sorted_distinct by metis
qed

lemma dropWhile_sorted_filter:
  "sorted xs \<Longrightarrow> dropWhile (\<lambda>x. x < k) xs = filter (\<lambda>x. k \<le> x) xs"
  for k :: "'a::linorder"
  by (induction xs) (auto simp: not_less intro!: filter_True [symmetric] intro: order_trans)

lemma update_log_buckets:
  assumes "\<forall>x\<in>set es. bucket_start_of c x \<le> bucket_start_of c e"
  shows "update_bucket (bucket_start_of c e) (count_event c e) (log_buckets c es) = log_buckets c (es @ [e])"
proof -
  let ?S = "bucket_start_of c ` set es" and ?s = "bucket_start_of c e"
  have upd: "log_bucket c (es @ [e]) = (log_bucket c es)(?s := count_event c e (log_bucket c es ?s))"
    by (auto simp: log_bucket_snoc)
  show ?thesis
  proof (cases "?s \<in> ?S")
    case True
    then have "insert ?s ?S = ?S" by blast
    with True show ?thesis by (simp add: log_buckets_def update_bucket_map upd)
  next
    case False
    with assms have "\<forall>x\<in>?S. x < ?s" by (auto simp: order.strict_iff_order dest: sym)
    then have "sorted_list_of_set (insert ?s ?S) = sorted_list_of_set ?S @ [?s]"
      by (intro sorted_list_of_set_insert_greatest) auto
    with False show ?thesis
      by (simp add: log_buckets_def update_bucket_map upd log_bucket_empty map_fun_upd)
  qed
qed

lemma trim_log_buckets:
  "dropWhile (\<lambda>b. tk_start_ms b < k) (log_buckets c es) =
   log_buckets c (filter (\<lambda>e. k \<le> bucket_start_of c e) es)"
proof -
  let ?S = "bucket_start_of c ` set es"
  have "sorted_list_of_set {s \<in> ?S. k \<le> s} = filter (\<lambda>s. k \<le> s) (sorted_list_of_set ?S)"
    by (rule sorted_list_of_set.idem_if_sorted_distinct [of "filter (\<lambda>s. k \<le> s) (sorted_list_of_set ?S)", simplified])
      (simp add: sorted_filter [of "\<lambda>x. x", simplified])
  moreover have "{s \<in> ?S. k \<le> s} = bucket_start_of c ` {e \<in> set es. k \<le> bucket_start_of c e}" by blast
  moreover have "log_bucket c (filter (\<lambda>e. k \<le> bucket_start_of c e) es) s = log_bucket c es s" if "k \<le> s" for s
    using that by (auto simp: log_bucket_def intro!: arg_cong2 [where f = "\<lambda>es. fold (count_event c) es"] filter_cong)
  ultimately show ?thesis
    by (simp add: log_buckets_def dropWhile_map comp_def dropWhile_sorted_filter)
qed

lemma observe_log:
  assumes "iw_buckets w = log_buckets c es"
    and "\<forall>x\<in>set es. bucket_start_of c x \<le> bucket_start_of c e"
  shows "iw_buckets (observe_window c e w) =
    log_buckets c (filter (\<lambda>x. window_floor c e \<le> bucket_start_of c x) es @ [e])"
proof -
  have "iw_buckets (observe_window c e w) = update_bucket (bucket_start_of c e) (count_event c e)
      (dropWhile (\<lambda>b. tk_start_ms b < window_floor c e) (iw_buckets w))"
    by (simp add: observe_window_def trim_buckets_def Let_def bucket_start_of_def window_floor_def
        count_event_def tracked_domain_def failed_request_def suspicious_request_def)
  then show ?thesis using assms(2)
    by (simp add: assms(1) trim_log_buckets update_log_buckets)
qed

lemma unat_bucket_start:
  "unat (bucket_start_of c e) =
     unat (oi_timestamp_unix_ms e) div unat (max (ac_bucket_seconds c) 1 * 1000) *
     unat (max (ac_bucket_seconds c) 1 * 1000)"
proof -
  have "unat (t div b * b) = unat t div unat b * unat b" for t b :: u64
  proof -
    have "unat t div unat b * unat b \<le> unat t" by (rule div_times_less_eq_dividend)
    then have "unat t div unat b * unat b < 2 ^ 64" using unat_bound [of t] by (simp del: div_times_less_eq_dividend)
    moreover have "unat (t div b) = unat t div unat b" by (rule unat_div)
    ultimately show ?thesis by (simp add: unat_word_ariths(2))
  qed
  then show ?thesis by (simp add: bucket_start_of_def Let_def)
qed

lemma bucket_start_mono:
  "oi_timestamp_unix_ms a \<le> oi_timestamp_unix_ms b \<Longrightarrow> bucket_start_of c a \<le> bucket_start_of c b"
  by (simp add: word_le_nat_alt unat_bucket_start div_le_mono)

lemma window_floor_mono:
  "oi_timestamp_unix_ms a \<le> oi_timestamp_unix_ms b \<Longrightarrow> window_floor c a \<le> window_floor c b"
  by (simp add: word_le_nat_alt unat_sat_sub window_floor_def diff_le_mono)

lemma window_covers_request:
  assumes "unat (max (ac_window_seconds c) (max (ac_bucket_seconds c) 1)) * 1000 < 2 ^ 64"
  shows "window_floor c e \<le> bucket_start_of c e"
proof -
  let ?b = "max (ac_bucket_seconds c) 1" and ?w = "max (ac_window_seconds c) (max (ac_bucket_seconds c) 1)"
  let ?t = "unat (oi_timestamp_unix_ms e)"
  have le: "unat ?b \<le> unat ?w" by (simp add: word_le_nat_alt [symmetric])
  have b: "unat (?b * 1000) = unat ?b * 1000" and w: "unat (?w * 1000) = unat ?w * 1000"
    using assms le by (simp_all add: unat_word_ariths)
  have "0 < unat ?b" by (auto simp: unat_gt_0 max_def)
  then have "?t mod unat (?b * 1000) < unat ?b * 1000" by (simp add: b)
  moreover have "?t = ?t div unat (?b * 1000) * unat (?b * 1000) + ?t mod unat (?b * 1000)" by simp
  ultimately have "?t - unat (?w * 1000) \<le> ?t div unat (?b * 1000) * unat (?b * 1000)"
    using le w by linarith
  then show ?thesis by (simp add: word_le_nat_alt window_floor_def unat_sat_sub unat_bucket_start)
qed

lemma window_log:
  assumes "unat (max (ac_window_seconds c) (max (ac_bucket_seconds c) 1)) * 1000 < 2 ^ 64"
    and "sorted (map oi_timestamp_unix_ms es)"
  shows "iw_buckets (fold (observe_window c) es default_ip_window) = log_buckets c (recent_requests c es)"
  using assms(2)
proof (induction es rule: rev_induct)
  case (snoc e es)
  let ?r = "recent_requests c es"
  have le: "\<forall>x\<in>set es. oi_timestamp_unix_ms x \<le> oi_timestamp_unix_ms e"
    using snoc.prems by (auto simp: sorted_append)
  have "sorted (map oi_timestamp_unix_ms es)" using snoc.prems by (simp add: sorted_append)
  note IH = snoc.IH [OF this]
  have "\<forall>x\<in>set ?r. bucket_start_of c x \<le> bucket_start_of c e"
    using le by (simp add: recent_requests_def bucket_start_mono)
  from observe_log [OF IH this]
  have "iw_buckets (fold (observe_window c) (es @ [e]) default_ip_window) =
      log_buckets c (filter (\<lambda>x. window_floor c e \<le> bucket_start_of c x) ?r @ [e])" by simp
  moreover have "window_floor c (last es) \<le> window_floor c e" if "es \<noteq> []"
    using le that by (intro window_floor_mono) simp
  then have "filter (\<lambda>x. window_floor c e \<le> bucket_start_of c x) ?r =
      filter (\<lambda>x. window_floor c e \<le> bucket_start_of c x) es"
    by (cases "es = []") (auto simp: recent_requests_def intro!: filter_cong)
  ultimately show ?case
    using window_covers_request [OF assms(1)] by (simp add: recent_requests_def)
qed (simp add: recent_requests_def log_buckets_def default_ip_window_def)

section \<open>Totals of a log\<close>

lemma sum_by_class:
  assumes "distinct ss" and "f ` set es \<subseteq> set ss"
  shows "sum_list (map (\<lambda>s. of_nat (length (filter P (filter (\<lambda>e. f e = s) es)))) ss) =
    (of_nat (length (filter P es)) :: 'a::len word)"
  using assms(2)
proof (induction es)
  case (Cons e es)
  have one: "sum_list (map (\<lambda>s. if s = k then 1 else 0) ss) = (1 :: 'a word)" if "k \<in> set ss" for k
    using that assms(1) by (simp add: sum_list_distinct_conv_sum_set sum.delta)
  have "sum_list (map (\<lambda>s. of_nat (length (filter P (filter (\<lambda>e. f e = s) (e # es))))) ss) =
      sum_list (map (\<lambda>s. (if s = f e then of_bool (P e) else 0) +
        of_nat (length (filter P (filter (\<lambda>e. f e = s) es))) :: 'a word) ss)"
    by (intro arg_cong [where f = sum_list] map_cong) auto
  also have "\<dots> = sum_list (map (\<lambda>s. if s = f e then of_bool (P e) else 0) ss) +
      (of_nat (length (filter P es)) :: 'a word)"
    using Cons by (simp add: sum_list_addf)
  also have "\<dots> = of_nat (length (filter P (e # es)))"
    using one [of "f e"] Cons.prems by (cases "P e") auto
  finally show ?case .
qed simp

lemma union_all_props: "set (union_all xss) = (\<Union>xs\<in>set xss. set xs)" "distinct (union_all xss)"
proof -
  have inner: "set (fold List.insert xs acc) = set xs \<union> set acc" "distinct acc \<Longrightarrow> distinct (fold List.insert xs acc)"
    for xs acc :: "string list"
    by (induction xs arbitrary: acc) auto
  have "set (fold (fold List.insert) xss acc) = (\<Union>xs\<in>set xss. set xs) \<union> set acc"
    "distinct acc \<Longrightarrow> distinct (fold (fold List.insert) xss acc)" for acc
    by (induction xss arbitrary: acc) (auto simp: inner)
  from this [of "[]"] show "set (union_all xss) = (\<Union>xs\<in>set xss. set xs)" "distinct (union_all xss)"
    by (simp_all add: union_all_def)
qed

lemma length_union_all: "length (union_all xss) = card (\<Union>xs\<in>set xss. set xs)"
  using distinct_card [OF union_all_props(2), of xss] by (simp add: union_all_props)

lemmas totals_simps = window_totals_of_def Let_def log_buckets_def comp_def log_bucket_def fold_count_fields
  empty_bucket_def length_union_all

lemma log_totals:
  assumes w: "iw_buckets w = log_buckets c es"
  shows "wt_requests (window_totals_of w) = of_nat (length es)"
    and "wt_failures (window_totals_of w) = of_nat (length (filter failed_request es))"
    and "wt_suspicious_paths (window_totals_of w) = of_nat (length (filter (suspicious_request c) es))"
    and "wt_domains (window_totals_of w) = of_nat (card (tracked_domain ` set es))"
    and "wt_failure_domains (window_totals_of w) = of_nat (card (tracked_domain ` set (filter failed_request es)))"
    and "wt_suspicious_domains (window_totals_of w) = of_nat (card (tracked_domain ` set (filter (suspicious_request c) es)))"
proof -
  let ?ss = "sorted_list_of_set (bucket_start_of c ` set es)"
  have cls: "sum_list (map (\<lambda>s. of_nat (length (filter P (filter (\<lambda>e. bucket_start_of c e = s) es)))) ?ss) =
      (of_nat (length (filter P es)) :: u64)" for P
    by (rule sum_by_class) auto
  have un: "(\<Union>s\<in>set ?ss. tracked_domain ` set (filter P (filter (\<lambda>e. bucket_start_of c e = s) es))) =
      tracked_domain ` set (filter P es)" for P by auto
  show "wt_requests (window_totals_of w) = of_nat (length es)"
    using cls [of "\<lambda>_. True"] by (simp add: w totals_simps)
  show "wt_failures (window_totals_of w) = of_nat (length (filter failed_request es))"
    using cls [of "failed_request"] by (simp add: w totals_simps)
  show "wt_suspicious_paths (window_totals_of w) = of_nat (length (filter (suspicious_request c) es))"
    using cls [of "suspicious_request c"] by (simp add: w totals_simps)
  show "wt_domains (window_totals_of w) = of_nat (card (tracked_domain ` set es))"
    using un [of "\<lambda>_. True"] by (simp add: w totals_simps)
  show "wt_failure_domains (window_totals_of w) = of_nat (card (tracked_domain ` set (filter failed_request es)))"
    using un [of "failed_request"] by (simp add: w totals_simps)
  show "wt_suspicious_domains (window_totals_of w) = of_nat (card (tracked_domain ` set (filter (suspicious_request c) es)))"
    using un [of "suspicious_request c"] by (simp add: w totals_simps)
qed

section \<open>Properties\<close>

text \<open>C19. The bucketed traffic window counts like a log: after any sequence of requests of an address
  in time order, the totals that the thresholds are compared with are exactly the number of
  requests, of failed requests (status 400 and above) and of suspicious requests, and the number
  of different domains among each, in the part of the log whose interval starts no earlier than
  the window length before the last request.\<close>

theorem window_counts_log:
  assumes "unat (max (ac_window_seconds c) (max (ac_bucket_seconds c) 1)) * 1000 < 2 ^ 64"
    and "sorted (map oi_timestamp_unix_ms es)" and "length es < 2 ^ 64"
    and "t = window_totals_of (fold (observe_window c) es default_ip_window)"
    and "r = recent_requests c es"
  shows "unat (wt_requests t) = length r \<and>
    unat (wt_failures t) = length (filter failed_request r) \<and>
    unat (wt_suspicious_paths t) = length (filter (suspicious_request c) r) \<and>
    unat (wt_domains t) = card (tracked_domain ` set r) \<and>
    unat (wt_failure_domains t) = card (tracked_domain ` set (filter failed_request r)) \<and>
    unat (wt_suspicious_domains t) = card (tracked_domain ` set (filter (suspicious_request c) r))"
proof -
  have "length r \<le> length es" by (simp add: assms(5) recent_requests_def)
  then have small: "unat (of_nat n :: u64) = n" if "n \<le> length r" for n
    using assms(3) that by (simp add: unat_of_nat)
  have card: "card (tracked_domain ` set xs) \<le> length xs" for xs
    by (rule order_trans [OF card_image_le card_length]) simp
  have "card (tracked_domain ` set (filter P r)) \<le> length r" for P
    by (rule order_trans [OF card length_filter_le])
  then show ?thesis
    using log_totals [OF window_log [OF assms(1,2)]]
    by (simp only: small card length_filter_le order_refl assms(4,5) [symmetric] simp_thms)
qed

theorem window_counts_log_witness:
  "unat (wt_requests (window_totals_of (fold (observe_window default_adaptive_block_config)
     [\<lparr>oi_ip = V4 7, oi_domain = ''a.io'', oi_path = ''/'', oi_status = 200, oi_timestamp_unix_ms = 1000\<rparr>,
      \<lparr>oi_ip = V4 7, oi_domain = ''a.io'', oi_path = ''/'', oi_status = 404, oi_timestamp_unix_ms = 400000\<rparr>]
     default_ip_window))) = 1"
proof -
  let ?es = "[\<lparr>oi_ip = V4 7, oi_domain = ''a.io'', oi_path = ''/'', oi_status = 200, oi_timestamp_unix_ms = 1000\<rparr>,
      \<lparr>oi_ip = V4 7, oi_domain = ''a.io'', oi_path = ''/'', oi_status = 404, oi_timestamp_unix_ms = 400000\<rparr>]"
  have "length (recent_requests default_adaptive_block_config ?es) = 1" by code_simp
  moreover have "unat (max (ac_window_seconds default_adaptive_block_config)
      (max (ac_bucket_seconds default_adaptive_block_config) 1)) * 1000 < 2 ^ 64" by code_simp
  ultimately show ?thesis
    using window_counts_log [of default_adaptive_block_config ?es] by simp
qed

end
