(* ===== verification/Http_Base.thy ===== *)
theory Http_Base
  imports Common_Names
begin

text \<open>
  The data of the \<open>http\<close> crate that the proxy works on. A \<open>HeaderMap\<close> is the list of its
  (name, value) pairs with lower-case names: \<open>get\<close> yields the first value of a name,
  \<open>insert\<close> replaces every value of a name, \<open>append\<close> is not used by the source. The parsers and
  validators of the crate are the fields of \<open>http_crate\<close>, an argument of the definitions that
  call them.
\<close>

section \<open>Definitions\<close>

type_synonym headers = "(string \<times> string) list"

record uri =
  uri_authority :: "string option"
  uri_path :: string
  uri_query :: "string option"
  uri_path_and_query :: "string option"
  uri_text :: string

text \<open>A body arrives in frames: data, trailers, or an error of the connection.\<close>

datatype body_frame = FrameData string | FrameTrailers | FrameError string

record http_request =
  rq_method :: string
  rq_uri :: uri
  rq_headers :: headers
  rq_body :: "body_frame list"

record http_response =
  rs_status :: u16
  rs_headers :: headers
  rs_body :: string

datatype request_scheme = Http | Https

fun scheme_as_str :: "request_scheme \<Rightarrow> string" where
  "scheme_as_str Http = ''http''"
| "scheme_as_str Https = ''https''"

text \<open>
  \<open>HeaderName::from_bytes\<close>, \<open>HeaderValue::from_str\<close>, \<open>HeaderValue::to_str\<close>,
  \<open>StatusCode::from_u16\<close>, \<open>StatusCode::canonical_reason\<close> and \<open>str::parse::<Uri>\<close>.
\<close>

record http_crate =
  hc_header_name :: "string \<Rightarrow> string option"
  hc_header_value :: "string \<Rightarrow> string option"
  hc_to_str :: "string \<Rightarrow> string option"
  hc_status_ok :: "u16 \<Rightarrow> bool"
  hc_canonical_reason :: "u16 \<Rightarrow> string option"
  hc_parse_uri :: "string \<Rightarrow> uri option"

definition hdr_get :: "headers \<Rightarrow> string \<Rightarrow> string option" where
  "hdr_get h n = map_of h n"

definition hdr_get_all :: "headers \<Rightarrow> string \<Rightarrow> string list" where
  "hdr_get_all h n = map snd (filter (\<lambda>p. fst p = n) h)"

definition hdr_contains :: "headers \<Rightarrow> string \<Rightarrow> bool" where
  "hdr_contains h n \<longleftrightarrow> n \<in> fst ` set h"

definition hdr_remove :: "string \<Rightarrow> headers \<Rightarrow> headers" where
  "hdr_remove n h = filter (\<lambda>p. fst p \<noteq> n) h"

definition hdr_insert :: "string \<Rightarrow> string \<Rightarrow> headers \<Rightarrow> headers" where
  "hdr_insert n v h = hdr_remove n h @ [(n, v)]"

text \<open>\<open>headers.get(n).and_then(|value| value.to_str().ok())\<close>.\<close>

definition hdr_str :: "http_crate \<Rightarrow> headers \<Rightarrow> string \<Rightarrow> string option" where
  "hdr_str hc h n = Option.bind (hdr_get h n) (hc_to_str hc)"

text \<open>\<open>if let Ok(value) = HeaderValue::from_str(v) { headers.insert(n, value) }\<close>.\<close>

definition hdr_insert_str :: "http_crate \<Rightarrow> string \<Rightarrow> string \<Rightarrow> headers \<Rightarrow> headers" where
  "hdr_insert_str hc n v h = (case hc_header_value hc v of None \<Rightarrow> h | Some v \<Rightarrow> hdr_insert n v h)"

text \<open>\<open>if let Ok(name) = HeaderName::from_bytes(n) { headers.remove(name) }\<close>.\<close>

definition hdr_remove_named :: "http_crate \<Rightarrow> string \<Rightarrow> headers \<Rightarrow> headers" where
  "hdr_remove_named hc n h = (case hc_header_name hc n of None \<Rightarrow> h | Some n \<Rightarrow> hdr_remove n h)"

definition is_informational :: "u16 \<Rightarrow> bool" where "is_informational s \<longleftrightarrow> 100 \<le> s \<and> s < 200"
definition is_success :: "u16 \<Rightarrow> bool" where "is_success s \<longleftrightarrow> 200 \<le> s \<and> s < 300"
definition is_client_error :: "u16 \<Rightarrow> bool" where "is_client_error s \<longleftrightarrow> 400 \<le> s \<and> s < 500"
definition is_server_error :: "u16 \<Rightarrow> bool" where "is_server_error s \<longleftrightarrow> 500 \<le> s \<and> s < 600"

text \<open>A crate that accepts every name, value and URI, for concrete examples.\<close>

definition plain_uri :: "string \<Rightarrow> uri" where
  "plain_uri s = \<lparr>uri_authority = None, uri_path = s, uri_query = None, uri_path_and_query = Some s, uri_text = s\<rparr>"

definition plain_http :: http_crate where
  "plain_http = \<lparr>hc_header_name = Some, hc_header_value = Some, hc_to_str = Some,
     hc_status_ok = (\<lambda>s. 100 \<le> s \<and> s < 1000), hc_canonical_reason = (\<lambda>_. None),
     hc_parse_uri = (\<lambda>s. Some (plain_uri s))\<rparr>"

section \<open>Laws of the header map\<close>

lemma hdr_get_remove [simp]: "hdr_get (hdr_remove n h) m = (if m = n then None else hdr_get h m)"
  by (induction h) (auto simp: hdr_get_def hdr_remove_def)

lemma hdr_get_insert [simp]: "hdr_get (hdr_insert n v h) m = (if m = n then Some v else hdr_get h m)"
proof -
  have "map_of (hdr_remove n h @ [(n, v)]) m =
      (case map_of (hdr_remove n h) m of None \<Rightarrow> map_of [(n, v)] m | Some x \<Rightarrow> Some x)"
    by (simp add: map_add_def split: option.split)
  then show ?thesis using hdr_get_remove [of n h m]
    by (auto simp: hdr_insert_def hdr_get_def split: option.splits)
qed

lemma hdr_contains_remove [simp]: "hdr_contains (hdr_remove n h) m \<longleftrightarrow> m \<noteq> n \<and> hdr_contains h m"
  by (auto simp: hdr_contains_def hdr_remove_def)

lemma hdr_contains_insert [simp]: "hdr_contains (hdr_insert n v h) m \<longleftrightarrow> m = n \<or> hdr_contains h m"
  by (auto simp: hdr_contains_def hdr_insert_def hdr_remove_def)

lemma hdr_get_all_remove [simp]: "hdr_get_all (hdr_remove n h) m = (if m = n then [] else hdr_get_all h m)"
  by (auto simp: hdr_get_all_def hdr_remove_def filter_empty_conv intro!: arg_cong [where f = "map snd"] filter_cong)

lemma hdr_get_all_insert [simp]: "hdr_get_all (hdr_insert n v h) m = (if m = n then [v] else hdr_get_all h m)"
proof -
  have "hdr_get_all (hdr_insert n v h) m = hdr_get_all (hdr_remove n h) m @ (if m = n then [v] else [])"
    by (simp add: hdr_insert_def hdr_get_all_def)
  then show ?thesis by simp
qed

lemma hdr_get_contains: "hdr_get h n = None \<longleftrightarrow> \<not> hdr_contains h n"
  by (simp add: hdr_get_def hdr_contains_def map_of_eq_None_iff)

lemma hdr_get_all_Nil: "hdr_get_all h n = [] \<longleftrightarrow> \<not> hdr_contains h n"
  by (auto simp: hdr_get_all_def hdr_contains_def filter_empty_conv)

text \<open>Removing several names, in any order.\<close>

lemma hdr_contains_remove_all: "hdr_contains (fold hdr_remove ns h) m \<longleftrightarrow> m \<notin> set ns \<and> hdr_contains h m"
  by (induction ns arbitrary: h) auto

lemma hdr_get_all_remove_all:
  "hdr_get_all (fold hdr_remove ns h) m = (if m \<in> set ns then [] else hdr_get_all h m)"
  by (induction ns arbitrary: h) auto

lemma hdr_contains_remove_named:
  "hdr_contains (fold (hdr_remove_named hc) ns h) m \<longleftrightarrow>
   Some m \<notin> hc_header_name hc ` set ns \<and> hdr_contains h m"
  by (induction ns arbitrary: h) (auto simp: hdr_remove_named_def split: option.split)

lemma hdr_get_all_remove_named:
  "hdr_get_all (fold (hdr_remove_named hc) ns h) m =
   (if Some m \<in> hc_header_name hc ` set ns then [] else hdr_get_all h m)"
  by (induction ns arbitrary: h) (auto simp: hdr_remove_named_def split: option.split)

end
