(* ===== verification/Common_Validate.thy ===== *)
theory Common_Validate
  imports Common_Names
begin

text \<open>
  The admission of upstreams and routes (\<open>edge/crates/common/src/lib.rs\<close>): which upstream
  URLs the proxy may be pointed at, and the checks a route passes before it is stored. The
  \<open>url\<close> and \<open>ipnet\<close> crates and the process environment are arguments: \<open>url_parse\<close> gives the
  accessor values of a parsed URL or the error text, \<open>net_parse\<close> is \<open>IpNet::from_str\<close>, and
  \<open>env\<close> is the value of an environment variable.
\<close>

section \<open>Definitions\<close>

record parsed_url =
  url_scheme :: string
  url_username :: string
  url_password :: "string option"
  url_host_str :: "string option"
  url_port :: "u16 option"
  url_path :: string
  url_query :: "string option"
  url_fragment :: "string option"

type_synonym url_parser = "string \<Rightarrow> string + parsed_url"
type_synonym environment = "string \<Rightarrow> string option"

definition private_upstreams_allowed :: "environment \<Rightarrow> bool" where
  "private_upstreams_allowed env =
     (case env ''PXXL_ALLOW_PRIVATE_UPSTREAMS'' of None \<Rightarrow> False
      | Some v \<Rightarrow> to_ascii_lowercase v \<in> set [''1'', ''true'', ''yes'', ''on''])"

fun ip_allowed_for_upstream :: "ip_addr \<Rightarrow> bool" where
  "ip_allowed_for_upstream (V4 ip) \<longleftrightarrow>
     \<not> (v4_is_private ip \<or> v4_is_loopback ip \<or> v4_is_link_local ip \<or> v4_is_multicast ip \<or>
        v4_is_broadcast ip \<or> v4_is_unspecified ip \<or> ip = v4_of_octets 169 254 169 254)"
| "ip_allowed_for_upstream (V6 ip) \<longleftrightarrow>
     \<not> (v6_is_loopback ip \<or> v6_is_multicast ip \<or> v6_is_unspecified ip \<or>
        and (segment 0 ip) 0xfe00 = 0xfc00 \<or> and (segment 0 ip) 0xffc0 = 0xfe80)"

definition validate_upstream_host :: "environment \<Rightarrow> string \<Rightarrow> string + unit" where
  "validate_upstream_host env raw =
     (let host = to_ascii_lowercase (trim_end_matches CHR ''.'' raw) in run_checks
       [require (host \<noteq> []) ''upstream host is required'',
        require (\<not> (host = ''localhost'' \<or> ends_with host ''.localhost''))
          ''loopback upstream host is not allowed'',
        require (\<not> list_ex (\<lambda>c. byte_of c \<le> 0x20 \<or> byte_of c = 0x7f) host)
          ''upstream host contains invalid characters'',
        (case parse_ip host of None \<Rightarrow> Inr ()
         | Some ip \<Rightarrow> require (private_upstreams_allowed env \<or> ip_allowed_for_upstream ip)
             ''private, loopback, link-local, multicast, or unspecified upstream IP is not allowed'')])"

definition url_or_error :: "url_parser \<Rightarrow> string \<Rightarrow> string + parsed_url" where
  "url_or_error url_parse raw =
     (case url_parse raw of Inl e \<Rightarrow> Inl (''invalid upstream URL: '' @ e) | Inr u \<Rightarrow> Inr u)"

definition validate_upstream_url :: "url_parser \<Rightarrow> environment \<Rightarrow> string \<Rightarrow> string + unit" where
  "validate_upstream_url url_parse env raw = res_bind (run_checks
     [require (length raw \<le> 2048) ''upstream URL is too long'',
      require (\<not> list_ex (\<lambda>c. byte_of c \<le> 0x20 \<or> byte_of c = 0x7f) raw)
        ''upstream URL contains control or whitespace characters''])
     (\<lambda>_. res_bind (url_or_error url_parse raw) (\<lambda>parsed. res_bind (run_checks
       [require (url_scheme parsed \<in> set [''http'', ''https''])
          ''upstream URL scheme must be http or https'',
        require (url_username parsed = [] \<and> url_password parsed = None)
          ''upstream URL must not contain credentials'',
        require (url_fragment parsed = None) ''upstream URL must not contain a fragment''])
       (\<lambda>_. case url_host_str parsed of None \<Rightarrow> Inl ''upstream URL needs a host''
            | Some host \<Rightarrow> validate_upstream_host env host)))"

definition validate_upstream :: "url_parser \<Rightarrow> environment \<Rightarrow> upstream \<Rightarrow> string + unit" where
  "validate_upstream url_parse env u = run_checks
     [validate_upstream_url url_parse env (up_url u),
      require (up_transport u = default_upstream_transport)
        ''upstream transport options are not enforced yet'']"

definition RESERVED_CONTROL_PLANE_HOSTS :: "string list" where
  "RESERVED_CONTROL_PLANE_HOSTS =
     [''redis'', ''postgres'', ''clickhouse'', ''prometheus'', ''grafana'', ''loki'',
      ''promtail'', ''pxxl-proxy-edge'', ''edge'']"

definition validate_dynamic_upstream_url ::
    "url_parser \<Rightarrow> environment \<Rightarrow> string \<Rightarrow> string + unit" where
  "validate_dynamic_upstream_url url_parse env raw =
     res_bind (validate_upstream_url url_parse env raw) (\<lambda>_.
     res_bind (url_or_error url_parse raw) (\<lambda>parsed.
       case url_host_str parsed of None \<Rightarrow> Inl ''upstream URL needs a host''
       | Some h \<Rightarrow>
           let host = to_ascii_lowercase (trim_end_matches CHR ''.'' h) in
           require (host \<notin> set RESERVED_CONTROL_PLANE_HOSTS)
             (''reserved control-plane upstream host is not allowed: '' @ host)))"

definition validate_dynamic_upstream ::
    "url_parser \<Rightarrow> environment \<Rightarrow> upstream \<Rightarrow> string + unit" where
  "validate_dynamic_upstream url_parse env u = run_checks
     [validate_upstream url_parse env u, validate_dynamic_upstream_url url_parse env (up_url u)]"

text \<open>
  The values of a map, in the order of its keys. The code walks a \<open>HashMap\<close>, whose order is
  not specified: only which error is reported first depends on it.
\<close>

definition fm_values :: "(string, 'v) fmap \<Rightarrow> 'v list" where
  "fm_values m = map (\<lambda>k. the (fmlookup m k)) (sorted_list_of_fset (fmdom m))"

definition validate_upstream_group ::
    "url_parser \<Rightarrow> environment \<Rightarrow> nat \<Rightarrow> string \<Rightarrow> upstream list \<Rightarrow> string + unit" where
  "validate_upstream_group url_parse env limit what ups = run_checks
     [require (length ups \<le> limit) (what @ '' has too many upstreams: max '' @ show_nat limit),
      for_each (validate_upstream url_parse env) ups]"

definition validate_middleware_forward_auth ::
    "url_parser \<Rightarrow> environment \<Rightarrow> middleware_definition \<Rightarrow> string + unit" where
  "validate_middleware_forward_auth url_parse env mw =
     (case mw_forward_auth mw of None \<Rightarrow> Inr ()
      | Some fa \<Rightarrow>
          if fa_enabled fa then run_checks
            [require (fa_response_headers fa = [])
               ''forward_auth response_headers are not enforced yet'',
             validate_upstream_url url_parse env (fa_url fa)]
          else Inr ())"

definition validate_rules_for_runtime ::
    "url_parser \<Rightarrow> environment \<Rightarrow> domain_rules \<Rightarrow> string + unit" where
  "validate_rules_for_runtime url_parse env rules = run_checks
     [require (dr_services rules = fmempty) ''weighted service composition is not enforced yet'',
      require (dr_upstream_transport rules = default_upstream_transport)
        ''default upstream transport options are not enforced yet'',
      require (dr_tls_options rules = default_router_tls)
        ''per-router TLS options are not enforced yet'',
      require (dr_acme rules = default_acme) ''ACME options are not enforced yet'',
      require (dr_tcp rules = default_tcp_routing)
        ''TCP routing options are not enforced yet'',
      require (dr_udp rules = default_udp_routing)
        ''UDP routing options are not enforced yet'',
      require (dr_http3 rules = default_http3) ''HTTP/3 options are not enforced yet'',
      for_each (\<lambda>r. validate_upstream_group url_parse env MAX_UPSTREAMS_PER_ROUTE
                      ''location route'' (lr_upstreams r)) (dr_location_routes rules),
      for_each (\<lambda>r. validate_upstream_group url_parse env MAX_UPSTREAMS_PER_ROUTE
                      ''traffic split'' (ts_upstreams r)) (dr_traffic_splits rules),
      validate_upstream_group url_parse env MAX_MIRROR_UPSTREAMS_PER_ROUTE
        ''traffic mirroring'' (tm_upstreams (dr_traffic_mirroring rules)),
      for_each (validate_middleware_forward_auth url_parse env)
        (fm_values (dr_middlewares rules))]"

definition validate_path :: "url_parser \<Rightarrow> environment \<Rightarrow> path_route \<Rightarrow> string + unit" where
  "validate_path url_parse env p = run_checks
     [validate_path_prefix (pr_prefix p),
      require (pr_upstreams p \<noteq> [])
        (''path '' @ pr_prefix p @ '' needs at least one upstream''),
      require (length (pr_upstreams p) \<le> MAX_UPSTREAMS_PER_ROUTE)
        (''path '' @ pr_prefix p @ '' has too many upstreams: max '' @
         show_nat MAX_UPSTREAMS_PER_ROUTE),
      for_each (validate_upstream url_parse env) (pr_upstreams p)]"

definition validate_for_runtime :: "url_parser \<Rightarrow> environment \<Rightarrow> route \<Rightarrow> string + unit" where
  "validate_for_runtime url_parse env r = run_checks
     [validate_domain_name (rt_domain r),
      require (rt_paths r \<noteq> []) ''route needs at least one path'',
      require (length (rt_paths r) \<le> MAX_PATHS_PER_ROUTE)
        (''route has too many paths: max '' @ show_nat MAX_PATHS_PER_ROUTE),
      for_each (validate_path url_parse env) (rt_paths r),
      validate_rules_for_runtime url_parse env (rt_rules r)]"

definition all_upstreams :: "route \<Rightarrow> upstream list" where
  "all_upstreams r =
     concat (map pr_upstreams (rt_paths r)) @
     concat (map lr_upstreams (dr_location_routes (rt_rules r))) @
     concat (map ts_upstreams (dr_traffic_splits (rt_rules r))) @
     tm_upstreams (dr_traffic_mirroring (rt_rules r))"

definition validate_for_dynamic_control_plane ::
    "url_parser \<Rightarrow> environment \<Rightarrow> route \<Rightarrow> string + unit" where
  "validate_for_dynamic_control_plane url_parse env r = run_checks
     [validate_for_runtime url_parse env r,
      for_each (validate_dynamic_upstream url_parse env) (all_upstreams r),
      for_each (\<lambda>mw. case mw_forward_auth mw of None \<Rightarrow> Inr ()
                     | Some fa \<Rightarrow> if fa_enabled fa
                         then validate_dynamic_upstream_url url_parse env (fa_url fa) else Inr ())
        (fm_values (dr_middlewares (rt_rules r)))]"

text \<open>
  \<open>parse_ip_net\<close>: a network in CIDR notation, or a bare address as a host network. The text
  of the address parser's error is an argument as well.
\<close>

definition parse_ip_net ::
    "(string \<Rightarrow> ip_net option) \<Rightarrow> (string \<Rightarrow> string) \<Rightarrow> string \<Rightarrow> string + ip_net" where
  "parse_ip_net net_parse addr_error v =
     (case net_parse v of Some n \<Rightarrow> Inr n
      | None \<Rightarrow>
          (case parse_ip v of
             Some (V4 ip) \<Rightarrow> Inr (V4Net ip 32)
           | Some (V6 ip) \<Rightarrow> Inr (V6Net ip 128)
           | None \<Rightarrow> Inl (addr_error v)))"

section \<open>What an admitted upstream is\<close>

text \<open>The host as the checks compare it.\<close>

definition host_key :: "string \<Rightarrow> string" where
  "host_key host = to_ascii_lowercase (trim_end_matches CHR ''.'' host)"

text \<open>The reading of an upstream URL that the checks promise.\<close>

definition url_admitted :: "url_parser \<Rightarrow> environment \<Rightarrow> string \<Rightarrow> bool" where
  "url_admitted url_parse env raw \<longleftrightarrow> length raw \<le> 2048 \<and> list_all (\<lambda>c. \<not> is_control c \<and> c \<noteq> CHR '' '') raw \<and>
     (case url_parse raw of Inl _ \<Rightarrow> False | Inr u \<Rightarrow>
        (url_scheme u = ''http'' \<or> url_scheme u = ''https'') \<and>
        url_username u = [] \<and> url_password u = None \<and> url_fragment u = None \<and>
        (case url_host_str u of None \<Rightarrow> False | Some h \<Rightarrow>
           host_key h \<noteq> [] \<and> host_key h \<noteq> ''localhost'' \<and> \<not> ends_with (host_key h) ''.localhost'' \<and>
           list_all (\<lambda>c. \<not> is_control c \<and> c \<noteq> CHR '' '') (host_key h) \<and>
           (case parse_ip (host_key h) of None \<Rightarrow> True
            | Some ip \<Rightarrow> private_upstreams_allowed env \<or> ip_allowed_for_upstream ip)))"

lemma control_or_space: "(byte_of c \<le> 0x20 \<or> byte_of c = 0x7f) \<longleftrightarrow> is_control c \<or> c = CHR '' ''"
proof -
  have "c = CHR '' '' \<longleftrightarrow> byte_of c = 0x20"
    using byte_of_inj [of c "CHR '' ''"] by (simp add: byte_of_def)
  then show ?thesis by (auto simp: is_control_def)
qed

lemma no_control_or_space:
  "list_ex (\<lambda>c. byte_of c \<le> 0x20 \<or> byte_of c = 0x7f) s \<longleftrightarrow>
   \<not> list_all (\<lambda>c. \<not> is_control c \<and> c \<noteq> CHR '' '') s"
  unfolding control_or_space by (simp add: list_ex_iff list_all_iff)

lemma validate_upstream_url_iff:
  "validate_upstream_url url_parse env raw = Inr () \<longleftrightarrow> url_admitted url_parse env raw"
  by (auto simp: validate_upstream_url_def url_admitted_def url_or_error_def validate_upstream_host_def
      no_control_or_space host_key_def Let_def split: sum.splits option.splits)

lemma validate_upstream_iff:
  "validate_upstream url_parse env u = Inr () \<longleftrightarrow>
   url_admitted url_parse env (up_url u) \<and> up_transport u = default_upstream_transport"
  by (auto simp: validate_upstream_def validate_upstream_url_iff)

definition not_reserved :: "url_parser \<Rightarrow> string \<Rightarrow> bool" where
  "not_reserved url_parse raw \<longleftrightarrow>
     (\<forall>u h. url_parse raw = Inr u \<longrightarrow> url_host_str u = Some h \<longrightarrow>
        host_key h \<notin> set RESERVED_CONTROL_PLANE_HOSTS)"

lemma validate_dynamic_upstream_url_iff:
  "validate_dynamic_upstream_url url_parse env raw = Inr () \<longleftrightarrow>
   url_admitted url_parse env raw \<and> not_reserved url_parse raw"
proof -
  have "url_admitted url_parse env raw \<Longrightarrow> \<exists>u h. url_parse raw = Inr u \<and> url_host_str u = Some h"
    by (auto simp: url_admitted_def split: sum.splits option.splits)
  then show ?thesis
    by (auto simp: validate_dynamic_upstream_url_def validate_upstream_url_iff not_reserved_def
        url_or_error_def host_key_def Let_def split: sum.splits option.splits)
qed

lemma set_fm_values: "set (fm_values m) = {v. \<exists>k. fmlookup m k = Some v}"
proof -
  have "v \<in> set (fm_values m) \<longleftrightarrow> (\<exists>k. fmlookup m k = Some v)" for v
  proof -
    have "v \<in> set (fm_values m) \<longleftrightarrow> (\<exists>k. k |\<in>| fmdom m \<and> v = the (fmlookup m k))"
      by (auto simp: fm_values_def)
    then show ?thesis by (metis fmlookup_dom_iff option.sel)
  qed
  then show ?thesis by auto
qed

section \<open>Properties\<close>


text \<open>
  The witness admits a route with one public upstream; its URL parser knows one URL.
\<close>

definition sample_url :: parsed_url where
  "sample_url = \<lparr>url_scheme = ''http'', url_username = [], url_password = None,
     url_host_str = Some ''93.184.216.34'', url_port = Some 8080, url_path = ''/'', url_query = None,
     url_fragment = None\<rparr>"

definition sample_route :: route where
  "sample_route = new_route 0 ''r1'' ''app.example.com''
     [new_path_route ''/'' [new_upstream ''http://93.184.216.34:8080'']] Api"

lemma fm_values_empty [simp]: "fm_values fmempty = []"
  by (simp add: fm_values_def sorted_list_of_fset.rep_eq)

lemma default_rules_valid: "validate_rules_for_runtime url_parse env default_domain_rules = Inr ()"
  by (simp add: validate_rules_for_runtime_def default_domain_rules_def validate_upstream_group_def
      default_traffic_mirror_def)

lemma sample_admitted: "validate_for_dynamic_control_plane (\<lambda>_. Inr sample_url) (\<lambda>_. None) sample_route = Inr ()"
proof -
  let ?u = "new_upstream ''http://93.184.216.34:8080''"
  have r: "rt_domain sample_route = ''app.example.com''" "rt_rules sample_route = default_domain_rules"
    "rt_paths sample_route = [new_path_route ''/'' [?u]]"
    by (simp_all add: sample_route_def new_route_def) code_simp
  have p: "pr_prefix (new_path_route ''/'' [?u]) = ''/''" "pr_upstreams (new_path_route ''/'' [?u]) = [?u]"
    "up_url ?u = ''http://93.184.216.34:8080''"
    by code_simp+
  have u: "url_admitted (\<lambda>_. Inr sample_url) (\<lambda>_. None) ''http://93.184.216.34:8080''"
    "up_transport ?u = default_upstream_transport"
    by code_simp (simp add: new_upstream_def)
  have n: "not_reserved (\<lambda>_. Inr sample_url) ''http://93.184.216.34:8080''"
  proof -
    have "host_key ''93.184.216.34'' \<notin> set RESERVED_CONTROL_PLANE_HOSTS" by code_simp
    then show ?thesis by (simp add: not_reserved_def sample_url_def)
  qed
  have all: "all_upstreams sample_route = [?u]"
    by (simp add: all_upstreams_def r p default_domain_rules_def default_traffic_mirror_def)
  have v: "validate_domain_name ''app.example.com'' = Inr ()" "validate_path_prefix ''/'' = Inr ()"
    by code_simp+
  have "validate_for_runtime (\<lambda>_. Inr sample_url) (\<lambda>_. None) sample_route = Inr ()"
    using u v by (simp add: validate_for_runtime_def validate_path_def r p default_rules_valid
        validate_upstream_iff MAX_PATHS_PER_ROUTE_def MAX_UPSTREAMS_PER_ROUTE_def)
  moreover have "fm_values (dr_middlewares default_domain_rules) = []"
    by (simp add: default_domain_rules_def)
  ultimately show ?thesis
    using u n by (simp add: validate_for_dynamic_control_plane_def all r
        validate_dynamic_upstream_def validate_upstream_iff validate_dynamic_upstream_url_iff p)
qed


text \<open>
  C39. The address check does not see IPv6 literals: the \<open>url\<close> crate documents that
  \<open>host_str\<close> gives an IPv6 host between brackets, and with the brackets it does not parse as
  an address, so a loopback upstream is admitted although \<open>ip_allowed_for_upstream\<close> forbids it.
\<close>

theorem ipv6_loopback_upstream_admitted:
  assumes "url_parse ''http://[::1]:9000/'' = Inr u"
    and "url_scheme u = ''http''" and "url_username u = []" and "url_password u = None"
    and "url_fragment u = None" and "url_host_str u = Some ''[::1]''"
  shows "validate_upstream_url url_parse env ''http://[::1]:9000/'' = Inr () \<and>
    parse_ip ''::1'' = Some (V6 1) \<and> \<not> ip_allowed_for_upstream (V6 1)"
proof -
  have "length ''http://[::1]:9000/'' \<le> 2048"
    "list_all (\<lambda>c. \<not> is_control c \<and> c \<noteq> CHR '' '') ''http://[::1]:9000/''"
    by code_simp+
  moreover have "host_key ''[::1]'' = ''[::1]''" by code_simp
  moreover have "parse_ip ''[::1]'' = None" by code_simp
  moreover have "\<not> ends_with ''[::1]'' ''.localhost''" by code_simp
  moreover have "list_all (\<lambda>c. \<not> is_control c \<and> c \<noteq> CHR '' '') ''[::1]''" by code_simp
  ultimately have "url_admitted url_parse env ''http://[::1]:9000/''"
    using assms by (simp add: url_admitted_def)
  moreover have "parse_ip ''::1'' = Some (V6 1) \<and> \<not> ip_allowed_for_upstream (V6 1)" by code_simp
  ultimately show ?thesis by (simp add: validate_upstream_url_iff)
qed

theorem ipv6_loopback_upstream_admitted_witness:
  "let u = sample_url\<lparr>url_host_str := Some ''[::1]''\<rparr>
   in validate_upstream_url (\<lambda>_. Inr u) (\<lambda>_. None) ''http://[::1]:9000/'' = Inr ()"
proof -
  let ?u = "sample_url\<lparr>url_host_str := Some ''[::1]''\<rparr>"
  show ?thesis
    using ipv6_loopback_upstream_admitted [of "\<lambda>_. Inr ?u" ?u "\<lambda>_. None"]
    by (simp add: sample_url_def)
qed

end
