(* ===== verification/Client_Ip.thy ===== *)
theory Client_Ip
  imports Http_Base Common_Validate
begin

text \<open>
  Which client address the edge works with (\<open>edge/crates/http-proxy/src/lib.rs\<close>): the trusted
  networks, the headers a trusted peer may set, and the parsing of their values.
\<close>

section \<open>Definitions\<close>

record trusted_client_ip_config =
  tc_cidrs :: "ip_net list"

definition TRUSTED_CLIENT_IP_CIDRS_ENV :: string where
  "TRUSTED_CLIENT_IP_CIDRS_ENV = ''PXXL_TRUSTED_CLIENT_IP_CIDRS''"

definition LEGACY_TRUSTED_CLIENT_IP_CIDRS_ENV :: string where
  "LEGACY_TRUSTED_CLIENT_IP_CIDRS_ENV = ''PXXL_TRUSTED_PROXY_CIDRS''"

text \<open>Entries that do not parse are skipped.\<close>

definition parse_trusted :: "(string \<Rightarrow> ip_net option) \<Rightarrow> string \<Rightarrow> trusted_client_ip_config" where
  "parse_trusted parse_net value =
     \<lparr>tc_cidrs = List.map_filter (\<lambda>entry. case parse_ip_net parse_net (\<lambda>_. []) entry of Inr n \<Rightarrow> Some n | Inl _ \<Rightarrow> None)
        (filter (\<lambda>entry. entry \<noteq> []) (map trim (split_on CHR '','' value)))\<rparr>"

definition trusted_from_env ::
    "(string \<Rightarrow> ip_net option) \<Rightarrow> (string \<Rightarrow> string option) \<Rightarrow> trusted_client_ip_config" where
  "trusted_from_env parse_net env =
     parse_trusted parse_net
       (case env TRUSTED_CLIENT_IP_CIDRS_ENV of
          Some v \<Rightarrow> v
        | None \<Rightarrow> (case env LEGACY_TRUSTED_CLIENT_IP_CIDRS_ENV of Some v \<Rightarrow> v | None \<Rightarrow> []))"

definition trusted_peer :: "(ip_net \<Rightarrow> ip_addr \<Rightarrow> bool) \<Rightarrow> ip_addr \<Rightarrow> trusted_client_ip_config \<Rightarrow> bool" where
  "trusted_peer contains peer_ip c = list_ex (\<lambda>n. contains n peer_ip) (tc_cidrs c)"

fun is_public_client_ip :: "ip_addr \<Rightarrow> bool" where
  "is_public_client_ip (V4 a) \<longleftrightarrow>
     \<not> v4_is_private a \<and> \<not> v4_is_loopback a \<and> \<not> v4_is_link_local a \<and> \<not> v4_is_broadcast a \<and>
     \<not> v4_is_documentation a \<and> \<not> v4_is_unspecified a"
| "is_public_client_ip (V6 a) \<longleftrightarrow>
     (let first = segment 0 a;
          unique_local = (first AND 0xfe00 = 0xfc00);
          link_local = (first AND 0xffc0 = 0xfe80)
      in \<not> v6_is_loopback a \<and> \<not> v6_is_multicast a \<and> \<not> v6_is_unspecified a \<and>
         \<not> unique_local \<and> \<not> link_local)"

definition public_ip :: "ip_addr \<Rightarrow> ip_addr option" where
  "public_ip ip = (if is_public_client_ip ip then Some ip else None)"

definition parse_forwarded_ip_value :: "string \<Rightarrow> ip_addr option" where
  "parse_forwarded_ip_value value =
     (let value = trim_matches CHR '']'' (trim_matches CHR ''['' (trim_matches CHR 0x22 (trim value))) in
      if value = [] \<or> eq_ignore_ascii_case value ''unknown'' \<or> starts_with value ''_'' then None
      else case parse_ip value of
        Some ip \<Rightarrow> public_ip ip
      | None \<Rightarrow>
          (case rsplit_once CHR '':'' value of
             None \<Rightarrow> None
           | Some (host, _) \<Rightarrow>
               (case parse_ip (trim_matches CHR '']'' (trim_matches CHR ''['' (trim host))) of
                  Some ip \<Rightarrow> public_ip ip
                | None \<Rightarrow> None)))"

definition parse_x_forwarded_for :: "string \<Rightarrow> ip_addr option" where
  "parse_x_forwarded_for value = find_map parse_forwarded_ip_value (split_on CHR '','' value)"

definition forwarded_pair :: "string \<Rightarrow> ip_addr option" where
  "forwarded_pair pair =
     (case split_once CHR ''='' (trim pair) of
        None \<Rightarrow> None
      | Some (name, raw_value) \<Rightarrow>
          if eq_ignore_ascii_case (trim name) ''for'' then parse_forwarded_ip_value raw_value else None)"

definition parse_forwarded_header :: "string \<Rightarrow> ip_addr option" where
  "parse_forwarded_header value =
     find_map (\<lambda>segment. find_map forwarded_pair (split_on CHR '';'' segment)) (split_on CHR '','' value)"

definition forwarded_client_ip :: "http_crate \<Rightarrow> headers \<Rightarrow> ip_addr option" where
  "forwarded_client_ip hc h =
     (case find_map (\<lambda>name. Option.bind (hdr_str hc h name) parse_forwarded_ip_value)
             [''cf-connecting-ip'', ''x-real-ip'', ''true-client-ip''] of
        Some ip \<Rightarrow> Some ip
      | None \<Rightarrow>
          (case Option.bind (hdr_str hc h ''x-forwarded-for'') parse_x_forwarded_for of
             Some ip \<Rightarrow> Some ip
           | None \<Rightarrow> Option.bind (hdr_str hc h ''forwarded'') parse_forwarded_header))"

definition resolve_effective_client_ip ::
    "http_crate \<Rightarrow> (ip_net \<Rightarrow> ip_addr \<Rightarrow> bool) \<Rightarrow> headers \<Rightarrow> ip_addr option \<Rightarrow> trusted_client_ip_config \<Rightarrow>
     ip_addr option" where
  "resolve_effective_client_ip hc contains h peer_ip trusted =
     (case peer_ip of
        None \<Rightarrow> None
      | Some peer \<Rightarrow>
          if \<not> trusted_peer contains peer trusted then Some peer
          else case forwarded_client_ip hc h of Some ip \<Rightarrow> Some ip | None \<Rightarrow> Some peer)"

section \<open>Forwarded addresses are public\<close>

lemma public_ip_Some: "public_ip ip = Some ip' \<longleftrightarrow> ip' = ip \<and> is_public_client_ip ip"
  by (auto simp: public_ip_def)

lemma parsed_value_public: "parse_forwarded_ip_value v = Some ip \<Longrightarrow> is_public_client_ip ip"
  by (auto simp: parse_forwarded_ip_value_def Let_def public_ip_Some split: if_splits option.splits prod.splits)

lemma x_forwarded_for_public: "parse_x_forwarded_for v = Some ip \<Longrightarrow> is_public_client_ip ip"
  by (auto simp: parse_x_forwarded_for_def dest!: find_map_Some intro: parsed_value_public)

lemma forwarded_pair_public: "forwarded_pair v = Some ip \<Longrightarrow> is_public_client_ip ip"
  by (auto simp: forwarded_pair_def split: option.splits if_splits prod.splits intro: parsed_value_public)

lemma forwarded_header_public: "parse_forwarded_header v = Some ip \<Longrightarrow> is_public_client_ip ip"
  by (auto simp: parse_forwarded_header_def dest!: find_map_Some intro: forwarded_pair_public)

lemmas forwarded_values_public = parsed_value_public x_forwarded_for_public forwarded_header_public

lemma forwarded_client_ip_public: "forwarded_client_ip hc h = Some ip \<Longrightarrow> is_public_client_ip ip"
  by (auto simp: forwarded_client_ip_def bind_eq_Some_conv
      split: option.splits dest!: find_map_Some intro: forwarded_values_public)

section \<open>Properties\<close>

text \<open>C20. The client address cannot be spoofed past the trusted networks: for a peer outside them the
  effective address is the peer's, whatever the headers say; a peer inside them is believed only
  about addresses that are public, and without such an address the peer's own is used. So the
  effective address is always the peer's own or a public one.\<close>

theorem client_ip_not_spoofable:
  "\<exists>ip. resolve_effective_client_ip hc contains h (Some peer) trusted = Some ip \<and>
    (\<not> trusted_peer contains peer trusted \<longrightarrow> ip = peer) \<and>
    (forwarded_client_ip hc h = None \<longrightarrow> ip = peer) \<and>
    (ip \<noteq> peer \<longrightarrow> is_public_client_ip ip \<and> forwarded_client_ip hc h = Some ip)"
  using forwarded_client_ip_public [of hc h]
  by (cases "forwarded_client_ip hc h") (auto simp: resolve_effective_client_ip_def)

text \<open>
  The leftmost public entry of \<open>X-Forwarded-For\<close> wins. Behind a trusted proxy that appends the
  address of its client to the header, the client chooses the address.
\<close>

lemma appended_forwarded_for_spoofed:
  assumes "hdr_str hc h ''x-forwarded-for'' = Some ''8.8.8.8, 9.9.9.9''"
    and "\<forall>n. n \<in> {''cf-connecting-ip'', ''x-real-ip'', ''true-client-ip''} \<longrightarrow> hdr_str hc h n = None"
  shows "forwarded_client_ip hc h = Some (V4 0x08080808)"
proof -
  have "parse_x_forwarded_for ''8.8.8.8, 9.9.9.9'' = Some (V4 0x08080808)" by code_simp
  with assms show ?thesis by (simp add: forwarded_client_ip_def)
qed

theorem client_ip_not_spoofable_witness:
  "resolve_effective_client_ip plain_http (\<lambda>n ip. ip = V4 7) [(''x-real-ip'', ''8.8.8.8'')] (Some (V4 9)) \<lparr>tc_cidrs = []\<rparr>
     = Some (V4 9)"
  using client_ip_not_spoofable [of plain_http "\<lambda>n ip. ip = V4 7" "[(''x-real-ip'', ''8.8.8.8'')]" "V4 9"
      "\<lparr>tc_cidrs = []\<rparr>"]
  by (simp add: trusted_peer_def)

end
