(* ===== verification/Waf.thy ===== *)
theory Waf
  imports Http_Base Common_Validate Rate_Limit
begin

text \<open>
  The web application firewall of a domain (\<open>edge/crates/http-proxy/src/lib.rs\<close>): fixed and
  configured patterns on the path, the query and the user agent, and the score that marks a
  request as coming from a bot. \<open>f64::log2\<close>, whose precision the language leaves open, is an
  argument.
\<close>

section \<open>Definitions\<close>

record proxy_request_context =
  rc_request_id :: string
  rc_domain :: string
  rc_method :: string
  rc_path :: string
  rc_remote_ip :: "ip_addr option"
  rc_scheme :: request_scheme
  rc_location :: geo_location
  rc_timestamp_unix_ms :: u64

subsection \<open>Patterns\<close>

definition contains_any :: "string \<Rightarrow> string list \<Rightarrow> bool" where
  "contains_any v patterns = list_ex (\<lambda>p. str_contains v p) patterns"

definition string_patterns_match :: "string \<Rightarrow> string list \<Rightarrow> bool" where
  "string_patterns_match value_lower patterns =
     list_ex (\<lambda>p. p \<noteq> [] \<and> str_contains value_lower p) (map to_ascii_lowercase patterns)"

definition NORMALIZATION_MARKERS :: "string list" where
  "NORMALIZATION_MARKERS = [''..'', ''%2e'', ''%252e'', ''%2f'', ''%252f'', ''%5c'', ''%255c'', [CHR 0x5C], ''//'']"

definition path_had_structural_normalization :: "string \<Rightarrow> string \<Rightarrow> bool" where
  "path_had_structural_normalization raw_path canonical =
     (raw_path \<noteq> canonical \<and> contains_any (to_ascii_lowercase raw_path) NORMALIZATION_MARKERS)"

definition TRAVERSAL_PATTERNS :: "string list" where
  "TRAVERSAL_PATTERNS = [''../'', ''..'' @ [CHR 0x5C], ''%2e%2e'', ''%252e%252e'']"

definition SQL_PATTERNS :: "string list" where
  "SQL_PATTERNS =
     ['' union select '', ''union%20select'', [CHR 0x27] @ '' or 1=1'', ''%27%20or%201=1'', [CHR 0x22] @ '' or 1=1'',
      ''%22%20or%201=1'', ''information_schema'', ''sleep('', ''benchmark('']"

definition XSS_PATTERNS :: "string list" where
  "XSS_PATTERNS = [''<script'', ''%3cscript'', ''javascript:'']"

definition BAD_BOTS :: "string list" where
  "BAD_BOTS = [''sqlmap'', ''nikto'', ''masscan'', ''zgrab'', ''nmap'', ''dirbuster'']"

definition user_agent :: "http_crate \<Rightarrow> http_request \<Rightarrow> string" where
  "user_agent hc req = (case hdr_str hc (rq_headers req) ''user-agent'' of Some v \<Rightarrow> v | None \<Rightarrow> [])"

definition static_waf_rejection_reason ::
    "http_crate \<Rightarrow> http_request \<Rightarrow> domain_rules \<Rightarrow> string \<Rightarrow> string option" where
  "static_waf_rejection_reason hc req rules canonical =
     (let waf = dr_waf rules in
      if \<not> waf_enabled waf then None
      else
        let path = uri_path (rq_uri req);
            query = (case uri_query (rq_uri req) of Some q \<Rightarrow> q | None \<Rightarrow> []);
            path_lower = to_ascii_lowercase path;
            canonical_lower = to_ascii_lowercase canonical;
            query_lower = to_ascii_lowercase query;
            user_agent_lower = to_ascii_lowercase (user_agent hc req)
        in if waf_block_path_traversal waf \<and>
              (contains_any path_lower TRAVERSAL_PATTERNS \<or> path_had_structural_normalization path canonical)
           then Some ''waf_path_traversal''
           else if waf_block_sql_injection waf \<and> contains_any query_lower SQL_PATTERNS
           then Some ''waf_sql_injection''
           else if waf_block_xss waf \<and>
              (contains_any query_lower XSS_PATTERNS \<or> contains_any path_lower XSS_PATTERNS \<or>
               contains_any canonical_lower XSS_PATTERNS)
           then Some ''waf_xss''
           else if waf_block_bad_bots waf \<and> contains_any user_agent_lower BAD_BOTS
           then Some ''waf_bad_bot''
           else if string_patterns_match user_agent_lower (waf_blocked_user_agents waf)
           then Some ''waf_user_agent''
           else if string_patterns_match path_lower (waf_blocked_path_patterns waf) \<or>
                   string_patterns_match canonical_lower (waf_blocked_path_patterns waf)
           then Some ''waf_path_pattern''
           else if string_patterns_match query_lower (waf_blocked_query_patterns waf)
           then Some ''waf_query_pattern''
           else None)"

subsection \<open>Entropy\<close>

definition byte_counts :: "string \<Rightarrow> u16 list" where
  "byte_counts v = fold (\<lambda>b counts. counts[byte_of b := sat_add (counts ! byte_of b) 1]) v (replicate 256 0)"

definition shannon_entropy :: "(f64 \<Rightarrow> f64) \<Rightarrow> string \<Rightarrow> f64" where
  "shannon_entropy log2 v =
     (if v = [] then 0
      else let len = f64_of_nat (length v) in
        foldl f64_add 0
          (map (\<lambda>c. let p = f64_div (f64_of_nat (unat c)) len in f64_mul (- p) (log2 p))
             (filter (\<lambda>c. 0 < c) (byte_counts v))))"

definition random_segment :: "(f64 \<Rightarrow> f64) \<Rightarrow> string \<Rightarrow> bool" where
  "random_segment log2 seg =
     (length seg * 9 div 10 \<le> length (filter is_ascii_alphanumeric seg) \<and>
      3 \<le> length (filter is_ascii_digit seg) \<and>
      8 \<le> length (filter is_ascii_alphabetic seg) \<and>
      4 \<le> shannon_entropy log2 seg)"

definition path_has_long_random_segment :: "(f64 \<Rightarrow> f64) \<Rightarrow> string \<Rightarrow> bool" where
  "path_has_long_random_segment log2 path =
     list_ex (random_segment log2) (filter (\<lambda>seg. 20 \<le> length seg) (split_on CHR ''/'' path))"

subsection \<open>Request rate of a bot\<close>

record bot_score_key =
  bk_domain :: string
  bk_ip :: ip_addr

record bot_score_bucket =
  bb_window_started :: instant
  bb_requests :: u32

definition BOT_WINDOW :: nat where "BOT_WINDOW = from_secs 10"
definition BOT_BUCKET_EVICT_AT :: nat where "BOT_BUCKET_EVICT_AT = 100000"

definition bot_evict :: "instant \<Rightarrow> (bot_score_key, bot_score_bucket) hmap \<Rightarrow> (bot_score_key, bot_score_bucket) hmap" where
  "bot_evict now buckets =
     (if BOT_BUCKET_EVICT_AT \<le> length buckets
      then hm_retain (\<lambda>_ b. now - bb_window_started b \<le> BOT_WINDOW * 6) buckets
      else buckets)"

definition bot_count :: "instant \<Rightarrow> bot_score_bucket \<Rightarrow> bot_score_bucket" where
  "bot_count now b =
     (let b = (if BOT_WINDOW < now - bb_window_started b then \<lparr>bb_window_started = now, bb_requests = 0\<rparr> else b)
      in b\<lparr>bb_requests := sat_add (bb_requests b) 1\<rparr>)"

definition rate_points :: "u32 \<Rightarrow> u16" where
  "rate_points n = (if n \<le> 40 then 0 else if n \<le> 120 then 15 else if n \<le> 300 then 30 else 45)"

definition bot_rate_points ::
    "instant \<Rightarrow> string \<Rightarrow> ip_addr \<Rightarrow> (bot_score_key, bot_score_bucket) hmap \<Rightarrow>
     u16 \<times> (bot_score_key, bot_score_bucket) hmap" where
  "bot_rate_points now domain ip buckets =
     (let buckets = bot_evict now buckets;
          key = \<lparr>bk_domain = domain, bk_ip = ip\<rparr>;
          b = bot_count now (hm_get_or buckets key \<lparr>bb_window_started = now, bb_requests = 0\<rparr>)
      in (rate_points (bb_requests b), hm_insert key b buckets))"

subsection \<open>Bot score\<close>

record bot_assessment =
  ba_score :: u16
  ba_reasons :: "string list"

definition add_points :: "u16 \<Rightarrow> string \<Rightarrow> bot_assessment \<Rightarrow> bot_assessment" where
  "add_points n reason a = a\<lparr>ba_score := ba_score a + n, ba_reasons := ba_reasons a @ [reason]\<rparr>"

definition SCANNER_AGENTS :: "string list" where
  "SCANNER_AGENTS =
     [''sqlmap'', ''nikto'', ''masscan'', ''zgrab'', ''nmap'', ''dirbuster'', ''gobuster'', ''ffuf'', ''acunetix'',
      ''nessus'', ''wpscan'']"

definition AUTOMATION_AGENTS :: "string list" where
  "AUTOMATION_AGENTS =
     [''python-requests'', ''aiohttp'', ''httpx'', ''libwww-perl'', ''scrapy'', ''go-http-client'', ''java/'', ''okhttp'',
      ''curl'', ''wget'']"

definition HOSTING_MARKERS :: "string list" where
  "HOSTING_MARKERS =
     [''hosting'', ''cloud'', ''digitalocean'', ''linode'', ''vultr'', ''hetzner'', ''ovh'', ''contabo'', ''amazon'', ''aws'',
      ''google'', ''microsoft'', ''azure'', ''leaseweb'', ''colo'', ''datacenter'']"

definition assess_agent :: "string \<Rightarrow> bot_assessment \<Rightarrow> bot_assessment" where
  "assess_agent ua a =
     (let lower = to_ascii_lowercase ua;
          a = (if trim ua = [] then add_points 20 ''missing_user_agent'' a
               else if length ua < 8 then add_points 10 ''short_user_agent'' a
               else a)
      in if contains_any lower SCANNER_AGENTS then add_points 70 ''scanner_user_agent'' a
         else if contains_any lower AUTOMATION_AGENTS then add_points 20 ''automation_user_agent'' a
         else a)"

definition assess_path :: "(f64 \<Rightarrow> f64) \<Rightarrow> string \<Rightarrow> bot_assessment \<Rightarrow> bot_assessment" where
  "assess_path log2 path a =
     (let entropy = shannon_entropy log2 path;
          a = (if 48 \<le> length path \<and> 17 / 4 \<le> entropy then add_points 20 ''path_entropy'' a else a)
      in if path_has_long_random_segment log2 path then add_points 20 ''random_path_segment'' a else a)"

definition assess_source :: "string \<Rightarrow> bot_assessment \<Rightarrow> bot_assessment" where
  "assess_source source a =
     (let lower = to_ascii_lowercase source;
          a = (if lower = ''unknown'' then add_points 5 ''unknown_geo'' a else a)
      in if str_contains lower ''asn''
         then let a = add_points 5 ''asn_seen'' a
              in if contains_any lower HOSTING_MARKERS then add_points 15 ''hosting_asn'' a else a
         else a)"

definition assess_bot_request ::
    "http_crate \<Rightarrow> (f64 \<Rightarrow> f64) \<Rightarrow> instant \<Rightarrow> http_request \<Rightarrow> proxy_request_context \<Rightarrow>
     (bot_score_key, bot_score_bucket) hmap \<Rightarrow> bot_assessment \<times> (bot_score_key, bot_score_bucket) hmap" where
  "assess_bot_request hc log2 now req ctx buckets =
     (let a = assess_agent (user_agent hc req) \<lparr>ba_score = 0, ba_reasons = []\<rparr>;
          (points, buckets) = (case rc_remote_ip ctx of
             Some ip \<Rightarrow> bot_rate_points now (rc_domain ctx) ip buckets
           | None \<Rightarrow> (0, buckets));
          a = (if 0 < points then add_points points ''request_rate'' a else a)
      in (assess_source (geo_source (rc_location ctx)) (assess_path log2 (rc_path ctx) a), buckets))"

definition waf_rejection_reason ::
    "http_crate \<Rightarrow> (f64 \<Rightarrow> f64) \<Rightarrow> instant \<Rightarrow> http_request \<Rightarrow> domain_rules \<Rightarrow> proxy_request_context \<Rightarrow>
     (bot_score_key, bot_score_bucket) hmap \<Rightarrow> string option \<times> (bot_score_key, bot_score_bucket) hmap" where
  "waf_rejection_reason hc log2 now req rules ctx buckets =
     (let waf = dr_waf rules in
      if \<not> waf_enabled waf then (None, buckets)
      else case static_waf_rejection_reason hc req rules (rc_path ctx) of
        Some reason \<Rightarrow> (Some reason, buckets)
      | None \<Rightarrow>
          if waf_block_bad_bots waf
          then let (a, buckets) = assess_bot_request hc log2 now req ctx buckets
               in (if 60 \<le> ba_score a then Some ''waf_bot_score'' else None, buckets)
          else (None, buckets))"

section \<open>The score adds up\<close>

text \<open>\<open>a'\<close> has at most \<open>K\<close> points more than \<open>a\<close>, and at most 45 for each reason more.\<close>

definition scored :: "nat \<Rightarrow> bot_assessment \<Rightarrow> bot_assessment \<Rightarrow> bool" where
  "scored K a a' \<longleftrightarrow> unat (ba_score a) \<le> unat (ba_score a') \<and> unat (ba_score a') \<le> unat (ba_score a) + K \<and>
     unat (ba_score a') + 45 * length (ba_reasons a) \<le> unat (ba_score a) + 45 * length (ba_reasons a')"

lemma scored_refl: "scored K a a"
  by (simp add: scored_def)

lemma scored_trans: "scored K a b \<Longrightarrow> scored L b c \<Longrightarrow> scored (K + L) a c"
  by (auto simp: scored_def)

lemma scored_mono: "scored K a b \<Longrightarrow> K \<le> L \<Longrightarrow> scored L a b"
  by (auto simp: scored_def)

lemma unat_add_points: "unat (ba_score a) \<le> 1000 \<Longrightarrow> unat n \<le> 100 \<Longrightarrow>
  unat (ba_score (add_points n r a)) = unat (ba_score a) + unat n"
  by (simp add: add_points_def unat_word_ariths)

lemma scored_add:
  assumes "unat (ba_score a) \<le> 1000" and "unat n \<le> K" and "K \<le> 45"
  shows "scored K a (add_points n r a)"
  using unat_add_points [OF assms(1), of n r] assms by (simp add: scored_def add_points_def)

lemma scored_if:
  assumes "unat (ba_score a) \<le> 1000" and "unat n \<le> K" and "K \<le> 45"
  shows "scored K a (if c then add_points n r a else a)"
  using assms by (simp add: scored_add scored_refl)

lemma scored_agent:
  assumes "a = \<lparr>ba_score = 0, ba_reasons = []\<rparr>"
  shows "if contains_any (to_ascii_lowercase ua) SCANNER_AGENTS
    then 70 \<le> unat (ba_score (assess_agent ua a)) \<and> unat (ba_score (assess_agent ua a)) \<le> 90
    else scored 40 a (assess_agent ua a)"
  unfolding assess_agent_def Let_def using assms by (simp add: add_points_def scored_def)

lemma scored_path:
  assumes "unat (ba_score a) \<le> 900"
  shows "scored 40 a (assess_path log2 path a)"
proof -
  let ?b = "if 48 \<le> length path \<and> 17 / 4 \<le> shannon_entropy log2 path then add_points 20 ''path_entropy'' a else a"
  have b: "scored 20 a ?b" by (rule scored_if) (use assms in simp_all)
  then have "unat (ba_score ?b) \<le> 1000" using assms by (simp add: scored_def del: if_split)
  then have "scored 20 ?b (if path_has_long_random_segment log2 path then add_points 20 ''random_path_segment'' ?b else ?b)"
    by (rule scored_if) simp_all
  from scored_trans [OF b this] show ?thesis by (simp only: assess_path_def Let_def) simp
qed

lemma scored_source:
  assumes "unat (ba_score a) \<le> 900"
  shows "scored 25 a (assess_source source a)"
proof -
  let ?l = "to_ascii_lowercase source"
  let ?b = "if ?l = ''unknown'' then add_points 5 ''unknown_geo'' a else a"
  let ?c = "add_points 5 ''asn_seen'' ?b"
  have b: "scored 5 a ?b" by (rule scored_if) (use assms in simp_all)
  then have b2: "unat (ba_score ?b) \<le> 905" using assms by (simp add: scored_def del: if_split)
  then have c: "scored 5 ?b ?c" by (intro scored_add) (simp_all del: if_split)
  then have "unat (ba_score ?c) \<le> 1000" using b2 by (simp add: scored_def del: if_split)
  then have d: "scored 15 ?c (if contains_any ?l HOSTING_MARKERS then add_points 15 ''hosting_asn'' ?c else ?c)"
    by (rule scored_if) simp_all
  have "scored 25 a (if contains_any ?l HOSTING_MARKERS then add_points 15 ''hosting_asn'' ?c else ?c)"
    using scored_trans [OF scored_trans [OF b c] d] by simp
  moreover have "scored 25 a ?b" using b by (rule scored_mono) simp
  ultimately show ?thesis by (simp add: assess_source_def Let_def del: if_split)
qed

lemma rate_points_le: "unat (rate_points n) \<le> 45"
  by (simp add: rate_points_def)

lemma bot_rate_points_le: "unat (fst (bot_rate_points now domain ip buckets)) \<le> 45"
  by (simp add: bot_rate_points_def Let_def rate_points_le)

lemma scored_after_agent:
  assumes "unat (ba_score a) \<le> 90" and "a = assess_agent (user_agent hc req) \<lparr>ba_score = 0, ba_reasons = []\<rparr>"
  shows "scored 110 a (fst (assess_bot_request hc log2 now req ctx buckets))"
proof -
  obtain p bs where p: "(case rc_remote_ip ctx of
      Some ip \<Rightarrow> bot_rate_points now (rc_domain ctx) ip buckets | None \<Rightarrow> (0, buckets)) = (p, bs)" by fastforce
  have p45: "unat p \<le> 45"
  proof (cases "rc_remote_ip ctx")
    case None
    then show ?thesis using p by simp
  next
    case (Some ip)
    then show ?thesis using p bot_rate_points_le [of now "rc_domain ctx" ip buckets] by simp
  qed
  let ?b = "if 0 < p then add_points p ''request_rate'' a else a"
  let ?c = "assess_path log2 (rc_path ctx) ?b"
  have b: "scored 45 a ?b" by (rule scored_if) (use assms(1) p45 in simp_all)
  then have "unat (ba_score ?b) \<le> 900" using assms(1) by (simp add: scored_def del: if_split)
  then have c: "scored 40 ?b ?c" by (rule scored_path)
  have "unat (ba_score ?c) \<le> 900" using b c assms(1) by (simp add: scored_def del: if_split)
  then have d: "scored 25 ?c (assess_source (geo_source (rc_location ctx)) ?c)" by (rule scored_source)
  from scored_trans [OF scored_trans [OF b c] d]
  have "scored 110 a (assess_source (geo_source (rc_location ctx)) ?c)" by simp
  then show ?thesis unfolding assess_bot_request_def Let_def p assms(2) [symmetric] by (simp only: prod.case fst_conv)
qed

section \<open>Properties\<close>

text \<open>The bot score is explained by its signals: the score never exceeds 200, so the 16-bit sum does
  not wrap; a scanner's user agent alone is enough to be blocked; and without one a request is
  blocked only when at least two signals agree.\<close>

theorem bot_score_explained:
  assumes "assess_bot_request hc log2 now req ctx buckets = (a, buckets')"
  shows "unat (ba_score a) \<le> 200 \<and>
    (contains_any (to_ascii_lowercase (user_agent hc req)) SCANNER_AGENTS \<longrightarrow> 60 \<le> ba_score a) \<and>
    (\<not> contains_any (to_ascii_lowercase (user_agent hc req)) SCANNER_AGENTS \<and> 60 \<le> ba_score a \<longrightarrow>
       2 \<le> length (ba_reasons a))"
proof -
  let ?s = "contains_any (to_ascii_lowercase (user_agent hc req)) SCANNER_AGENTS"
  let ?i = "\<lparr>ba_score = 0, ba_reasons = []\<rparr>" and ?g = "assess_agent (user_agent hc req) \<lparr>ba_score = 0, ba_reasons = []\<rparr>"
  have g: "if ?s then 70 \<le> unat (ba_score ?g) \<and> unat (ba_score ?g) \<le> 90 else scored 40 ?i ?g"
    by (rule scored_agent) simp
  then have g90: "unat (ba_score ?g) \<le> 90" by (auto simp: scored_def split: if_splits)
  then have a: "scored 110 ?g a"
    using scored_after_agent [of ?g hc req log2 now ctx buckets] assms by simp
  have "60 \<le> ba_score a \<longleftrightarrow> 60 \<le> unat (ba_score a)" by (simp add: word_le_nat_alt)
  moreover have "?s \<Longrightarrow> 70 \<le> unat (ba_score a)" "unat (ba_score a) \<le> 200"
    using a g g90 by (auto simp: scored_def)
  moreover have "unat (ba_score a) \<le> 45 * length (ba_reasons a)" if "\<not> ?s"
    using g that scored_trans [OF _ a, of 40 ?i] by (auto simp: scored_def)
  ultimately show ?thesis by fastforce
qed

text \<open>
  Three layers of encoding: canonicalisation decodes four times, so the path climbs out of its
  directory, while the markers of the firewall cover two layers.
\<close>

lemma encoded_traversal_unseen:
  "canonicalize_path ''/a/%25252e%25252e/b'' = Inr ''/b''"
  "path_had_structural_normalization ''/a/%25252e%25252e/b'' ''/b'' = False"
  "contains_any (to_ascii_lowercase ''/a/%25252e%25252e/b'') TRAVERSAL_PATTERNS = False"
  by code_simp+

definition scanner_request :: http_request where
  "scanner_request = \<lparr>rq_method = ''GET'', rq_uri = plain_uri ''/'', rq_headers = [(''user-agent'', ''sqlmap/1.7'')], rq_body = []\<rparr>"

definition scanner_context :: proxy_request_context where
  "scanner_context = \<lparr>rc_request_id = ''1'', rc_domain = ''a.io'', rc_method = ''GET'', rc_path = ''/'',
     rc_remote_ip = Some (V4 7), rc_scheme = Https, rc_location = geo_unknown, rc_timestamp_unix_ms = 0\<rparr>"

theorem bot_score_explained_witness:
  "60 \<le> ba_score (fst (assess_bot_request plain_http (\<lambda>_. 0) 0 scanner_request scanner_context []))"
proof -
  have "contains_any (to_ascii_lowercase (user_agent plain_http scanner_request)) SCANNER_AGENTS" by code_simp
  then show ?thesis
    using bot_score_explained [of plain_http "\<lambda>_. 0" 0 scanner_request scanner_context "[]"] by (metis prod.collapse)
qed

end
