(* ===== verification/Policy_Rate.thy ===== *)
theory Policy_Rate
  imports Common_Rules Rate_Limit
begin

text \<open>
  The rate limiter of domain rules, \<open>PolicyRateLimiter\<close> of \<open>edge/crates/http-proxy/src/lib.rs\<close>:
  a token bucket per domain, scope, address and path.
\<close>

section \<open>Definitions\<close>

record policy_rate_key =
  pk_domain :: string
  pk_scope :: rate_limit_scope
  pk_ip :: "ip_addr option"
  pk_path :: "string option"

record policy_rate_limiter =
  pl_buckets :: "(policy_rate_key, rate_bucket) hmap"

definition POLICY_RATE_BUCKET_TTL_SECONDS :: nat where "POLICY_RATE_BUCKET_TTL_SECONDS = 600"
definition POLICY_RATE_BUCKET_EVICT_AT :: nat where "POLICY_RATE_BUCKET_EVICT_AT = 100000"

definition path_without_query :: "string \<Rightarrow> string" where
  "path_without_query path = (case split_on CHR ''?'' path of p # _ \<Rightarrow> p | [] \<Rightarrow> path)"

definition new_policy_rate_key :: "string \<Rightarrow> string \<Rightarrow> ip_addr option \<Rightarrow> rate_limit_scope \<Rightarrow> policy_rate_key" where
  "new_policy_rate_key domain path remote_ip scope =
     (case scope of
        PerIp \<Rightarrow> \<lparr>pk_domain = domain, pk_scope = scope, pk_ip = remote_ip, pk_path = None\<rparr>
      | PerDomain \<Rightarrow> \<lparr>pk_domain = domain, pk_scope = scope, pk_ip = None, pk_path = None\<rparr>
      | PerIpPath \<Rightarrow> \<lparr>pk_domain = domain, pk_scope = scope, pk_ip = remote_ip,
                      pk_path = Some (path_without_query path)\<rparr>)"

definition effective_rate_per_second :: "domain_rate_limit \<Rightarrow> f64" where
  "effective_rate_per_second limit =
     (case drl_requests_per_second limit of
        Some rate \<Rightarrow> if 0 < rate then f64_of_nat (unat rate)
                     else (case drl_requests_per_minute limit of
                             Some rate \<Rightarrow> if 0 < rate then f64_div (f64_of_nat (unat rate)) 60 else 120
                           | None \<Rightarrow> 120)
      | None \<Rightarrow> (case drl_requests_per_minute limit of
                   Some rate \<Rightarrow> if 0 < rate then f64_div (f64_of_nat (unat rate)) 60 else 120
                 | None \<Rightarrow> 120))"

definition policy_burst :: "domain_rate_limit \<Rightarrow> f64" where
  "policy_burst limit = f64_of_nat (unat (max (drl_burst limit) 1))"

definition policy_evict_stale :: "instant \<Rightarrow> policy_rate_limiter \<Rightarrow> policy_rate_limiter" where
  "policy_evict_stale now l =
     (if length (pl_buckets l) < POLICY_RATE_BUCKET_EVICT_AT then l
      else l\<lparr>pl_buckets := hm_retain
             (\<lambda>_ b. now - tb_last_refill b \<le> from_secs POLICY_RATE_BUCKET_TTL_SECONDS) (pl_buckets l)\<rparr>)"

definition retry_after ::
    "instant \<Rightarrow> domain_rate_limit \<Rightarrow> string \<Rightarrow> string \<Rightarrow> ip_addr option \<Rightarrow> policy_rate_limiter \<Rightarrow>
     nat option \<times> policy_rate_limiter" where
  "retry_after now limit domain path remote_ip l =
     (if \<not> drl_enabled limit then (None, l)
      else let rate = effective_rate_per_second limit;
               burst = policy_burst limit;
               key = new_policy_rate_key domain path remote_ip (drl_scope limit);
               l = policy_evict_stale now l;
               b = hm_get_or (pl_buckets l) key (fresh_bucket burst now);
               (ok, b) = take_token rate burst now b
           in (if ok then None
               else Some (case drl_retry_after_seconds limit of
                            Some s \<Rightarrow> from_secs (unat s)
                          | None \<Rightarrow> from_secs_f64 (f64_div 1 (max rate (f64_round (1 / 1000))))),
               l\<lparr>pl_buckets := hm_insert key b (pl_buckets l)\<rparr>))"

section \<open>The limiter is a keyed limiter\<close>

lemma effective_rate_pos: "0 < effective_rate_per_second limit"
  by (auto simp: effective_rate_per_second_def f64_of_nat_pos f64_div_def f64_round_pos unat_gt_0 split: option.split)

lemma policy_burst_exact: "policy_burst limit = of_nat (unat (max (drl_burst limit) 1))"
  unfolding policy_burst_def using u32_bound [of "max (drl_burst limit) 1"] by (intro f64_of_nat_exact) simp

lemma policy_burst_bounds: "0 \<le> policy_burst limit" "policy_burst limit \<le> 2 ^ 53"
  using u32_le_f64 [of "max (drl_burst limit) 1"] by (simp_all only: policy_burst_exact of_nat_0_le_iff)

lemma policy_evict_get:
  assumes "hm_wf (pl_buckets l)"
  shows "hm_get (pl_buckets (policy_evict_stale now l)) k = hm_get (pl_buckets l) k \<or>
    hm_get (pl_buckets (policy_evict_stale now l)) k = None \<and>
    (\<exists>b. hm_get (pl_buckets l) k = Some b \<and> from_secs POLICY_RATE_BUCKET_TTL_SECONDS < now - tb_last_refill b)"
  and "hm_wf (pl_buckets (policy_evict_stale now l))"
  using assms by (auto simp: policy_evict_stale_def hm.get_keep split: option.splits)

type_synonym limit_call = "domain_rate_limit \<times> string \<times> string \<times> ip_addr option"

definition policy_call_key :: "limit_call \<Rightarrow> policy_rate_key" where
  "policy_call_key = (\<lambda>(limit, domain, path, ip). new_policy_rate_key domain path ip (drl_scope limit))"

definition policy_call_conf :: "limit_call \<Rightarrow> f64 \<times> f64" where
  "policy_call_conf = (\<lambda>(limit, _). (effective_rate_per_second limit, policy_burst limit))"

text \<open>A call under an enabled limit, and whether it is let through.\<close>

definition policy_call :: "limit_call \<Rightarrow> instant \<Rightarrow> policy_rate_limiter \<Rightarrow> bool \<times> policy_rate_limiter" where
  "policy_call = (\<lambda>(limit, domain, path, ip) now l.
     apfst (\<lambda>r. r = None) (retry_after now (limit\<lparr>drl_enabled := True\<rparr>) domain path ip l))"

lemma conf_enabled [simp]:
  "effective_rate_per_second (limit\<lparr>drl_enabled := b\<rparr>) = effective_rate_per_second limit"
  "policy_burst (limit\<lparr>drl_enabled := b\<rparr>) = policy_burst limit"
  by (simp_all add: effective_rate_per_second_def policy_burst_def split: option.split)

lemma policy_call_enabled:
  "drl_enabled limit \<Longrightarrow> policy_call (limit, domain, path, ip) now l =
     apfst (\<lambda>r. r = None) (retry_after now limit domain path ip l)"
  by (cases limit) (simp add: policy_call_def)

lemma policy_call_unfold:
  "policy_call q now l =
     (let l' = policy_evict_stale now l;
          r = take_token (fst (policy_call_conf q)) (snd (policy_call_conf q)) now
                (hm_get_or (pl_buckets l') (policy_call_key q) (fresh_bucket (snd (policy_call_conf q)) now))
      in (fst r, l'\<lparr>pl_buckets := hm_insert (policy_call_key q) (snd r) (pl_buckets l')\<rparr>))"
  by (cases q) (simp add: policy_call_def policy_call_key_def policy_call_conf_def retry_after_def Let_def case_prod_beta)

interpretation policies: keyed_limiter
  policy_call "\<lambda>l. hm_get (pl_buckets l)" policy_call_key policy_call_conf
  "\<lambda>l. hm_wf (pl_buckets l)" "from_secs POLICY_RATE_BUCKET_TTL_SECONDS"
proof (unfold_locales, goal_cases)
  case (1 l q now)
  then show ?case using policy_evict_get(2) [of l now] by (auto simp: policy_call_unfold Let_def)
next
  case (2 l q now)
  then show ?case
    using policy_evict_get(1) [of l now "policy_call_key q"]
    by (intro exI [of _ "hm_get_or (pl_buckets (policy_evict_stale now l)) (policy_call_key q)
          (fresh_bucket (snd (policy_call_conf q)) now)"])
      (auto simp: policy_call_unfold Let_def hm_get_or_def split: option.splits)
next
  case (3 l k q now)
  then show ?case using policy_evict_get(1) [of l now k] by (simp add: policy_call_unfold Let_def)
qed

text \<open>Calls under disabled limits are let through and leave no trace.\<close>

fun policy_admitted :: "policy_rate_key \<Rightarrow> (instant \<times> limit_call) list \<Rightarrow> policy_rate_limiter \<Rightarrow> nat" where
  "policy_admitted k [] l = 0"
| "policy_admitted k ((now, limit, domain, path, ip) # cs) l =
     (let (r, l') = retry_after now limit domain path ip l
      in of_bool (drl_enabled limit \<and> new_policy_rate_key domain path ip (drl_scope limit) = k \<and> r = None) +
         policy_admitted k cs l')"

abbreviation enabled_calls :: "(instant \<times> limit_call) list \<Rightarrow> (instant \<times> limit_call) list" where
  "enabled_calls cs \<equiv> filter (\<lambda>c. drl_enabled (fst (snd c))) cs"

lemma policy_admitted_keyed:
  "policy_admitted k cs l = keyed_admitted policy_call policy_call_key k (enabled_calls cs) l"
proof (induction cs arbitrary: l)
  case (Cons x cs)
  obtain now limit domain path ip where x: "x = (now, limit, domain, path, ip)" by (cases x) auto
  show ?case
  proof (cases "drl_enabled limit")
    case True
    let ?r = "retry_after now limit domain path ip l"
    have "policy_admitted k (x # cs) l = of_bool (new_policy_rate_key domain path ip (drl_scope limit) = k \<and> fst ?r = None) +
        policy_admitted k cs (snd ?r)"
      using True by (simp add: x case_prod_beta)
    moreover have "keyed_admitted policy_call policy_call_key k (enabled_calls (x # cs)) l =
        of_bool (new_policy_rate_key domain path ip (drl_scope limit) = k \<and> fst ?r = None) +
        keyed_admitted policy_call policy_call_key k (enabled_calls cs) (snd ?r)"
      using policy_call_enabled [OF True, of domain path ip now l] True
      by (simp add: x policy_call_key_def case_prod_beta)
    ultimately show ?thesis by (simp only: Cons.IH)
  next
    case False
    then show ?thesis using Cons.IH [of l] by (simp add: x retry_after_def)
  qed
qed simp

section \<open>Properties\<close>

definition policy_limiter_wf :: "domain_rate_limit \<Rightarrow> policy_rate_key \<Rightarrow> instant \<Rightarrow> policy_rate_limiter \<Rightarrow> bool" where
  "policy_limiter_wf limit k now l \<longleftrightarrow> hm_wf (pl_buckets l) \<and>
     (\<forall>b. hm_get (pl_buckets l) k = Some b \<longrightarrow>
        bucket_wf (effective_rate_per_second limit, policy_burst limit) b \<and> tb_last_refill b \<le> now)"

text \<open>C22. A domain's rate limit holds: whatever other domains, addresses and paths do in between, in any
  window of at most ten minutes the requests that the limiter lets through for one key (the
  domain, with the address and the path when the scope says so) are at most the burst plus the
  effective rate over the window, up to the rounding of the \<open>f64\<close> arithmetic, provided the calls
  for that key are made under the same limit.\<close>

theorem policy_rate_bound:
  assumes "policy_limiter_wf limit k t0 l" and "sorted (map fst cs)"
    and "\<forall>(t, limit', domain, path, ip)\<in>set cs. t0 \<le> t \<and> t \<le> t0 + window \<and>
      (new_policy_rate_key domain path ip (drl_scope limit') = k \<longrightarrow> limit' = limit)"
    and "window \<le> from_secs POLICY_RATE_BUCKET_TTL_SECONDS"
  shows "of_nat (policy_admitted k cs l) \<le>
    rat_of_nat (unat (max (drl_burst limit) 1)) +
    effective_rate_per_second limit * (1 + 1 / 2 ^ 53) ^ 4 * (of_nat window / 1000000000) +
    of_nat (length cs) * (rat_of_nat (unat (max (drl_burst limit) 1)) / 2 ^ 52)"
proof -
  let ?r = "effective_rate_per_second limit" and ?m = "policy_burst limit" and ?cs = "enabled_calls cs"
  let ?n = "length (keyed_calls policy_call_key k ?cs)"
  have "sorted (map fst ?cs)" using assms(2) by (rule sorted_filter)
  moreover have "\<forall>t\<in>set (map fst ?cs). t0 \<le> t \<and> t \<le> t0 + window" using assms(3) by auto
  moreover have "\<forall>q\<in>set (map snd ?cs). policy_call_key q = k \<longrightarrow> policy_call_conf q = (?r, ?m)"
    using assms(3) by (fastforce simp: policy_call_key_def policy_call_conf_def)
  ultimately have "of_nat (policy_admitted k cs l) \<le> ?m + bucket_gain (?r, ?m) * of_nat (t0 + window - t0) +
      of_nat ?n * bucket_slack (?r, ?m)"
    using policies.admitted_window [of l ?r ?m k t0 ?cs "t0 + window"] effective_rate_pos policy_burst_bounds assms(1,4)
    by (simp add: policy_limiter_wf_def policy_admitted_keyed)
  moreover have "?n \<le> length cs" by (metis (no_types) length_filter_le length_map order_trans)
  then have "of_nat ?n * bucket_slack (?r, ?m) \<le> of_nat (length cs) * bucket_slack (?r, ?m)"
    using policy_burst_bounds(1) [of limit]
    by (intro mult_right_mono) (simp_all add: bucket_slack_def rounding_def)
  ultimately have bound: "of_nat (policy_admitted k cs l) \<le> ?m + bucket_gain (?r, ?m) * of_nat (t0 + window - t0) +
      of_nat (length cs) * bucket_slack (?r, ?m)" by linarith
  have gain: "bucket_gain (?r, ?m) * of_nat (t0 + window - t0) =
      ?r * (1 + 1 / 2 ^ 53) ^ 4 * (of_nat window / 1000000000)"
    by (simp only: bucket_gain_def fst_conv rounding_def) simp
  have slack: "bucket_slack (?r, ?m) = ?m / 2 ^ 52" by (simp add: bucket_slack_def rounding_def)
  show ?thesis using bound unfolding gain slack unfolding policy_burst_exact .
qed

definition login_limit :: domain_rate_limit where
  "login_limit = default_domain_rate_limit\<lparr>drl_requests_per_second := Some 10, drl_burst := 5\<rparr>"

theorem policy_rate_bound_witness:
  "let k = new_policy_rate_key ''a.io'' ''/'' (Some (V4 1)) PerIp;
       cs = [(5, login_limit, ''a.io'', ''/'', Some (V4 1)), (7, default_domain_rate_limit, ''b.io'', ''/'', None),
             (9, login_limit, ''a.io'', ''/x'', Some (V4 1))] in
   of_nat (policy_admitted k cs \<lparr>pl_buckets = []\<rparr>) \<le>
     (5 + 10 * (1 + 1 / 2 ^ 53) ^ 4 * (of_nat 1000000000 / 1000000000) + of_nat 3 * (5 / 2 ^ 52) :: rat)"
proof -
  have rate: "effective_rate_per_second login_limit = 10"
    by (simp add: login_limit_def effective_rate_per_second_def f64_of_nat_exact)
  show ?thesis
    using policy_rate_bound [of login_limit "new_policy_rate_key ''a.io'' ''/'' (Some (V4 1)) PerIp" 0 "\<lparr>pl_buckets = []\<rparr>"
        "[(5, login_limit, ''a.io'', ''/'', Some (V4 1)), (7, default_domain_rate_limit, ''b.io'', ''/'', None),
             (9, login_limit, ''a.io'', ''/x'', Some (V4 1))]" 1000000000]
    unfolding rate
    by (simp add: policy_limiter_wf_def from_secs_def POLICY_RATE_BUCKET_TTL_SECONDS_def login_limit_def
        default_domain_rate_limit_def new_policy_rate_key_def)
qed

end
