(* ===== verification/Route_Registry.thy ===== *)
theory Route_Registry
  imports Common_Names
begin

text \<open>
  The route registry (\<open>edge/crates/core/src/lib.rs\<close>): the table of routes with its index by
  domain, its updates, and the lookup of a route for a host and a path. The registry holds an
  immutable table behind an atomic pointer, so an operation that reads the table and stores a
  new one is a load followed by a store; the sequential operations compose the two.
\<close>

section \<open>Definitions\<close>

record route_upstream_health =
  ruh_domain :: string
  ruh_path_prefix :: string
  ruh_upstream_url :: string
  ruh_healthy :: bool

record route_table =
  rtb_routes :: "route list"
  rtb_by_domain :: "(string, route list) hmap"

subsection \<open>Building the table\<close>

definition source_debug :: "route_source \<Rightarrow> string" where
  "source_debug s = (case s of Static \<Rightarrow> ''Static'' | Docker \<Rightarrow> ''Docker''
     | Podman \<Rightarrow> ''Podman'' | Api \<Rightarrow> ''Api'')"

definition dedupe_key :: "route \<Rightarrow> string" where
  "dedupe_key r = (case rt_source r of
       Api \<Rightarrow> ''api:'' @ rt_domain r
     | _ \<Rightarrow> source_debug (rt_source r) @ '':'' @ rt_domain r @ '':'' @ rt_id r)"

fun dedupe_loop :: "route list \<Rightarrow> (string, nat) hmap \<Rightarrow> route list \<Rightarrow> route list" where
  "dedupe_loop merged positions [] = merged"
| "dedupe_loop merged positions (r # rs) =
     (case hm_get positions (dedupe_key r) of
        Some i \<Rightarrow> dedupe_loop (merged[i := r]) positions rs
      | None \<Rightarrow> dedupe_loop (merged @ [r]) (hm_insert (dedupe_key r) (length merged) positions) rs)"

definition dedupe_routes :: "route list \<Rightarrow> route list" where
  "dedupe_routes rs = dedupe_loop [] [] rs"

definition index_route :: "(string, route list) hmap \<Rightarrow> route \<Rightarrow> (string, route list) hmap" where
  "index_route m r = hm_insert (rt_domain r) (hm_get_or m (rt_domain r) [] @ [r]) m"

definition new_table :: "route list \<Rightarrow> route_table" where
  "new_table rs = (let routes = dedupe_routes rs in
     \<lparr>rtb_routes = routes, rtb_by_domain = foldl index_route [] routes\<rparr>)"

subsection \<open>Updates\<close>

definition empty_registry :: route_table where
  "empty_registry = new_table []"

definition snapshot :: "route_table \<Rightarrow> route list" where
  "snapshot t = rtb_routes t"

definition replace_all :: "route list \<Rightarrow> route_table \<Rightarrow> route_table" where
  "replace_all rs t = new_table rs"

definition replace_source :: "route_source \<Rightarrow> route list \<Rightarrow> route_table \<Rightarrow> route_table" where
  "replace_source s rs t = replace_all (filter (\<lambda>r. rt_source r \<noteq> s) (snapshot t) @ rs) t"

definition api_routes_equivalent :: "route \<Rightarrow> route \<Rightarrow> bool" where
  "api_routes_equivalent e n \<longleftrightarrow>
     rt_source e = Api \<and> rt_source n = Api \<and> rt_id e = rt_id n \<and> rt_domain e = rt_domain n \<and>
     rt_paths e = rt_paths n \<and> rt_tls e = rt_tls n \<and> rt_algorithm e = rt_algorithm n \<and>
     rt_rules e = rt_rules n \<and> rt_route_version e = rt_route_version n"

definition is_api_domain :: "string \<Rightarrow> route \<Rightarrow> bool" where
  "is_api_domain d r \<longleftrightarrow> rt_source r = Api \<and> rt_domain r = d"

definition upsert_api_route :: "route \<Rightarrow> route_table \<Rightarrow> route_table" where
  "upsert_api_route r t =
     (if list_ex (\<lambda>e. api_routes_equivalent e r) (snapshot t) then t
      else replace_all (filter (\<lambda>e. \<not> is_api_domain (rt_domain r) e) (snapshot t) @ [r]) t)"

definition delete_api_domain :: "string \<Rightarrow> route_table \<Rightarrow> bool \<times> route_table" where
  "delete_api_domain d t =
     (let before = snapshot t; after = filter (\<lambda>r. \<not> is_api_domain d r) before
      in (length before \<noteq> length after, replace_all after t))"

subsection \<open>Health\<close>

text \<open>The loops over the upstreams of a route: \<open>f\<close> for its paths, \<open>g\<close> for its rules.\<close>

definition map_path_upstreams :: "(upstream \<Rightarrow> upstream) \<Rightarrow> path_route \<Rightarrow> path_route" where
  "map_path_upstreams f p = p\<lparr>pr_upstreams := map f (pr_upstreams p)\<rparr>"

definition map_route_upstreams ::
    "(path_route \<Rightarrow> upstream \<Rightarrow> upstream) \<Rightarrow> (upstream \<Rightarrow> upstream) \<Rightarrow> route \<Rightarrow> route" where
  "map_route_upstreams f g r =
     r\<lparr>rt_paths := map (\<lambda>p. map_path_upstreams (f p) p) (rt_paths r),
       rt_rules := (rt_rules r)
         \<lparr>dr_traffic_splits := map (\<lambda>s. s\<lparr>ts_upstreams := map g (ts_upstreams s)\<rparr>)
            (dr_traffic_splits (rt_rules r)),
          dr_location_routes := map (\<lambda>l. l\<lparr>lr_upstreams := map g (lr_upstreams l)\<rparr>)
            (dr_location_routes (rt_rules r))\<rparr>\<rparr>"

definition apply_health :: "(string, bool) hmap \<Rightarrow> upstream \<Rightarrow> upstream" where
  "apply_health health u =
     (case hm_get health (up_url u) of None \<Rightarrow> u | Some h \<Rightarrow> u\<lparr>up_healthy := h\<rparr>)"

definition set_upstream_health :: "(string, bool) hmap \<Rightarrow> route_table \<Rightarrow> route_table" where
  "set_upstream_health health t =
     (if health = [] then t
      else replace_all (map (map_route_upstreams (\<lambda>_. apply_health health) (apply_health health))
             (snapshot t)) t)"

definition set_single_upstream_health :: "string \<Rightarrow> bool \<Rightarrow> route_table \<Rightarrow> route_table" where
  "set_single_upstream_health url healthy t = set_upstream_health [(url, healthy)] t"

definition set_url_health :: "string \<Rightarrow> bool \<Rightarrow> upstream \<Rightarrow> upstream" where
  "set_url_health url healthy u = (if up_url u = url then u\<lparr>up_healthy := healthy\<rparr> else u)"

definition update_route_health :: "route_upstream_health \<Rightarrow> string \<Rightarrow> route \<Rightarrow> route" where
  "update_route_health upd domain r =
     (if rt_domain r \<noteq> domain then r
      else map_route_upstreams
        (\<lambda>p u. if pr_prefix p = ruh_path_prefix upd
               then set_url_health (ruh_upstream_url upd) (ruh_healthy upd) u else u)
        (set_url_health (ruh_upstream_url upd) (ruh_healthy upd)) r)"

definition update_ignored :: "route_upstream_health \<Rightarrow> bool" where
  "update_ignored upd \<longleftrightarrow>
     normalize_domain (ruh_domain upd) = [] \<or> trim (ruh_upstream_url upd) = []"

definition set_route_upstream_health :: "route_upstream_health \<Rightarrow> route_table \<Rightarrow> route_table" where
  "set_route_upstream_health upd t =
     (if update_ignored upd then t
      else replace_all
        (map (update_route_health upd (normalize_domain (ruh_domain upd))) (snapshot t)) t)"

definition set_route_upstream_health_many ::
    "route_upstream_health list \<Rightarrow> route_table \<Rightarrow> route_table" where
  "set_route_upstream_health_many upds t =
     (if upds = [] then t
      else replace_all (foldl (\<lambda>rs upd.
             if update_ignored upd then rs
             else map (update_route_health upd (normalize_domain (ruh_domain upd))) rs)
           (snapshot t) upds) t)"

subsection \<open>Lookup\<close>

definition source_priority :: "route_source \<Rightarrow> nat" where
  "source_priority s = (case s of Static \<Rightarrow> 1 | Docker \<Rightarrow> 2 | Podman \<Rightarrow> 2 | Api \<Rightarrow> 3)"

definition is_apex_like_domain :: "string \<Rightarrow> bool" where
  "is_apex_like_domain d \<longleftrightarrow> length (filter (\<lambda>p. p \<noteq> []) (split_on CHR ''.'' d)) = 2"

definition route_allows_www_alias :: "string \<Rightarrow> bool \<Rightarrow> bool" where
  "route_allows_www_alias d www_alias \<longleftrightarrow>
     www_alias \<and> \<not> starts_with d ''www.'' \<and> is_apex_like_domain d"

definition www_alias_base :: "string \<Rightarrow> string option" where
  "www_alias_base d = (case strip_prefix d ''www.'' of None \<Rightarrow> None
     | Some base \<Rightarrow> if base \<noteq> [] \<and> \<not> starts_with base ''www.'' then Some base else None)"

definition alias_ok :: "route \<Rightarrow> bool" where
  "alias_ok r \<longleftrightarrow> route_allows_www_alias (rt_domain r) (dr_www_alias (rt_rules r))"

definition matching_routes ::
    "route_table \<Rightarrow> string \<Rightarrow> string \<Rightarrow> bool \<Rightarrow> route_match list" where
  "matching_routes t domain path require_www_alias =
     List.map_filter (\<lambda>r. map_option (\<lambda>p. \<lparr>rm_route = r, rm_path = p\<rparr>) (best_path r path))
       (filter (\<lambda>r. \<not> require_www_alias \<or> alias_ok r) (hm_get_or (rtb_by_domain t) domain []))"

definition extend_unique_upstreams :: "upstream list \<Rightarrow> upstream list \<Rightarrow> upstream list" where
  "extend_unique_upstreams target ups =
     foldl (\<lambda>acc u. if list_ex (\<lambda>e. up_url e = up_url u) acc then acc else acc @ [u]) target ups"

definition extend_unique_middlewares :: "string list \<Rightarrow> string list \<Rightarrow> string list" where
  "extend_unique_middlewares target ms =
     foldl (\<lambda>acc m. if m \<in> set acc then acc else acc @ [m]) target ms"

definition extend_path :: "path_route \<Rightarrow> path_route \<Rightarrow> path_route" where
  "extend_path target p = target
     \<lparr>pr_upstreams := extend_unique_upstreams (pr_upstreams target) (pr_upstreams p),
      pr_middlewares := extend_unique_middlewares (pr_middlewares target) (pr_middlewares p)\<rparr>"

definition list_max :: "nat list \<Rightarrow> nat option" where
  "list_max xs = max_by_key (\<lambda>x. x) xs"

definition merge_best_route_matches :: "route_match list \<Rightarrow> route_match option" where
  "merge_best_route_matches ms =
     (case list_max (map (\<lambda>m. length (pr_prefix (rm_path m))) ms) of None \<Rightarrow> None
      | Some best_len \<Rightarrow>
        (case list_max (map (\<lambda>m. source_priority (rt_source (rm_route m)))
                 (filter (\<lambda>m. length (pr_prefix (rm_path m)) = best_len) ms)) of None \<Rightarrow> None
         | Some best_priority \<Rightarrow>
           (case filter (\<lambda>m. length (pr_prefix (rm_path m)) = best_len \<and>
                    source_priority (rt_source (rm_route m)) = best_priority) ms of
              [] \<Rightarrow> None
            | first # rest \<Rightarrow>
                let path = foldl (\<lambda>p m. extend_path p (rm_path m)) (rm_path first) rest
                in Some \<lparr>rm_route = (rm_route first)\<lparr>rt_paths := [path]\<rparr>, rm_path = path\<rparr>)))"

definition find_route :: "string \<Rightarrow> string \<Rightarrow> route_table \<Rightarrow> route_match option" where
  "find_route host path t =
     (let h = normalize_domain host in
      if h = [] then None
      else
        (let matches = matching_routes t h path False;
             matches = (if matches = [] then
                          (case www_alias_base h of None \<Rightarrow> []
                           | Some base \<Rightarrow> matching_routes t base path True)
                        else matches)
         in merge_best_route_matches matches))"

definition required_match :: "string \<Rightarrow> string \<Rightarrow> route_table \<Rightarrow> pxxl_error + route_match" where
  "required_match host path t =
     (case find_route host path t of None \<Rightarrow> Inl (RouteNotFound host path) | Some m \<Rightarrow> Inr m)"

text \<open>The \<open>BTreeMap\<close> of merged paths: its values in the order of the prefixes.\<close>

definition merge_path_entry :: "(string, path_route) hmap \<Rightarrow> path_route \<Rightarrow> (string, path_route) hmap" where
  "merge_path_entry m p =
     (let entry = hm_get_or m (pr_prefix p)
            \<lparr>pr_prefix = pr_prefix p, pr_upstreams = [], pr_middlewares = pr_middlewares p\<rparr>
      in hm_insert (pr_prefix p) (extend_path entry p) m)"

definition btree_values :: "('k::linorder, 'v) hmap \<Rightarrow> 'v list" where
  "btree_values m = map snd (sort_key fst m)"

definition merge_best_domain_routes :: "route list \<Rightarrow> route option" where
  "merge_best_domain_routes rs =
     (case list_max (map (\<lambda>r. source_priority (rt_source r)) rs) of None \<Rightarrow> None
      | Some best_priority \<Rightarrow>
        (case filter (\<lambda>r. source_priority (rt_source r) = best_priority) rs of
           [] \<Rightarrow> None
         | [r] \<Rightarrow> Some r
         | first # rest \<Rightarrow>
             Some (first\<lparr>rt_paths := btree_values
               (foldl merge_path_entry [] (concat (map rt_paths (first # rest))))\<rparr>)))"

definition find_domain :: "string \<Rightarrow> route_table \<Rightarrow> route option" where
  "find_domain domain t =
     (let n = normalize_domain domain in
      case merge_best_domain_routes (hm_get_or (rtb_by_domain t) n []) of
        Some r \<Rightarrow> Some r
      | None \<Rightarrow>
          (case www_alias_base n of None \<Rightarrow> None
           | Some base \<Rightarrow> merge_best_domain_routes
               (filter alias_ok (hm_get_or (rtb_by_domain t) base []))))"

section \<open>The table\<close>

subsection \<open>Deduplication\<close>

text \<open>
  Deduplication is the sequence of map insertions of the routes under their keys: the first
  occurrence of a key fixes the position, the last one the route.
\<close>

abbreviation keyed :: "route list \<Rightarrow> (string, route) hmap" where
  "keyed rs \<equiv> map (\<lambda>r. (dedupe_key r, r)) rs"

definition positions_ok :: "route list \<Rightarrow> (string, nat) hmap \<Rightarrow> bool" where
  "positions_ok merged positions \<longleftrightarrow> distinct (map dedupe_key merged) \<and>
     (\<forall>k i. hm_get positions k = Some i \<longleftrightarrow> i < length merged \<and> dedupe_key (merged ! i) = k)"

lemma keyed_update_present:
  assumes "distinct (map dedupe_key m)" and "i < length m" and "dedupe_key (m ! i) = dedupe_key r"
  shows "keyed (m[i := r]) = hm_insert (dedupe_key r) r (keyed m)"
  using assms
proof (induction m arbitrary: i)
  case (Cons x xs)
  show ?case
  proof (cases i)
    case 0
    with Cons.prems show ?thesis by (simp add: hm_insert_def)
  next
    case (Suc j)
    with Cons.prems have "dedupe_key x \<noteq> dedupe_key r"
      by (metis distinct.simps(2) length_Cons list.set_map list.simps(9) nth_Cons_Suc nth_map nth_mem
          image_eqI not_less_eq)
    with Suc Cons show ?thesis by (simp add: hm_insert_def)
  qed
qed simp

lemma keyed_update_absent:
  "\<forall>x\<in>set m. dedupe_key x \<noteq> dedupe_key r \<Longrightarrow>
   hm_insert (dedupe_key r) r (keyed m) = keyed m @ [(dedupe_key r, r)]"
  by (induction m) (auto simp: hm_insert_def)

lemma positions_ok_present:
  assumes "positions_ok m ps" and "hm_get ps (dedupe_key r) = Some i"
  shows "positions_ok (m[i := r]) ps" and "i < length m" and "dedupe_key (m ! i) = dedupe_key r"
proof -
  show i: "i < length m" "dedupe_key (m ! i) = dedupe_key r"
    using assms by (auto simp: positions_ok_def)
  then have "map dedupe_key (m[i := r]) = map dedupe_key m"
    by (simp add: map_update list_update_same_conv)
  then show "positions_ok (m[i := r]) ps"
    using assms(1) i by (auto simp: positions_ok_def nth_list_update)
qed

lemma positions_ok_absent:
  assumes "positions_ok m ps" and "hm_get ps (dedupe_key r) = None"
  shows "positions_ok (m @ [r]) (hm_insert (dedupe_key r) (length m) ps)"
    and "\<forall>x\<in>set m. dedupe_key x \<noteq> dedupe_key r"
proof -
  show fresh: "\<forall>x\<in>set m. dedupe_key x \<noteq> dedupe_key r"
    using assms by (auto simp: positions_ok_def in_set_conv_nth) (metis option.distinct(1))
  then show "positions_ok (m @ [r]) (hm_insert (dedupe_key r) (length m) ps)"
    using assms(1) by (auto simp: positions_ok_def nth_append less_Suc_eq)
qed

lemma dedupe_loop_insert:
  "positions_ok m ps \<Longrightarrow>
   keyed (dedupe_loop m ps rs) = foldl (\<lambda>a r. hm_insert (dedupe_key r) r a) (keyed m) rs"
proof (induction rs arbitrary: m ps)
  case (Cons r rs)
  show ?case
  proof (cases "hm_get ps (dedupe_key r)")
    case None
    with Cons.IH positions_ok_absent [OF Cons.prems None] show ?thesis
      by (simp add: keyed_update_absent)
  next
    case (Some i)
    have "distinct (map dedupe_key m)" using Cons.prems by (simp add: positions_ok_def)
    with Some Cons.IH positions_ok_present [OF Cons.prems Some] show ?thesis
      by (simp add: keyed_update_present)
  qed
qed simp

lemma keyed_dedupe: "keyed (dedupe_routes rs) = foldl (\<lambda>a r. hm_insert (dedupe_key r) r a) [] rs"
  using dedupe_loop_insert [of "[]" "[]" rs] by (simp add: dedupe_routes_def positions_ok_def)

lemma keyed_inj: "keyed xs = keyed ys \<Longrightarrow> xs = ys"
  by (metis (no_types, lifting) map_map map_idI comp_apply snd_conv list.map_cong0)

lemma hm_wf_keyed: "hm_wf (keyed rs) \<longleftrightarrow> distinct (map dedupe_key rs)"
  by (simp add: hm_wf_def comp_def)

lemma dedupe_distinct: "distinct (map dedupe_key (dedupe_routes rs))"
proof -
  have "hm_wf (foldl (\<lambda>a r. hm_insert (dedupe_key r) r a) m rs)" if "hm_wf m" for m
    using that by (induction rs arbitrary: m) auto
  from this [of "[]"] show ?thesis by (simp add: keyed_dedupe [symmetric] hm_wf_keyed)
qed

lemma dedupe_lookup: "map_of (keyed (dedupe_routes rs)) k = map_of (rev (keyed rs)) k"
proof -
  have "map_of (foldl (\<lambda>a r. hm_insert (dedupe_key r) r a) m rs) k = map_of (rev (keyed rs) @ m) k" for m
    by (induction rs arbitrary: m) (auto simp: map_add_def split: option.splits)
  from this [of "[]"] show ?thesis by (simp add: keyed_dedupe)
qed

lemma dedupe_id: "distinct (map dedupe_key rs) \<Longrightarrow> dedupe_routes rs = rs"
  using foldl_insert_fresh [of "[]" dedupe_key rs "\<lambda>r. r"]
  by (intro keyed_inj) (simp add: keyed_dedupe)

lemma set_dedupe: "set (dedupe_routes rs) \<subseteq> set rs"
proof
  fix r assume "r \<in> set (dedupe_routes rs)"
  then have "map_of (keyed (dedupe_routes rs)) (dedupe_key r) = Some r"
    using dedupe_distinct by (intro map_of_is_SomeI) (auto simp: comp_def)
  then show "r \<in> set rs" unfolding dedupe_lookup by (auto dest!: map_of_SomeD)
qed

subsection \<open>The index\<close>

definition table_wf :: "route_table \<Rightarrow> bool" where
  "table_wf t \<longleftrightarrow> distinct (map dedupe_key (rtb_routes t)) \<and> hm_wf (rtb_by_domain t) \<and>
     (\<forall>d. hm_get_or (rtb_by_domain t) d [] = filter (\<lambda>r. rt_domain r = d) (rtb_routes t))"

lemma index_lookup:
  "hm_get_or (foldl index_route m rs) d [] = hm_get_or m d [] @ filter (\<lambda>r. rt_domain r = d) rs"
  by (induction rs arbitrary: m) (auto simp: index_route_def)

lemma index_wf: "hm_wf m \<Longrightarrow> hm_wf (foldl index_route m rs)"
  by (induction rs arbitrary: m) (auto simp: index_route_def)

lemma hm_get_or_Nil [simp]: "hm_get_or [] k d = d"
  by (simp add: hm_get_or_def)

lemma new_table_wf: "table_wf (new_table rs)"
  by (simp add: table_wf_def new_table_def Let_def dedupe_distinct index_lookup index_wf)

lemma snapshot_new_table [simp]: "snapshot (new_table rs) = dedupe_routes rs"
  by (simp add: snapshot_def new_table_def Let_def)

lemma table_wf_snapshot: "table_wf t \<Longrightarrow> dedupe_routes (snapshot t) = snapshot t"
  by (simp add: table_wf_def snapshot_def dedupe_id)

lemma table_lookup:
  "table_wf t \<Longrightarrow> hm_get_or (rtb_by_domain t) d [] = filter (\<lambda>r. rt_domain r = d) (snapshot t)"
  by (simp add: table_wf_def snapshot_def)

subsection \<open>Loading and storing\<close>

text \<open>
  The contract of a store behind an atomic pointer: a load returns the last value stored, in
  normal form. A client that loads, computes and stores is atomic only as a whole; the block
  derives what two clients leave behind when their loads and stores interleave.
\<close>

locale swap_store =
  fixes load :: "'s \<Rightarrow> 'v" and store :: "'v \<Rightarrow> 's \<Rightarrow> 's" and norm :: "'v \<Rightarrow> 'v"
    and wf :: "'s \<Rightarrow> bool"
  assumes load_store: "load (store v s) = norm v"
    and wf_store: "wf (store v s)"
    and load_norm: "wf s \<Longrightarrow> norm (load s) = load s"
begin

lemma update_normal: "norm (f (load s)) = f (load s) \<Longrightarrow> load (store (f (load s)) s) = f (load s)"
  by (simp add: load_store)

lemma store_last: "load (store v (store w s)) = norm v"
  by (simp add: load_store)

lemma interleaved_store:
  "load (store (g (load s)) (store (f (load s)) s)) = load (store (g (load s)) s)"
  by (simp add: load_store)

lemma store_load: "wf s \<Longrightarrow> load (store (load s) s) = load s"
  by (simp add: load_store load_norm)

end

interpretation reg: swap_store snapshot replace_all dedupe_routes table_wf
  by unfold_locales (simp_all add: replace_all_def new_table_wf table_wf_snapshot)

lemma dedupe_key_map:
  assumes "\<And>r. r \<in> set rs \<Longrightarrow> dedupe_key (f r) = dedupe_key r" and "distinct (map dedupe_key rs)"
  shows "dedupe_routes (map f rs) = map f rs"
proof -
  have "map dedupe_key (map f rs) = map dedupe_key rs" using assms(1) by simp
  with assms(2) have "distinct (map dedupe_key (map f rs))" by (simp only:)
  then show ?thesis by (rule dedupe_id)
qed

lemma dedupe_filter:
  "distinct (map dedupe_key rs) \<Longrightarrow> dedupe_routes (filter P rs) = filter P rs"
  by (intro dedupe_id) (simp add: distinct_map_filter)

lemma table_wf_distinct: "table_wf t \<Longrightarrow> distinct (map dedupe_key (snapshot t))"
  by (simp add: table_wf_def snapshot_def)

subsection \<open>Every operation keeps the table well formed\<close>

lemma registry_ops_wf:
  assumes "table_wf t"
  shows "table_wf (replace_all rs t)" "table_wf (replace_source s rs t)"
    "table_wf (upsert_api_route r t)" "table_wf (snd (delete_api_domain d t))"
    "table_wf (set_upstream_health h t)" "table_wf (set_single_upstream_health u b t)"
    "table_wf (set_route_upstream_health upd t)" "table_wf (set_route_upstream_health_many upds t)"
  using assms reg.wf_store
  by (simp_all add: replace_source_def upsert_api_route_def delete_api_domain_def Let_def
      set_upstream_health_def set_single_upstream_health_def set_route_upstream_health_def
      set_route_upstream_health_many_def)

subsection \<open>What the updates leave\<close>

lemma delete_snapshot:
  "table_wf t \<Longrightarrow> snapshot (snd (delete_api_domain d t)) = filter (\<lambda>r. \<not> is_api_domain d r) (snapshot t)"
  by (simp add: delete_api_domain_def Let_def reg.load_store dedupe_filter table_wf_distinct)

lemma api_key_prefix: "rt_source r = Api \<Longrightarrow> dedupe_key r = ''api:'' @ rt_domain r"
  by (simp add: dedupe_key_def)

lemma non_api_key: "rt_source r \<noteq> Api \<Longrightarrow> \<not> prefix ''api:'' (dedupe_key r)"
  by (cases "rt_source r") (auto simp: dedupe_key_def source_debug_def)

lemma api_key_eq:
  assumes "rt_source r = Api"
  shows "dedupe_key e = dedupe_key r \<longleftrightarrow> is_api_domain (rt_domain r) e"
proof (cases "rt_source e = Api")
  case True
  with assms show ?thesis by (simp add: api_key_prefix is_api_domain_def)
next
  case False
  then have "dedupe_key e \<noteq> dedupe_key r"
    using non_api_key [OF False] api_key_prefix [OF assms] by (metis prefixI)
  with False show ?thesis by (simp add: is_api_domain_def)
qed

lemma upsert_snapshot:
  assumes "table_wf t" and "rt_source r = Api"
    and "\<not> list_ex (\<lambda>e. api_routes_equivalent e r) (snapshot t)"
  shows "snapshot (upsert_api_route r t) =
    filter (\<lambda>e. \<not> is_api_domain (rt_domain r) e) (snapshot t) @ [r]"
proof -
  let ?old = "filter (\<lambda>e. \<not> is_api_domain (rt_domain r) e) (snapshot t)"
  have "dedupe_key e \<noteq> dedupe_key r" if "e \<in> set ?old" for e
    using that api_key_eq [OF assms(2), of e] by auto
  then have "dedupe_key r \<notin> dedupe_key ` set ?old" by (metis imageE)
  then have "distinct (map dedupe_key (?old @ [r]))"
    using table_wf_distinct [OF assms(1)] by (simp add: distinct_map_filter)
  then show ?thesis
    using assms(3) by (simp add: upsert_api_route_def reg.load_store dedupe_id)
qed

lemma api_domain_unique:
  assumes "table_wf t" and "e \<in> set (snapshot t)" and "is_api_domain d e"
  shows "filter (is_api_domain d) (snapshot t) = [e]"
proof -
  let ?f = "filter (is_api_domain d) (snapshot t)"
  have dist: "distinct (map dedupe_key ?f)"
    using table_wf_distinct [OF assms(1)] by (rule distinct_map_filter)
  have key: "\<forall>x\<in>set ?f. dedupe_key x = ''api:'' @ d"
    by (auto simp: is_api_domain_def api_key_prefix)
  have mem: "e \<in> set ?f" using assms(2,3) by simp
  have "?f = [] \<or> (\<exists>x. ?f = [x])"
  proof (cases ?f)
    case (Cons x xs)
    show ?thesis
    proof (cases xs)
      case (Cons y ys)
      with \<open>?f = x # xs\<close> key dist show ?thesis by simp
    qed (use Cons in simp)
  qed simp
  then show ?thesis
  proof (elim disjE exE)
    fix x assume "?f = [x]"
    with mem show ?thesis by (metis empty_iff empty_set set_ConsD)
  qed (use mem in \<open>metis empty_iff empty_set\<close>)
qed

lemma filter_length_neq: "length xs \<noteq> length (filter P xs) \<longleftrightarrow> (\<exists>x\<in>set xs. \<not> P x)"
  by (metis filter_True length_filter_less nat_less_le)

lemma delete_reports:
  "fst (delete_api_domain d t) \<longleftrightarrow> (\<exists>e\<in>set (snapshot t). is_api_domain d e)"
  by (simp add: delete_api_domain_def Let_def filter_length_neq)

lemma equivalent_is_api: "api_routes_equivalent e r \<Longrightarrow> is_api_domain (rt_domain r) e"
  by (simp add: api_routes_equivalent_def is_api_domain_def)

lemma equivalent_refl: "rt_source r = Api \<Longrightarrow> api_routes_equivalent r r"
  by (simp add: api_routes_equivalent_def)

lemma upsert_others:
  assumes "table_wf t" and "rt_source r = Api"
  shows "filter (\<lambda>e. \<not> is_api_domain (rt_domain r) e) (snapshot (upsert_api_route r t)) =
    filter (\<lambda>e. \<not> is_api_domain (rt_domain r) e) (snapshot t)"
proof (cases "list_ex (\<lambda>e. api_routes_equivalent e r) (snapshot t)")
  case True
  then show ?thesis by (simp add: upsert_api_route_def)
next
  case False
  have "is_api_domain (rt_domain r) r" using assms(2) by (simp add: is_api_domain_def)
  then show ?thesis by (simp add: upsert_snapshot [OF assms False])
qed

lemma upsert_one:
  assumes "table_wf t" and "rt_source r = Api"
  shows "\<exists>e. filter (is_api_domain (rt_domain r)) (snapshot (upsert_api_route r t)) = [e] \<and>
    api_routes_equivalent e r"
proof (cases "list_ex (\<lambda>e. api_routes_equivalent e r) (snapshot t)")
  case True
  then obtain e where e: "e \<in> set (snapshot t)" "api_routes_equivalent e r"
    by (auto simp: list_ex_iff)
  with True api_domain_unique [OF assms(1) e(1) equivalent_is_api [OF e(2)]] show ?thesis
    by (auto simp: upsert_api_route_def)
next
  case False
  have "is_api_domain (rt_domain r) r" using assms(2) by (simp add: is_api_domain_def)
  then show ?thesis
    by (simp add: upsert_snapshot [OF assms False] equivalent_refl [OF assms(2)])
qed

lemma dedupe_key_source:
  assumes "dedupe_key a = dedupe_key b"
  shows "rt_source a = rt_source b"
  using assms
  by (cases "rt_source a"; cases "rt_source b") (simp_all add: dedupe_key_def source_debug_def)

lemma dedupe_append:
  assumes "distinct (map dedupe_key xs)" and "\<forall>x\<in>set xs. \<forall>y\<in>set ys. dedupe_key x \<noteq> dedupe_key y"
  shows "dedupe_routes (xs @ ys) = xs @ dedupe_routes ys"
proof -
  have "foldl (\<lambda>a r. hm_insert (dedupe_key r) r a) (m1 @ m2) ys =
      m1 @ foldl (\<lambda>a r. hm_insert (dedupe_key r) r a) m2 ys"
    if "\<forall>y\<in>set ys. dedupe_key y \<notin> fst ` set m1" for m1 m2
    using that by (induction ys arbitrary: m2) (simp_all add: hm_insert_append)
  from this [of "keyed xs" "[]"] assms(2)
  have "foldl (\<lambda>a r. hm_insert (dedupe_key r) r a) (keyed xs) ys = keyed xs @ keyed (dedupe_routes ys)"
    by (force simp: keyed_dedupe)
  moreover have "foldl (\<lambda>a r. hm_insert (dedupe_key r) r a) [] xs = keyed xs"
    using keyed_dedupe [of xs] dedupe_id [OF assms(1)] by simp
  ultimately have "keyed (dedupe_routes (xs @ ys)) = keyed (xs @ dedupe_routes ys)"
    by (simp add: keyed_dedupe [of "xs @ ys"])
  then show ?thesis by (rule keyed_inj)
qed

lemma replace_source_snapshot:
  assumes "table_wf t" and "\<forall>e\<in>set rs. rt_source e = s"
  shows "snapshot (replace_source s rs t) =
    filter (\<lambda>e. rt_source e \<noteq> s) (snapshot t) @ dedupe_routes rs"
proof -
  let ?old = "filter (\<lambda>e. rt_source e \<noteq> s) (snapshot t)"
  have "distinct (map dedupe_key ?old)"
    using table_wf_distinct [OF assms(1)] by (rule distinct_map_filter)
  moreover have "dedupe_key x \<noteq> dedupe_key y" if "x \<in> set ?old" "y \<in> set rs" for x y
    using that assms(2) dedupe_key_source [of x y] by auto
  ultimately show ?thesis
    by (simp add: replace_source_def reg.load_store dedupe_append)
qed

section \<open>Merging\<close>

lemma list_max_None [simp]: "list_max xs = None \<longleftrightarrow> xs = []"
  by (simp add: list_max_def)

lemma list_maxD: "list_max xs = Some m \<Longrightarrow> m \<in> set xs \<and> (\<forall>x\<in>set xs. x \<le> m)"
  unfolding list_max_def by (auto dest: max_by_key_in_set max_by_key_ge)

lemma extend_unique_step:
  "extend_unique_upstreams t (u # us) =
   extend_unique_upstreams (if list_ex (\<lambda>e. up_url e = up_url u) t then t else t @ [u]) us"
  by (simp add: extend_unique_upstreams_def)

lemma extend_unique_Nil [simp]: "extend_unique_upstreams t [] = t"
  by (simp add: extend_unique_upstreams_def)

lemma extend_unique_urls:
  "up_url ` set (extend_unique_upstreams t us) = up_url ` set t \<union> up_url ` set us"
proof (induction us arbitrary: t)
  case (Cons u us)
  have "up_url u \<in> up_url ` set t" if "list_ex (\<lambda>e. up_url e = up_url u) t"
    using that by (auto simp: list_ex_iff image_iff intro: sym)
  with Cons show ?case by (auto simp: extend_unique_step)
qed simp

lemma extend_unique_subset: "set (extend_unique_upstreams t us) \<subseteq> set t \<union> set us"
proof (induction us arbitrary: t)
  case (Cons u us)
  show ?case
    using Cons.IH [of t] Cons.IH [of "t @ [u]"] by (auto simp: extend_unique_step)
qed simp

lemma extend_unique_distinct:
  "distinct (map up_url t) \<Longrightarrow> distinct (map up_url (extend_unique_upstreams t us))"
proof (induction us arbitrary: t)
  case (Cons u us)
  have "distinct (map up_url (t @ [u]))" if "\<not> list_ex (\<lambda>e. up_url e = up_url u) t"
    using that Cons.prems by (auto simp: list_ex_iff)
  with Cons show ?case by (simp add: extend_unique_step)
qed simp

lemma extend_path_fold:
  defines "ext \<equiv> foldl (\<lambda>p m. extend_path p (rm_path m))"
  shows "pr_prefix (ext p ms) = pr_prefix p"
    and "up_url ` set (pr_upstreams (ext p ms)) =
      up_url ` (set (pr_upstreams p) \<union> (\<Union>m\<in>set ms. set (pr_upstreams (rm_path m))))"
    and "set (pr_upstreams (ext p ms)) \<subseteq>
      set (pr_upstreams p) \<union> (\<Union>m\<in>set ms. set (pr_upstreams (rm_path m)))"
  unfolding ext_def
proof (induction ms arbitrary: p)
  case (Cons m ms)
  {
    case 1
    show ?case by (simp add: Cons(1)) (simp add: extend_path_def)
  next
    case 2
    show ?case using Cons(2) [of "extend_path p (rm_path m)"]
      by (auto simp: extend_path_def extend_unique_urls image_Un)
  next
    case 3
    show ?case
      using Cons(3) [of "extend_path p (rm_path m)"]
        extend_unique_subset [of "pr_upstreams p" "pr_upstreams (rm_path m)"]
      by (auto simp: extend_path_def)
  }
qed auto

text \<open>The matches that a merge selects: the longest prefixes, of the highest priority among them.\<close>

abbreviation match_len :: "route_match \<Rightarrow> nat" where
  "match_len m \<equiv> length (pr_prefix (rm_path m))"

abbreviation match_priority :: "route_match \<Rightarrow> nat" where
  "match_priority m \<equiv> source_priority (rt_source (rm_route m))"

definition beats :: "route_match \<Rightarrow> route_match \<Rightarrow> bool" where
  "beats a b \<longleftrightarrow> match_len b < match_len a \<or> match_len b = match_len a \<and> match_priority b \<le> match_priority a"

definition winners :: "route_match list \<Rightarrow> route_match list" where
  "winners ms = filter (\<lambda>m. \<forall>m'\<in>set ms. beats m m') ms"

lemma winners_char:
  assumes "ms \<noteq> []"
  obtains l p where "list_max (map match_len ms) = Some l"
    "list_max (map match_priority (filter (\<lambda>m. match_len m = l) ms)) = Some p"
    "winners ms = filter (\<lambda>m. match_len m = l \<and> match_priority m = p) ms" "winners ms \<noteq> []"
proof -
  from assms obtain l where L: "list_max (map match_len ms) = Some l"
    by (cases "list_max (map match_len ms)") auto
  let ?best = "filter (\<lambda>m. match_len m = l) ms"
  have l: "l \<in> match_len ` set ms" "\<forall>m\<in>set ms. match_len m \<le> l" using list_maxD [OF L] by auto
  then have "?best \<noteq> []" by (auto simp: filter_empty_conv)
  then obtain p where p: "list_max (map match_priority ?best) = Some p"
    by (cases "list_max (map match_priority ?best)") auto
  have pr: "p \<in> match_priority ` set ?best" "\<forall>m\<in>set ?best. match_priority m \<le> p"
    using list_maxD [OF p] by auto
  have w: "winners ms = filter (\<lambda>m. match_len m = l \<and> match_priority m = p) ms"
    unfolding winners_def
  proof (rule filter_cong [OF refl])
    fix m assume "m \<in> set ms"
    then show "(\<forall>m'\<in>set ms. beats m m') \<longleftrightarrow> match_len m = l \<and> match_priority m = p"
      using l pr by (fastforce simp: beats_def)
  qed
  with pr have "winners ms \<noteq> []" by (auto simp: filter_empty_conv)
  with that L p w show ?thesis by blast
qed

lemma winners_Nil [simp]: "winners ms = [] \<longleftrightarrow> ms = []"
  by (cases "ms = []") (auto simp: winners_def elim: winners_char)

lemma merge_winners:
  "merge_best_route_matches ms = (case winners ms of [] \<Rightarrow> None | first # rest \<Rightarrow>
     let path = foldl (\<lambda>p m. extend_path p (rm_path m)) (rm_path first) rest
     in Some \<lparr>rm_route = (rm_route first)\<lparr>rt_paths := [path]\<rparr>, rm_path = path\<rparr>)"
proof (cases "ms = []")
  case True
  then show ?thesis by (simp add: merge_best_route_matches_def winners_def list_max_def)
next
  case False
  then obtain l p where "list_max (map match_len ms) = Some l"
    "list_max (map match_priority (filter (\<lambda>m. match_len m = l) ms)) = Some p"
    "winners ms = filter (\<lambda>m. match_len m = l \<and> match_priority m = p) ms" "winners ms \<noteq> []"
    by (rule winners_char)
  then show ?thesis by (simp add: merge_best_route_matches_def split: list.split)
qed

lemma merge_None [simp]: "merge_best_route_matches ms = None \<longleftrightarrow> ms = []"
proof (cases "winners ms")
  case Nil
  then have "ms = []" by simp
  then show ?thesis by (simp add: merge_winners winners_def)
next
  case (Cons w ws)
  moreover have "ms \<noteq> []" using Cons winners_Nil [of ms] by auto
  ultimately show ?thesis by (simp add: merge_winners Let_def)
qed

lemma merge_SomeD:
  assumes "merge_best_route_matches ms = Some m"
  shows "\<exists>first rest. winners ms = first # rest \<and> rm_route m = (rm_route first)\<lparr>rt_paths := [rm_path m]\<rparr> \<and>
    pr_prefix (rm_path m) = pr_prefix (rm_path first) \<and>
    up_url ` set (pr_upstreams (rm_path m)) =
      up_url ` (\<Union>w\<in>set (winners ms). set (pr_upstreams (rm_path w))) \<and>
    set (pr_upstreams (rm_path m)) \<subseteq> (\<Union>w\<in>set (winners ms). set (pr_upstreams (rm_path w)))"
proof (cases "winners ms")
  case Nil
  with assms show ?thesis by (simp add: merge_winners)
next
  case (Cons first rest)
  let ?path = "foldl (\<lambda>p m. extend_path p (rm_path m)) (rm_path first) rest"
  have m: "m = \<lparr>rm_route = (rm_route first)\<lparr>rt_paths := [?path]\<rparr>, rm_path = ?path\<rparr>"
    using assms Cons by (simp add: merge_winners Let_def)
  show ?thesis
    using Cons extend_path_fold [of "rm_path first" rest]
    by (intro exI [of _ first] exI [of _ rest]) (simp add: m)
qed

section \<open>Lookup against the flat list of routes\<close>

definition serves :: "string \<Rightarrow> route \<Rightarrow> bool" where
  "serves path r \<longleftrightarrow> list_ex (\<lambda>p. path_matches p path) (rt_paths r)"

text \<open>
  The routes that may answer a host and a path: those of the host itself, or else those of
  the base domain that allow the \<open>www\<close> alias.
\<close>

definition serving :: "route list \<Rightarrow> string \<Rightarrow> string \<Rightarrow> route list" where
  "serving rs h path =
     (let direct = filter (\<lambda>r. rt_domain r = h \<and> serves path r) rs in
      if direct \<noteq> [] then direct
      else case www_alias_base h of None \<Rightarrow> []
        | Some base \<Rightarrow> filter (\<lambda>r. rt_domain r = base \<and> alias_ok r \<and> serves path r) rs)"

lemma best_path_None: "best_path r path = None \<longleftrightarrow> \<not> serves path r"
  by (auto simp: best_path_def serves_def filter_empty_conv list_ex_iff)

lemma best_path_SomeD:
  "best_path r path = Some p \<Longrightarrow> p \<in> set (rt_paths r) \<and> path_matches p path \<and>
   (\<forall>q\<in>set (rt_paths r). path_matches q path \<longrightarrow> length (pr_prefix q) \<le> length (pr_prefix p))"
  by (auto simp: best_path_def dest: max_by_key_in_set max_by_key_ge)

definition best_match :: "string \<Rightarrow> route \<Rightarrow> route_match" where
  "best_match path r = \<lparr>rm_route = r, rm_path = the (best_path r path)\<rparr>"

lemma matching_routes_flat:
  assumes "table_wf t"
  shows "matching_routes t d path alias =
    map (best_match path) (filter (\<lambda>r. rt_domain r = d \<and> (\<not> alias \<or> alias_ok r) \<and> serves path r) (snapshot t))"
proof -
  have "List.map_filter (\<lambda>r. map_option (\<lambda>p. \<lparr>rm_route = r, rm_path = p\<rparr>) (best_path r path)) rs =
      map (best_match path) (filter (serves path) rs)" for rs
    by (induction rs) (auto simp: map_filter_simps best_match_def best_path_None [symmetric]
        split: option.splits)
  then show ?thesis
    by (simp add: matching_routes_def table_lookup [OF assms] conj_commute conj_left_commute)
qed

lemma find_route_flat:
  assumes "table_wf t"
  shows "find_route host path t =
    (if normalize_domain host = [] then None
     else merge_best_route_matches
       (map (best_match path) (serving (snapshot t) (normalize_domain host) path)))"
  by (auto simp: find_route_def serving_def matching_routes_flat [OF assms] Let_def
      split: option.split)

lemma serving_serves: "r \<in> set (serving rs h path) \<Longrightarrow> r \<in> set rs \<and> serves path r"
  by (auto simp: serving_def Let_def split: if_splits option.splits)

lemma find_route_winner:
  assumes "table_wf t" and "find_route host path t = Some m"
  defines "rs \<equiv> serving (snapshot t) (normalize_domain host) path"
  obtains r where "r \<in> set rs" "rm_route m = r\<lparr>rt_paths := [rm_path m]\<rparr>"
    "pr_prefix (rm_path m) = pr_prefix (the (best_path r path))"
    "\<forall>r'\<in>set rs. beats (best_match path r) (best_match path r')"
    "set (pr_upstreams (rm_path m)) \<subseteq> (\<Union>r\<in>set rs. set (pr_upstreams (the (best_path r path))))"
proof -
  have m: "merge_best_route_matches (map (best_match path) rs) = Some m"
    using assms by (auto simp: find_route_flat split: if_splits)
  from merge_SomeD [OF m] obtain first rest where
    w: "winners (map (best_match path) rs) = first # rest"
    and f: "rm_route m = (rm_route first)\<lparr>rt_paths := [rm_path m]\<rparr>"
      "pr_prefix (rm_path m) = pr_prefix (rm_path first)"
      "set (pr_upstreams (rm_path m)) \<subseteq>
        (\<Union>w\<in>set (winners (map (best_match path) rs)). set (pr_upstreams (rm_path w)))" by blast
  have sub: "set (winners (map (best_match path) rs)) \<subseteq> best_match path ` set rs"
    and beat: "\<forall>r'\<in>set rs. beats first (best_match path r')"
    using w by (auto simp: winners_def filter_eq_Cons_iff)
  then obtain r where r: "r \<in> set rs" "first = best_match path r" using w by auto
  have "set (pr_upstreams (rm_path m)) \<subseteq> (\<Union>w\<in>best_match path ` set rs. set (pr_upstreams (rm_path w)))"
    using f(3) sub by blast
  also have "\<dots> = (\<Union>r\<in>set rs. set (pr_upstreams (the (best_path r path))))"
    by (simp add: best_match_def)
  finally show ?thesis
    using that [of r] r f(1,2) beat by (simp add: best_match_def)
qed

section \<open>Health updates\<close>

text \<open>Two routes that differ at most in the health of their upstreams.\<close>

definition same_upstream :: "upstream \<Rightarrow> upstream \<Rightarrow> bool" where
  "same_upstream u v \<longleftrightarrow> u\<lparr>up_healthy := True\<rparr> = v\<lparr>up_healthy := True\<rparr>"

definition health_blind :: "route \<Rightarrow> route" where
  "health_blind r = map_route_upstreams (\<lambda>_ u. u\<lparr>up_healthy := True\<rparr>) (\<lambda>u. u\<lparr>up_healthy := True\<rparr>) r"

lemma map_route_frame [frame_simps]:
  "rt_id (map_route_upstreams f g r) = rt_id r" "rt_domain (map_route_upstreams f g r) = rt_domain r"
  "rt_source (map_route_upstreams f g r) = rt_source r"
  "rt_algorithm (map_route_upstreams f g r) = rt_algorithm r"
  "rt_tls (map_route_upstreams f g r) = rt_tls r"
  by (simp_all add: map_route_upstreams_def)

lemma dedupe_key_map_route: "dedupe_key (map_route_upstreams f g r) = dedupe_key r"
  by (cases "rt_source r") (simp_all add: dedupe_key_def frame_simps)

lemma health_blind_map:
  assumes "\<And>p u. (f p u)\<lparr>up_healthy := True\<rparr> = u\<lparr>up_healthy := True\<rparr>"
    and "\<And>u. (g u)\<lparr>up_healthy := True\<rparr> = u\<lparr>up_healthy := True\<rparr>"
  shows "health_blind (map_route_upstreams f g r) = health_blind r"
  by (simp add: health_blind_def map_route_upstreams_def map_path_upstreams_def comp_def assms)

lemma apply_health_blind: "(apply_health h u)\<lparr>up_healthy := True\<rparr> = u\<lparr>up_healthy := True\<rparr>"
  by (simp add: apply_health_def split: option.split)

lemma set_url_health_blind: "(set_url_health url b u)\<lparr>up_healthy := True\<rparr> = u\<lparr>up_healthy := True\<rparr>"
  by (simp add: set_url_health_def)

lemma update_route_health_blind: "health_blind (update_route_health upd d r) = health_blind r"
  by (auto simp: update_route_health_def set_url_health_blind intro!: health_blind_map)

lemma dedupe_key_update: "dedupe_key (update_route_health upd d r) = dedupe_key r"
  by (simp add: update_route_health_def dedupe_key_map_route)

lemma set_upstream_health_snapshot:
  assumes "table_wf t"
  shows "snapshot (set_upstream_health h t) =
    map (map_route_upstreams (\<lambda>_. apply_health h) (apply_health h)) (snapshot t)"
proof (cases "h = []")
  case True
  have "map_route_upstreams (\<lambda>_. apply_health []) (apply_health []) r = r" for r
    by (simp add: map_route_upstreams_def map_path_upstreams_def apply_health_def map_idI)
  with True show ?thesis by (simp add: set_upstream_health_def map_idI)
next
  case False
  then show ?thesis
    using assms by (simp add: set_upstream_health_def reg.load_store dedupe_key_map
        dedupe_key_map_route table_wf_distinct)
qed

lemma set_route_health_snapshot:
  assumes "table_wf t" and "\<not> update_ignored upd"
  shows "snapshot (set_route_upstream_health upd t) =
    map (update_route_health upd (normalize_domain (ruh_domain upd))) (snapshot t)"
  using assms by (simp add: set_route_upstream_health_def reg.load_store dedupe_key_map
      dedupe_key_update table_wf_distinct)

lemma set_many_snapshot:
  assumes "table_wf t"
  shows "snapshot (set_route_upstream_health_many upds t) =
    snapshot (foldl (\<lambda>t upd. set_route_upstream_health upd t) t upds)"
proof -
  let ?step = "\<lambda>rs upd. if update_ignored upd then rs
     else map (update_route_health upd (normalize_domain (ruh_domain upd))) rs"
  have wf: "table_wf (foldl (\<lambda>t upd. set_route_upstream_health upd t) t upds)" if "table_wf t" for t
    using that by (induction upds arbitrary: t) (simp_all add: registry_ops_wf)
  have "snapshot (foldl (\<lambda>t upd. set_route_upstream_health upd t) t upds) =
      foldl ?step (snapshot t) upds" if "table_wf t" for t
    using that
  proof (induction upds arbitrary: t)
    case (Cons upd upds)
    have "snapshot (set_route_upstream_health upd t) = ?step (snapshot t) upd"
      using Cons.prems set_route_health_snapshot [OF Cons.prems]
      by (simp add: set_route_upstream_health_def)
    with Cons registry_ops_wf(7) [OF Cons.prems] show ?case by simp
  qed simp
  note eq = this [OF assms]
  have "dedupe_routes (foldl ?step (snapshot t) upds) = foldl ?step (snapshot t) upds"
    using table_wf_snapshot [OF wf [OF assms]] by (simp add: eq)
  then show ?thesis
    by (simp add: set_route_upstream_health_many_def eq reg.load_store)
qed

section \<open>Reachable registries\<close>

inductive registry_step :: "route_table \<Rightarrow> route_table \<Rightarrow> bool" where
  step_replace_all: "registry_step t (replace_all rs t)"
| step_replace_source: "registry_step t (replace_source s rs t)"
| step_upsert: "registry_step t (upsert_api_route r t)"
| step_delete: "registry_step t (snd (delete_api_domain d t))"
| step_health: "registry_step t (set_upstream_health h t)"
| step_single: "registry_step t (set_single_upstream_health u b t)"
| step_route_health: "registry_step t (set_route_upstream_health upd t)"
| step_route_health_many: "registry_step t (set_route_upstream_health_many upds t)"

inductive registry_reachable :: "route_table \<Rightarrow> bool" where
  reach_new: "registry_reachable (new_table rs)"
| reach_step: "registry_reachable t \<Longrightarrow> registry_step t t' \<Longrightarrow> registry_reachable t'"

inductive_cases registry_stepE: "registry_step t t'"

lemma registry_step_wf: "registry_step t t' \<Longrightarrow> table_wf t \<Longrightarrow> table_wf t'"
  by (erule registry_stepE) (simp_all add: registry_ops_wf)

lemma reachable_wf: "registry_reachable t \<Longrightarrow> table_wf t"
  by (induction rule: registry_reachable.induct) (auto simp: new_table_wf dest: registry_step_wf)

section \<open>Concurrent updates\<close>

text \<open>
  Threads that each load the table and later store the result of their update function: a
  schedule is the order in which the loads and stores happen.
\<close>

datatype rmw = LoadBy nat | StoreBy nat

fun rmw_run :: "(nat \<Rightarrow> route list \<Rightarrow> route list) \<Rightarrow> rmw list \<Rightarrow>
    (nat \<Rightarrow> route list) \<Rightarrow> route_table \<Rightarrow> route_table" where
  "rmw_run ops [] seen t = t"
| "rmw_run ops (LoadBy i # es) seen t = rmw_run ops es (seen(i := snapshot t)) t"
| "rmw_run ops (StoreBy i # es) seen t = rmw_run ops es seen (replace_all (ops i (seen i)) t)"

definition source_update :: "route_source \<Rightarrow> route list \<Rightarrow> route list \<Rightarrow> route list" where
  "source_update s rs old = filter (\<lambda>r. rt_source r \<noteq> s) old @ rs"

lemma rmw_atomic:
  "rmw_run ops [LoadBy i, StoreBy i] seen t = replace_all (ops i (snapshot t)) t"
  by simp

lemma replace_source_rmw: "replace_source s rs t = replace_all (source_update s rs (snapshot t)) t"
  by (simp add: replace_source_def source_update_def)

section \<open>Properties\<close>

text \<open>
  C31. In every reachable registry no two routes share a key (source, domain and id, or domain
  alone for API routes), and the index returns, for each domain, exactly the routes of that
  domain in table order.
\<close>

theorem registry_index_sound:
  assumes "registry_reachable t"
  shows "distinct (map dedupe_key (snapshot t)) \<and>
    hm_get_or (rtb_by_domain t) d [] = filter (\<lambda>r. rt_domain r = d) (snapshot t)"
  using reachable_wf [OF assms] by (simp add: table_wf_distinct table_lookup)

definition demo_route :: "string \<Rightarrow> route_source \<Rightarrow> string \<Rightarrow> route" where
  "demo_route i s url = new_route 0 i ''a.com'' [new_path_route ''/'' [new_upstream url]] s"

theorem registry_index_sound_witness:
  "let t = upsert_api_route (demo_route ''x'' Api ''http://u'') (new_table [demo_route ''d'' Docker ''http://v'']) in
   hm_get_or (rtb_by_domain t) ''a.com'' [] = filter (\<lambda>r. rt_domain r = ''a.com'') (snapshot t)"
proof -
  have "registry_reachable (upsert_api_route (demo_route ''x'' Api ''http://u'')
      (new_table [demo_route ''d'' Docker ''http://v'']))"
    by (rule reach_step [OF reach_new step_upsert])
  from registry_index_sound [OF this] show ?thesis by (simp add: Let_def)
qed

text \<open>
  C2. Lookup returns the best route. In a reachable registry \<open>find_route\<close> fails exactly when the
  host is empty or no route serves it (none of its own, and none of its base domain that
  allows the \<open>www\<close> alias). Otherwise the answer is one of the serving routes, reduced to one
  path whose prefix matches; no serving route has a longer matching prefix, none with an
  equally long one has a higher source priority, and its upstreams are upstreams of matching
  paths.
\<close>

theorem find_route_best:
  fixes host path :: string
  assumes "registry_reachable t"
  defines "h \<equiv> normalize_domain host"
  defines "rs \<equiv> serving (snapshot t) h path"
  shows "(find_route host path t = None \<longleftrightarrow> h = [] \<or> rs = []) \<and>
    (\<forall>m. find_route host path t = Some m \<longrightarrow>
      (\<exists>r\<in>set rs. \<exists>p\<in>set (rt_paths r). path_matches p path \<and>
         rm_route m = r\<lparr>rt_paths := [rm_path m]\<rparr> \<and> pr_prefix (rm_path m) = pr_prefix p \<and>
         (\<forall>r'\<in>set rs. \<forall>p'\<in>set (rt_paths r'). path_matches p' path \<longrightarrow>
            length (pr_prefix p') < length (pr_prefix p) \<or>
            length (pr_prefix p') = length (pr_prefix p) \<and>
            source_priority (rt_source r') \<le> source_priority (rt_source r))) \<and>
      (\<forall>u\<in>set (pr_upstreams (rm_path m)). \<exists>r\<in>set rs. \<exists>p\<in>set (rt_paths r).
         path_matches p path \<and> u \<in> set (pr_upstreams p)))"
proof (intro conjI allI impI)
  note wf = reachable_wf [OF assms(1)]
  show "find_route host path t = None \<longleftrightarrow> h = [] \<or> rs = []"
    by (simp add: find_route_flat [OF wf] h_def rs_def)
  fix m assume m: "find_route host path t = Some m"
  have best: "\<exists>p. best_path r path = Some p" if "r \<in> set rs" for r
    using that serving_serves best_path_None [of r path] unfolding rs_def by fastforce
  from find_route_winner [OF wf m] obtain r where r: "r \<in> set rs"
    "rm_route m = r\<lparr>rt_paths := [rm_path m]\<rparr>"
    "pr_prefix (rm_path m) = pr_prefix (the (best_path r path))"
    "\<forall>r'\<in>set rs. beats (best_match path r) (best_match path r')"
    and ups: "set (pr_upstreams (rm_path m)) \<subseteq> (\<Union>r\<in>set rs. set (pr_upstreams (the (best_path r path))))"
    unfolding rs_def h_def by blast
  from best [OF r(1)] obtain p where p: "best_path r path = Some p" by blast
  have "length (pr_prefix p') < length (pr_prefix p) \<or> length (pr_prefix p') = length (pr_prefix p) \<and>
      source_priority (rt_source r') \<le> source_priority (rt_source r)"
    if "r' \<in> set rs" "p' \<in> set (rt_paths r')" "path_matches p' path" for r' p'
  proof -
    from best [OF that(1)] obtain q where q: "best_path r' path = Some q" by blast
    have "length (pr_prefix p') \<le> length (pr_prefix q)" using best_path_SomeD [OF q] that by blast
    with r(4) that(1) p q show ?thesis by (fastforce simp: beats_def best_match_def)
  qed
  with r(1-3) p best_path_SomeD [OF p]
  show "\<exists>r\<in>set rs. \<exists>p\<in>set (rt_paths r). path_matches p path \<and>
      rm_route m = r\<lparr>rt_paths := [rm_path m]\<rparr> \<and> pr_prefix (rm_path m) = pr_prefix p \<and>
      (\<forall>r'\<in>set rs. \<forall>p'\<in>set (rt_paths r'). path_matches p' path \<longrightarrow>
         length (pr_prefix p') < length (pr_prefix p) \<or>
         length (pr_prefix p') = length (pr_prefix p) \<and>
         source_priority (rt_source r') \<le> source_priority (rt_source r))"
    by (intro bexI [of _ r] bexI [of _ p]) auto
  show "\<forall>u\<in>set (pr_upstreams (rm_path m)). \<exists>r\<in>set rs. \<exists>p\<in>set (rt_paths r).
      path_matches p path \<and> u \<in> set (pr_upstreams p)"
    using ups best best_path_SomeD by fastforce
qed

theorem find_route_best_witness:
  "let t = new_table [demo_route ''d'' Docker ''http://v'', demo_route ''x'' Api ''http://u'']
   in \<exists>m r p. find_route ''A.com:443'' ''/x'' t = Some m \<and> rt_source (rm_route m) = Api \<and>
        r \<in> set (serving (snapshot t) ''a.com'' ''/x'') \<and> p \<in> set (rt_paths r) \<and>
        path_matches p ''/x'' \<and> rm_route m = r\<lparr>rt_paths := [rm_path m]\<rparr>"
proof -
  let ?t = "new_table [demo_route ''d'' Docker ''http://v'', demo_route ''x'' Api ''http://u'']"
  have n: "normalize_domain ''A.com:443'' = ''a.com''" by code_simp
  have "map_option (\<lambda>m. rt_source (rm_route m)) (find_route ''A.com:443'' ''/x'' ?t) = Some Api"
    by code_simp
  then obtain m where m: "find_route ''A.com:443'' ''/x'' ?t = Some m" "rt_source (rm_route m) = Api"
    by blast
  note best = conjunct1 [OF mp [OF spec [OF conjunct2 [OF find_route_best [OF reach_new]]] m(1)]]
  from best obtain r p where "r \<in> set (serving (snapshot ?t) ''a.com'' ''/x'')"
    "p \<in> set (rt_paths r)" "path_matches p ''/x''" "rm_route m = r\<lparr>rt_paths := [rm_path m]\<rparr>"
    unfolding n by blast
  with m show ?thesis unfolding Let_def by (intro exI [of _ m] exI [of _ r] exI [of _ p] conjI)
qed

text \<open>
  Updates by domain and by source touch nothing else. In a reachable registry, after
  upserting an API route the domain has exactly one API route, equal to the new one up to
  timestamps, and all other routes stay in order; deleting a domain removes exactly its API
  routes and reports whether there were any; replacing a source keeps the routes of all
  other sources in order and installs the last route given for each key.
\<close>

theorem registry_updates:
  assumes "registry_reachable t"
  shows "(rt_source r = Api \<longrightarrow>
      filter (\<lambda>e. \<not> is_api_domain (rt_domain r) e) (snapshot (upsert_api_route r t)) =
        filter (\<lambda>e. \<not> is_api_domain (rt_domain r) e) (snapshot t) \<and>
      (\<exists>e. filter (is_api_domain (rt_domain r)) (snapshot (upsert_api_route r t)) = [e] \<and>
         api_routes_equivalent e r)) \<and>
    snapshot (snd (delete_api_domain d t)) = filter (\<lambda>e. \<not> is_api_domain d e) (snapshot t) \<and>
    (fst (delete_api_domain d t) \<longleftrightarrow> (\<exists>e\<in>set (snapshot t). is_api_domain d e)) \<and>
    ((\<forall>e\<in>set rs. rt_source e = s) \<longrightarrow>
      filter (\<lambda>e. rt_source e \<noteq> s) (snapshot (replace_source s rs t)) =
        filter (\<lambda>e. rt_source e \<noteq> s) (snapshot t) \<and>
      filter (\<lambda>e. rt_source e = s) (snapshot (replace_source s rs t)) = dedupe_routes rs)"
proof -
  note wf = reachable_wf [OF assms]
  have "filter (\<lambda>e. rt_source e \<noteq> s) (dedupe_routes rs) = []"
    "filter (\<lambda>e. rt_source e = s) (dedupe_routes rs) = dedupe_routes rs"
    if "\<forall>e\<in>set rs. rt_source e = s"
    using that set_dedupe [of rs] by (auto simp: filter_empty_conv filter_id_conv)
  then show ?thesis
    using upsert_others [OF wf] upsert_one [OF wf] delete_snapshot [OF wf] delete_reports
      replace_source_snapshot [OF wf] by simp
qed

theorem registry_updates_witness:
  "let t = new_table [demo_route ''d'' Docker ''http://v'']; r = demo_route ''x'' Api ''http://u'' in
   (\<exists>e. filter (is_api_domain ''a.com'') (snapshot (upsert_api_route r t)) = [e] \<and>
      api_routes_equivalent e r)"
proof -
  let ?r = "demo_route ''x'' Api ''http://u''"
  have "rt_source ?r = Api" "rt_domain ?r = ''a.com''"
    by (simp_all add: demo_route_def new_route_def) code_simp
  with registry_updates [OF reach_new, of ?r "[demo_route ''d'' Docker ''http://v'']" "[]" "[]" Docker]
  show ?thesis by (simp add: Let_def)
qed

text \<open>
  A health report changes health flags and nothing else: in a reachable registry,
  \<open>set_upstream_health\<close> sets the flag of every upstream whose URL is in the report, in the
  paths, traffic splits and location routes of all routes, leaves the others alone, and
  neither adds, removes nor reorders routes; a batch of per-route reports has the effect of
  applying them one after the other.
\<close>

theorem health_updates_only_health:
  assumes "registry_reachable t"
  shows "snapshot (set_upstream_health h t) =
      map (map_route_upstreams (\<lambda>_. apply_health h) (apply_health h)) (snapshot t) \<and>
    map health_blind (snapshot (set_upstream_health h t)) = map health_blind (snapshot t) \<and>
    map health_blind (snapshot (set_route_upstream_health upd t)) = map health_blind (snapshot t) \<and>
    snapshot (set_route_upstream_health_many upds t) =
      snapshot (foldl (\<lambda>t upd. set_route_upstream_health upd t) t upds)"
proof -
  note wf = reachable_wf [OF assms]
  note snap = set_upstream_health_snapshot [OF wf]
  have "health_blind (map_route_upstreams (\<lambda>_. apply_health h) (apply_health h) r) = health_blind r" for r
    by (rule health_blind_map) (rule apply_health_blind)+
  then have "map health_blind (snapshot (set_upstream_health h t)) = map health_blind (snapshot t)"
    by (simp add: snap)
  moreover have "map health_blind (snapshot (set_route_upstream_health upd t)) = map health_blind (snapshot t)"
    using set_route_health_snapshot [OF wf, of upd]
    by (cases "update_ignored upd")
       (simp_all add: set_route_upstream_health_def update_route_health_blind)
  ultimately show ?thesis using snap set_many_snapshot [OF wf] by simp
qed

theorem health_updates_only_health_witness:
  "let t = new_table [demo_route ''x'' Api ''http://u''] in
   map health_blind (snapshot (set_upstream_health [(''http://u'', False)] t)) =
     map health_blind (snapshot t)"
  unfolding Let_def using health_updates_only_health [OF reach_new] by blast

text \<open>
  Updates of the registry are not atomic: each loads the table, computes and stores. When
  two of them interleave so that both load before the first stores, the first leaves no
  trace, whatever the two updates are; run one after the other, both take effect.
\<close>

theorem concurrent_update_lost:
  "snapshot (rmw_run ops [LoadBy 0, LoadBy 1, StoreBy 0, StoreBy 1] seen t) =
     dedupe_routes (ops 1 (snapshot t)) \<and>
   snapshot (rmw_run ops [LoadBy 0, StoreBy 0, LoadBy 1, StoreBy 1] seen t) =
     dedupe_routes (ops 1 (dedupe_routes (ops 0 (snapshot t))))"
  by (simp add: reg.load_store)

end
