(* ===== verification/Step_Machines.thy ===== *)
theory Step_Machines
  imports Prelude
begin

text \<open>
  Components driven by a sequence of operations: a step function folded over the
  operations, an invariant that every allowed operation keeps, and what a component
  promises of a run. The interpretations are in the theories of the components.
\<close>

definition run_steps :: "('e \<Rightarrow> 's \<Rightarrow> 's) \<Rightarrow> 'e list \<Rightarrow> 's \<Rightarrow> 's" where
  "run_steps step es s = fold step es s"

lemma run_steps_simps [simp]:
  "run_steps step [] s = s" "run_steps step (e # es) s = run_steps step es (step e s)"
  by (simp_all add: run_steps_def)

lemma run_steps_append: "run_steps step (es @ fs) s = run_steps step fs (run_steps step es s)"
  by (simp add: run_steps_def)

locale step_machine =
  fixes step :: "'e \<Rightarrow> 's \<Rightarrow> 's" and allowed :: "'e \<Rightarrow> bool" and inv :: "'s \<Rightarrow> bool"
  assumes step_keeps: "inv s \<Longrightarrow> allowed e \<Longrightarrow> inv (step e s)"
begin

lemma run_keeps: "inv s \<Longrightarrow> \<forall>e\<in>set es. allowed e \<Longrightarrow> inv (run_steps step es s)"
  by (induction es arbitrary: s) (auto intro: step_keeps)

end

end
