(* ===== verification/Adaptive_Safety.thy ===== *)
theory Adaptive_Safety
  imports Adaptive_Block Step_Machines
begin

text \<open>
  The adaptive blocker over sequences of operations: what every operation keeps of its
  state, that a block is enforced until it expires, and that a restart from the
  snapshot file decides like the running process.
\<close>

section \<open>Definitions\<close>

text \<open>The operations of the shared blocker, each with the environment of its call.\<close>

datatype adaptive_op =
    CheckIp ip_addr
  | RecordRequest request_observation_input
  | UnblockIp ip_addr
  | UnwatchIp ip_addr

fun adaptive_apply ::
    "net_contains \<Rightarrow> environ \<times> adaptive_op \<Rightarrow> adaptive_blocker \<Rightarrow> adaptive_blocker" where
  "adaptive_apply contains (env, CheckIp ip) ab = snd (adaptive_check contains env ip ab)"
| "adaptive_apply contains (env, RecordRequest e) ab = snd (adaptive_record contains env e ab)"
| "adaptive_apply contains (env, UnblockIp ip) ab = snd (unblock env ip ab)"
| "adaptive_apply contains (env, UnwatchIp ip) ab = snd (unwatch env ip ab)"

definition exempt_in :: "net_contains \<Rightarrow> adaptive_block_config \<Rightarrow> ip_addr \<Rightarrow> bool" where
  "exempt_in contains c ip \<longleftrightarrow> list_ex (\<lambda>n. contains n ip) (ac_exempt_cidrs c)"

definition blocker_inv :: "net_contains \<Rightarrow> adaptive_block_config \<Rightarrow> adaptive_blocker \<Rightarrow> bool" where
  "blocker_inv contains c ab \<longleftrightarrow>
     ab_config ab = c \<and>
     hm_wf (ab_windows ab) \<and> hm_wf (ab_blocks ab) \<and> hm_wf (ab_watchlist ab) \<and>
     length (ab_windows ab) \<le> unat (ac_max_tracked_ips c) \<and>
     (\<forall>ip b. hm_get (ab_blocks ab) ip = Some b \<longrightarrow> bs_ip b = ip \<and> \<not> exempt_in contains c ip) \<and>
     (\<forall>ip w. hm_get (ab_watchlist ab) ip = Some w \<longrightarrow> we_ip w = ip \<and> \<not> exempt_in contains c ip)"

text \<open>An operation that neither unblocks the address nor runs on a clock past the deadline.\<close>

definition leaves_block :: "ip_addr \<Rightarrow> u64 \<Rightarrow> environ \<times> adaptive_op \<Rightarrow> bool" where
  "leaves_block ip deadline = (\<lambda>(env, oper).
     en_now_ms env < deadline \<and>
     (case oper of RecordRequest e \<Rightarrow> oi_timestamp_unix_ms e < deadline
                 | UnblockIp ip' \<Rightarrow> ip' \<noteq> ip | _ \<Rightarrow> True))"

section \<open>What the operations leave alone\<close>

lemma persist_fields [simp]:
  "ab_config (persist_snapshot env ab) = ab_config ab"
  "ab_windows (persist_snapshot env ab) = ab_windows ab"
  "ab_blocks (persist_snapshot env ab) = ab_blocks ab"
  "ab_watchlist (persist_snapshot env ab) = ab_watchlist ab"
  "ab_config (persist_watchlist_snapshot env ab) = ab_config ab"
  "ab_windows (persist_watchlist_snapshot env ab) = ab_windows ab"
  "ab_blocks (persist_watchlist_snapshot env ab) = ab_blocks ab"
  "ab_watchlist (persist_watchlist_snapshot env ab) = ab_watchlist ab"
  "ab_config (persist_if_due env ab) = ab_config ab"
  "ab_windows (persist_if_due env ab) = ab_windows ab"
  "ab_blocks (persist_if_due env ab) = ab_blocks ab"
  "ab_watchlist (persist_if_due env ab) = ab_watchlist ab"
  by (simp_all add: persist_snapshot_def persist_watchlist_snapshot_def persist_if_due_def)

lemma is_exempt_config: "is_exempt contains ip ab = exempt_in contains (ab_config ab) ip"
  by (simp add: is_exempt_def exempt_in_def)

lemma evict_fields [simp]:
  "ab_config (adaptive_evict_stale now ab) = ab_config ab"
  "ab_blocks (adaptive_evict_stale now ab) = ab_blocks ab"
  "ab_watchlist (adaptive_evict_stale now ab) = ab_watchlist ab"
  "ab_config (adaptive_evict_if_due env now ab) = ab_config ab"
  by (simp_all add: adaptive_evict_stale_def adaptive_evict_if_due_def Let_def)

lemma watch_fields [simp]:
  "ab_config (watch_ip env ip r t now ab) = ab_config ab"
  "ab_windows (watch_ip env ip r t now ab) = ab_windows ab"
  "ab_blocks (watch_ip env ip r t now ab) = ab_blocks ab"
  by (simp_all add: watch_ip_def Let_def)

lemma block_fields [simp]:
  "ab_config (snd (block_ip env ip r t now ab)) = ab_config ab"
  "ab_windows (snd (block_ip env ip r t now ab)) = ab_windows ab"
  "ab_watchlist (snd (block_ip env ip r t now ab)) = ab_watchlist ab"
  "ab_blocks (snd (block_ip env ip r t now ab)) =
     hm_insert ip (fst (block_ip env ip r t now ab)) (ab_blocks ab)"
  "bs_ip (fst (block_ip env ip r t now ab)) = ip"
  by (simp_all add: block_ip_def Let_def)

lemma check_fields [simp]:
  "ab_config (snd (adaptive_check contains env ip ab)) = ab_config ab"
  "ab_windows (snd (adaptive_check contains env ip ab)) = ab_windows ab"
  "ab_watchlist (snd (adaptive_check contains env ip ab)) = ab_watchlist ab"
  by (auto simp: adaptive_check_def split: option.splits)

lemma check_blocks:
  "ab_blocks (snd (adaptive_check contains env ip ab)) \<in> {ab_blocks ab, hm_remove ip (ab_blocks ab)}"
  by (auto simp: adaptive_check_def split: option.splits)

section \<open>The invariant\<close>

lemma inv_persist:
  "blocker_inv contains c ab \<Longrightarrow> blocker_inv contains c (persist_snapshot env ab)"
  "blocker_inv contains c ab \<Longrightarrow> blocker_inv contains c (persist_watchlist_snapshot env ab)"
  "blocker_inv contains c ab \<Longrightarrow> blocker_inv contains c (persist_if_due env ab)"
  by (simp_all add: blocker_inv_def is_exempt_config)

lemma inv_remove_block:
  "blocker_inv contains c ab \<Longrightarrow> blocker_inv contains c (ab\<lparr>ab_blocks := hm_remove ip (ab_blocks ab)\<rparr>)"
  by (auto simp: blocker_inv_def is_exempt_config)

lemma inv_remove_watch:
  "blocker_inv contains c ab \<Longrightarrow>
   blocker_inv contains c (ab\<lparr>ab_watchlist := hm_remove ip (ab_watchlist ab)\<rparr>)"
  by (auto simp: blocker_inv_def is_exempt_config)

lemma inv_check: "blocker_inv contains c ab \<Longrightarrow> blocker_inv contains c (snd (adaptive_check contains env ip ab))"
  by (auto simp: adaptive_check_def intro!: inv_persist inv_remove_block split: option.splits)

lemma inv_evict_stale: "blocker_inv contains c ab \<Longrightarrow> blocker_inv contains c (adaptive_evict_stale now ab)"
  using hm.entries_keep [of _ "ab_windows ab"]
  by (auto simp: blocker_inv_def is_exempt_config adaptive_evict_stale_def Let_def intro: order_trans)

lemma inv_evict_if_due:
  assumes "blocker_inv contains c ab"
  shows "blocker_inv contains c (adaptive_evict_if_due env now ab)"
proof (cases "en_now env - ab_last_eviction ab < from_secs 30")
  case False
  have "blocker_inv contains c (ab\<lparr>ab_last_eviction := en_now env\<rparr>)"
    using assms by (simp add: blocker_inv_def is_exempt_config)
  from inv_evict_stale [OF this] False show ?thesis
    by (simp add: blocker_inv_def adaptive_evict_if_due_def Let_def hm.wf_keep)
       (blast dest: hm.keep_survivor)
qed (use assms in \<open>simp add: adaptive_evict_if_due_def\<close>)

lemma inv_watch:
  assumes "blocker_inv contains c ab" and "\<not> is_exempt contains ip ab"
  shows "blocker_inv contains c (watch_ip env ip r t now ab)"
  using assms by (auto simp: blocker_inv_def is_exempt_config watch_ip_def Let_def)

lemma inv_block:
  assumes "blocker_inv contains c ab" and "\<not> is_exempt contains ip ab"
  shows "blocker_inv contains c (snd (block_ip env ip r t now ab))"
  using assms by (auto simp: blocker_inv_def is_exempt_config)

lemma inv_window:
  assumes "blocker_inv contains c ab" and "\<not> windows_full ip ab"
  shows "blocker_inv contains c (ab\<lparr>ab_windows := hm_insert ip w (ab_windows ab)\<rparr>)"
  using assms hm.guarded_put_bound [of "ab_windows ab" "unat (ac_max_tracked_ips c)" ip w]
  by (auto simp: blocker_inv_def is_exempt_config windows_full_def hm_contains_def)

text \<open>The two states a recorded request goes through, as equations.\<close>

definition watched_state :: "environ \<Rightarrow> request_observation_input \<Rightarrow> adaptive_blocker \<Rightarrow> adaptive_blocker" where
  "watched_state env e ab =
     (let w = observe_window (ab_config ab) e (hm_get_or (ab_windows ab) (oi_ip e) default_ip_window);
          ab = ab\<lparr>ab_windows := hm_insert (oi_ip e) w (ab_windows ab)\<rparr>
      in if should_watch (ab_config ab) (window_totals_of w)
         then watch_ip env (oi_ip e) ''suspicious_path_watch'' (window_totals_of w) (oi_timestamp_unix_ms e) ab
         else ab)"

definition counted_window :: "request_observation_input \<Rightarrow> adaptive_blocker \<Rightarrow> ip_window" where
  "counted_window e ab =
     observe_window (ab_config ab) e (hm_get_or (ab_windows ab) (oi_ip e) default_ip_window)"

definition admitted_state :: "net_contains \<Rightarrow> environ \<Rightarrow> request_observation_input \<Rightarrow> adaptive_blocker \<Rightarrow> adaptive_blocker" where
  "admitted_state contains env e ab =
     (let ab = snd (adaptive_check contains env (oi_ip e)
                 (persist_if_due env (adaptive_evict_if_due env (oi_timestamp_unix_ms e) ab)))
      in if windows_full (oi_ip e) ab then adaptive_evict_stale (oi_timestamp_unix_ms e) ab else ab)"

lemma track_request_eq:
  "track_request env e ab =
     (case trigger_reason (ab_config ab) (window_totals_of (counted_window e ab)) of
        None \<Rightarrow> (None, watched_state env e ab)
      | Some reason \<Rightarrow> apfst Some (block_ip env (oi_ip e) reason (window_totals_of (counted_window e ab))
          (oi_timestamp_unix_ms e) (watched_state env e ab)))"
  by (simp add: track_request_def watched_state_def counted_window_def Let_def apfst_def map_prod_def
      case_prod_beta split: option.split)

lemma adaptive_record_eq:
  assumes "ac_enabled (ab_config ab)" and "\<not> exempt_in contains (ab_config ab) (oi_ip e)"
  shows "adaptive_record contains env e ab =
     (let ab1 = persist_if_due env (adaptive_evict_if_due env (oi_timestamp_unix_ms e) ab);
          ab2 = admitted_state contains env e ab
      in if fst (adaptive_check contains env (oi_ip e) ab1) \<noteq> None
         then (None, snd (adaptive_check contains env (oi_ip e) ab1))
         else if windows_full (oi_ip e) ab2 then (None, ab2) else track_request env e ab2)"
  using assms
  by (simp add: adaptive_record_def admitted_state_def is_exempt_config Let_def case_prod_beta)

lemma watched_fields [simp]:
  "ab_config (watched_state env e ab) = ab_config ab"
  "ab_blocks (watched_state env e ab) = ab_blocks ab"
  by (simp_all add: watched_state_def Let_def)

lemma admitted_config [simp]: "ab_config (admitted_state contains env e ab) = ab_config ab"
  by (simp add: admitted_state_def Let_def)

lemma inv_watched:
  assumes "blocker_inv contains c ab" and "\<not> windows_full (oi_ip e) ab"
    and "\<not> exempt_in contains c (oi_ip e)"
  shows "blocker_inv contains c (watched_state env e ab)"
proof -
  have "ab_config ab = c" using assms(1) by (simp add: blocker_inv_def)
  with assms show ?thesis by (simp add: watched_state_def Let_def inv_watch inv_window is_exempt_config)
qed

lemma inv_track:
  assumes "blocker_inv contains c ab" and "\<not> windows_full (oi_ip e) ab"
    and "\<not> exempt_in contains c (oi_ip e)"
  shows "blocker_inv contains c (snd (track_request env e ab))"
proof -
  have "ab_config ab = c" using assms(1) by (simp add: blocker_inv_def)
  with inv_watched [OF assms] assms(3) show ?thesis
    by (simp add: track_request_eq inv_block is_exempt_config split: option.split)
qed

lemma inv_admitted: "blocker_inv contains c ab \<Longrightarrow> blocker_inv contains c (admitted_state contains env e ab)"
  by (simp add: admitted_state_def Let_def inv_check inv_persist inv_evict_if_due inv_evict_stale)

lemma inv_record:
  assumes "blocker_inv contains c ab"
  shows "blocker_inv contains c (snd (adaptive_record contains env e ab))"
proof (cases "\<not> ac_enabled (ab_config ab) \<or> is_exempt contains (oi_ip e) ab")
  case False
  moreover have "ab_config ab = c" using assms by (simp add: blocker_inv_def)
  ultimately show ?thesis using assms
    by (simp add: adaptive_record_eq is_exempt_config Let_def inv_track inv_admitted inv_check
        inv_persist inv_evict_if_due)
qed (use assms in \<open>simp add: adaptive_record_def\<close>)

lemma inv_apply: "blocker_inv contains c ab \<Longrightarrow> blocker_inv contains c (adaptive_apply contains oper ab)"
  by (cases "(contains, oper, ab)" rule: adaptive_apply.cases)
     (auto simp: unblock_def unwatch_def intro!: inv_check inv_record inv_persist inv_remove_block inv_remove_watch)

interpretation blocker: step_machine "adaptive_apply contains" "\<lambda>_. True" "blocker_inv contains c"
  by unfold_locales (rule inv_apply)

section \<open>A block until its deadline\<close>

definition holds_block :: "net_contains \<Rightarrow> adaptive_block_config \<Rightarrow> ip_addr \<Rightarrow> adaptive_block_snapshot \<Rightarrow> adaptive_blocker \<Rightarrow> bool" where
  "holds_block contains c ip b ab \<longleftrightarrow>
     blocker_inv contains c ab \<and> ac_enabled c \<and> hm_get (ab_blocks ab) ip = Some b"

lemma holds_check:
  assumes "holds_block contains c ip b ab" and "en_now_ms env < bs_expires_at_unix_ms b"
  shows "adaptive_check contains env ip ab = (Some (Blocked ADAPTIVE_BLOCK_REASON), ab)"
  using assms by (auto simp: holds_block_def blocker_inv_def adaptive_check_def is_exempt_config)

lemma check_keeps_block:
  assumes "hm_get (ab_blocks ab) ip = Some b" and "en_now_ms env < bs_expires_at_unix_ms b"
  shows "hm_get (ab_blocks (snd (adaptive_check contains env ip' ab))) ip = Some b"
  using assms by (auto simp: adaptive_check_def split: option.splits)

lemma evict_keeps_block:
  assumes "hm_get (ab_blocks ab) ip = Some b" and "hm_wf (ab_blocks ab)" and "now < bs_expires_at_unix_ms b"
  shows "hm_get (ab_blocks (adaptive_evict_if_due env now ab)) ip = Some b"
  using assms by (simp add: adaptive_evict_if_due_def Let_def hm.get_keep)

lemma record_keeps_block:
  assumes "holds_block contains c ip b ab" and "en_now_ms env < bs_expires_at_unix_ms b"
    and "oi_timestamp_unix_ms e < bs_expires_at_unix_ms b"
  shows "hm_get (ab_blocks (snd (adaptive_record contains env e ab))) ip = Some b"
proof (cases "exempt_in contains (ab_config ab) (oi_ip e)")
  case False
  define ab1 where "ab1 = persist_if_due env (adaptive_evict_if_due env (oi_timestamp_unix_ms e) ab)"
  have c: "ab_config ab = c" "hm_wf (ab_blocks ab)" "ac_enabled (ab_config ab)" "hm_get (ab_blocks ab) ip = Some b"
    using assms(1) by (auto simp: holds_block_def blocker_inv_def)
  have get1: "hm_get (ab_blocks ab1) ip = Some b"
    unfolding ab1_def using evict_keeps_block c(2,4) assms(3) by simp
  have inv1: "blocker_inv contains c ab1" unfolding ab1_def
    using assms(1) by (intro inv_persist inv_evict_if_due) (simp add: holds_block_def)
  have hold1: "holds_block contains c ip b ab1"
    using inv1 get1 assms(1) by (simp add: holds_block_def)
  have checked: "hm_get (ab_blocks (snd (adaptive_check contains env (oi_ip e) ab1))) ip = Some b"
    using get1 assms(2) by (rule check_keeps_block)
  then have admitted: "hm_get (ab_blocks (admitted_state contains env e ab)) ip = Some b"
    by (simp add: admitted_state_def Let_def ab1_def)
  show ?thesis
  proof (cases "oi_ip e = ip")
    case True
    then show ?thesis using holds_check [OF hold1 assms(2)] get1 False c
      by (simp add: adaptive_record_eq Let_def flip: ab1_def)
  next
    case other: False
    then show ?thesis using checked admitted False c
      by (simp add: adaptive_record_eq Let_def track_request_eq flip: ab1_def split: option.split)
  qed
qed (use assms in \<open>simp add: adaptive_record_def holds_block_def is_exempt_config\<close>)

lemma apply_holds:
  assumes "holds_block contains c ip b ab" and "leaves_block ip (bs_expires_at_unix_ms b) oper"
  shows "holds_block contains c ip b (adaptive_apply contains oper ab)"
proof -
  have "hm_get (ab_blocks (adaptive_apply contains oper ab)) ip = Some b"
    using assms
    by (cases "(contains, oper, ab)" rule: adaptive_apply.cases)
       (auto simp: leaves_block_def unblock_def unwatch_def record_keeps_block check_keeps_block holds_block_def)
  then show ?thesis using assms(1) by (simp add: holds_block_def inv_apply)
qed

interpretation blocked: step_machine "adaptive_apply contains" "leaves_block ip (bs_expires_at_unix_ms b)"
    "holds_block contains c ip b"
  by unfold_locales (rule apply_holds)

section \<open>Restarting from the snapshot files\<close>

text \<open>Both loaders insert the entries of a file that pass a test, each under its own address.\<close>

definition load_entries :: "('a \<Rightarrow> 'k) \<Rightarrow> ('a \<Rightarrow> bool) \<Rightarrow> 'a list \<Rightarrow> ('k, 'a) hmap \<Rightarrow> ('k, 'a) hmap" where
  "load_entries key P xs m = foldl (\<lambda>m x. if P x then hm_insert (key x) x m else m) m xs"

lemma load_entries_fresh:
  assumes "distinct (map key xs)" and "\<forall>x\<in>set xs. key x \<notin> fst ` set m"
  shows "load_entries key P xs m = m @ map (\<lambda>x. (key x, x)) (filter P xs)"
  using assms
proof (induction xs arbitrary: m)
  case (Cons x xs)
  then have "hm_insert (key x) x m = m @ [(key x, x)]" by (intro hm_insert_fresh) simp
  then show ?case using Cons.IH [of m] Cons.IH [of "m @ [(key x, x)]"] Cons.prems
    by (auto simp: load_entries_def image_iff eq_commute)
qed (simp add: load_entries_def)

lemma load_entries_wf: "hm_wf m \<Longrightarrow> hm_wf (load_entries key P xs m)"
  unfolding load_entries_def by (induction xs arbitrary: m) auto

lemma load_entries_get:
  "hm_get (load_entries key P xs m) k = Some x \<Longrightarrow> hm_get m k = Some x \<or> P x \<and> key x = k"
  unfolding load_entries_def
  by (induction xs arbitrary: m) (fastforce split: if_splits)+

lemma load_snapshot_entries:
  "load_snapshot contains env xs ab = ab\<lparr>ab_blocks := load_entries bs_ip (\<lambda>b.
     en_now_ms env < bs_expires_at_unix_ms b \<and> \<not> exempt_in contains (ab_config ab) (bs_ip b)) xs (ab_blocks ab)\<rparr>"
  unfolding load_snapshot_def load_entries_def
  by (induction xs arbitrary: ab) (simp_all add: is_exempt_config)

lemma load_watchlist_entries:
  "load_watchlist_snapshot contains env xs ab = ab\<lparr>ab_watchlist := load_entries we_ip (\<lambda>w.
     en_now_ms env < we_expires_at_unix_ms w \<and> \<not> exempt_in contains (ab_config ab) (we_ip w)) xs (ab_watchlist ab)\<rparr>"
  unfolding load_watchlist_snapshot_def load_entries_def
  by (induction xs arbitrary: ab) (simp_all add: is_exempt_config)

lemma inv_new: "blocker_inv contains c (new_adaptive_blocker contains env c bs ws)"
  by (auto simp: blocker_inv_def new_adaptive_blocker_def load_snapshot_entries load_watchlist_entries
      load_entries_wf dest!: load_entries_get)

text \<open>The entries of a keyed map, each stored under its own address, and loaded again.\<close>

lemma keyed_self:
  assumes "hm_wf m" and "\<And>k x. hm_get m k = Some x \<Longrightarrow> key x = k"
  shows "map (\<lambda>x. (key x, x)) (map snd m) = m" and "distinct (map key (map snd m))"
proof -
  have "\<And>k x. (k, x) \<in> set m \<Longrightarrow> key x = k"
    using assms by (simp add: hm_wf_def)
  then have eq: "map (\<lambda>p. key (snd p)) m = map fst m" by (auto intro!: map_cong)
  then show "distinct (map key (map snd m))" using assms(1)
    by (simp only: hm_wf_def map_map comp_def)
  show "map (\<lambda>x. (key x, x)) (map snd m) = m"
    using \<open>\<And>k x. (k, x) \<in> set m \<Longrightarrow> key x = k\<close> by (auto simp: comp_def intro!: map_idI)
qed

lemma reload_entries:
  assumes "hm_wf m" and keyed: "\<And>k x. hm_get m k = Some x \<Longrightarrow> key x = k \<and> P k"
    and "\<And>x. live2 x \<Longrightarrow> live1 x"
  shows "load_entries key (\<lambda>x. live2 x \<and> P (key x)) (filter live1 (map snd m)) [] =
    filter (\<lambda>(k, x). live2 x) m"
proof -
  have keys: "\<And>k x. (k, x) \<in> set m \<Longrightarrow> key x = k \<and> P k"
    using assms(1) keyed by (simp add: hm_wf_def)
  have "distinct (map key (filter live1 (map snd m)))"
    using keyed_self(2) [OF assms(1), of key] keyed by (simp add: distinct_map_filter)
  then have "load_entries key (\<lambda>x. live2 x \<and> P (key x)) (filter live1 (map snd m)) [] =
      map (\<lambda>x. (key x, x)) (filter (\<lambda>x. live2 x \<and> P (key x)) (filter live1 (map snd m)))"
    by (simp add: load_entries_fresh)
  also have "\<dots> = filter (\<lambda>(k, x). live2 x) m"
    using keys
  proof (induction m)
    case (Cons p m)
    obtain k x where p: "p = (k, x)" by (cases p)
    with Cons.prems [of k x] have "key x = k" "P k" by simp_all
    with Cons p assms(3) [of x] show ?case by auto
  qed simp
  finally show ?thesis .
qed

lemma restart_state:
  assumes inv: "blocker_inv contains c ab" and "en_io_ok env1" and "en_now_ms env1 \<le> en_now_ms env2"
  defines "saved \<equiv> persist_watchlist_snapshot env1 (persist_snapshot env1 ab)"
  defines "ab' \<equiv> new_adaptive_blocker contains env2 c (ab_blocks_file saved) (ab_watchlist_file saved)"
  shows "ab_config ab' = c"
    and "ab_blocks ab' = filter (\<lambda>(ip, b). en_now_ms env2 < bs_expires_at_unix_ms b) (ab_blocks ab)"
    and "ab_watchlist ab' = filter (\<lambda>(ip, w). en_now_ms env2 < we_expires_at_unix_ms w) (ab_watchlist ab)"
proof -
  have files: "ab_blocks_file saved = filter (\<lambda>b. en_now_ms env1 < bs_expires_at_unix_ms b) (map snd (ab_blocks ab))"
    "ab_watchlist_file saved = filter (\<lambda>w. en_now_ms env1 < we_expires_at_unix_ms w) (map snd (ab_watchlist ab))"
    using assms(2) by (simp_all add: saved_def persist_snapshot_def persist_watchlist_snapshot_def)
  show "ab_config ab' = c"
    by (simp add: ab'_def new_adaptive_blocker_def load_snapshot_entries load_watchlist_entries)
  show "ab_blocks ab' = filter (\<lambda>(ip, b). en_now_ms env2 < bs_expires_at_unix_ms b) (ab_blocks ab)"
    using reload_entries [of "ab_blocks ab" bs_ip "\<lambda>ip. \<not> exempt_in contains c ip"
        "\<lambda>b. en_now_ms env2 < bs_expires_at_unix_ms b" "\<lambda>b. en_now_ms env1 < bs_expires_at_unix_ms b"]
      inv assms(3)
    by (simp add: ab'_def new_adaptive_blocker_def load_snapshot_entries load_watchlist_entries files
        blocker_inv_def)
  show "ab_watchlist ab' = filter (\<lambda>(ip, w). en_now_ms env2 < we_expires_at_unix_ms w) (ab_watchlist ab)"
    using reload_entries [of "ab_watchlist ab" we_ip "\<lambda>ip. \<not> exempt_in contains c ip"
        "\<lambda>w. en_now_ms env2 < we_expires_at_unix_ms w" "\<lambda>w. en_now_ms env1 < we_expires_at_unix_ms w"]
      inv assms(3)
    by (simp add: ab'_def new_adaptive_blocker_def load_snapshot_entries load_watchlist_entries files
        blocker_inv_def)
qed

lemma check_filtered:
  assumes "blocker_inv contains c ab" and "ab_config ab' = c"
    and "ab_blocks ab' = filter (\<lambda>(ip, b). en_now_ms env < bs_expires_at_unix_ms b) (ab_blocks ab)"
  shows "fst (adaptive_check contains env ip ab') = fst (adaptive_check contains env ip ab)"
  using assms
  by (simp add: adaptive_check_def is_exempt_config blocker_inv_def hm_wf_def hm_get_filter split: option.split)

section \<open>Properties\<close>

text \<open>C36. From start-up, through any sequence of checks, recorded requests, unblocks and
  unwatches: the configuration never changes, at most \<open>max_tracked_ips\<close> addresses have a
  traffic window, no address has two windows, blocks or watchlist entries, every block and
  watchlist entry is stored under the address it names, and an exempt address is neither
  blocked nor watched, so its requests are never refused.\<close>

theorem blocker_invariant:
  fixes ops :: "(environ \<times> adaptive_op) list"
  assumes "ab = run_steps (adaptive_apply contains) ops (new_adaptive_blocker contains env0 c bs ws)"
  shows "ab_config ab = c \<and> observed_ip_count ab \<le> unat (ac_max_tracked_ips c) \<and>
    distinct (map fst (ab_windows ab)) \<and> distinct (map fst (ab_blocks ab)) \<and>
    distinct (map fst (ab_watchlist ab)) \<and>
    (\<forall>ip b. hm_get (ab_blocks ab) ip = Some b \<longrightarrow> bs_ip b = ip \<and> \<not> is_exempt contains ip ab) \<and>
    (\<forall>ip w. hm_get (ab_watchlist ab) ip = Some w \<longrightarrow> we_ip w = ip \<and> \<not> is_exempt contains ip ab) \<and>
    (\<forall>ip env. is_exempt contains ip ab \<longrightarrow> fst (adaptive_check contains env ip ab) = None)"
proof -
  have "blocker_inv contains c ab"
    unfolding assms by (rule blocker.run_keeps) (simp_all add: inv_new)
  then show ?thesis
    by (simp add: blocker_inv_def observed_ip_count_def hm_wf_def is_exempt_config adaptive_check_def)
qed

text \<open>A configuration that blocks an address on its first request; loopback is exempt.\<close>

definition strict_config :: adaptive_block_config where
  "strict_config = default_adaptive_block_config\<lparr>ac_request_threshold := 1, ac_domain_threshold := 1,
     ac_max_tracked_ips := 1\<rparr>"

definition sample_env :: "u64 \<Rightarrow> environ" where
  "sample_env now = \<lparr>en_now_ms = now, en_now = 0, en_io_ok = True\<rparr>"

definition sample_request :: "ip_addr \<Rightarrow> string \<Rightarrow> u64 \<Rightarrow> request_observation_input" where
  "sample_request ip domain now =
     \<lparr>oi_ip = ip, oi_domain = domain, oi_path = ''/'', oi_status = 200, oi_timestamp_unix_ms = now\<rparr>"

definition same_net :: net_contains where
  "same_net n ip = (case (n, ip) of (V4Net a _, V4 b) \<Rightarrow> a = b | (V6Net a _, V6 b) \<Rightarrow> a = b | _ \<Rightarrow> False)"

definition sample_ops :: "(environ \<times> adaptive_op) list" where
  "sample_ops = [(sample_env 3000, RecordRequest (sample_request (V4 7) ''a.io'' 3000))]"

definition sample_blocker :: adaptive_blocker where
  "sample_blocker = run_steps (adaptive_apply same_net) sample_ops
     (new_adaptive_blocker same_net (sample_env 0) strict_config [] [])"

lemma sample_blocked:
  "map_option bs_expires_at_unix_ms (hm_get (ab_blocks sample_blocker) (V4 7)) = Some 1803000"
  by code_simp

theorem blocker_invariant_witness:
  "observed_ip_count sample_blocker \<le> 1 \<and> fst (adaptive_check same_net (sample_env 4000) (V6 1) sample_blocker) = None"
proof -
  have "exempt_in same_net strict_config (V6 1)" by code_simp
  with blocker_invariant [of sample_blocker same_net sample_ops "sample_env 0" strict_config "[]" "[]"]
  show ?thesis by (simp add: sample_blocker_def strict_config_def is_exempt_config)
qed

text \<open>C18. A block is enforced until it expires: from any state of a running blocker in which the
  address has a block, every check of that address on a clock before the deadline refuses the
  request, whatever checks, recorded requests, unwatches and unblocks of other addresses came
  in between, with evictions and snapshot failures included.\<close>

theorem block_enforced_until_expiry:
  assumes "ab = run_steps (adaptive_apply contains) ops0 (new_adaptive_blocker contains env0 c bs ws)"
    and "ac_enabled c" and "hm_get (ab_blocks ab) ip = Some b"
    and "\<forall>oper\<in>set ops. leaves_block ip (bs_expires_at_unix_ms b) oper"
    and "en_now_ms env < bs_expires_at_unix_ms b"
  shows "fst (adaptive_check contains env ip (run_steps (adaptive_apply contains) ops ab)) =
    Some (Blocked ADAPTIVE_BLOCK_REASON)"
proof -
  have "blocker_inv contains c ab"
    unfolding assms(1) by (rule blocker.run_keeps) (simp_all add: inv_new)
  with assms have "holds_block contains c ip b ab" by (simp add: holds_block_def)
  from blocked.run_keeps [OF this assms(4)] show ?thesis by (simp add: holds_check assms(5))
qed

theorem block_enforced_until_expiry_witness:
  "fst (adaptive_check same_net (sample_env 1802999) (V4 7) (run_steps (adaptive_apply same_net)
     [(sample_env 50000, UnblockIp (V4 9)), (sample_env 60000, RecordRequest (sample_request (V4 7) ''c.io'' 60000))]
     sample_blocker)) = Some (Blocked ADAPTIVE_BLOCK_REASON)"
proof -
  obtain b where b: "hm_get (ab_blocks sample_blocker) (V4 7) = Some b" "bs_expires_at_unix_ms b = 1803000"
    using sample_blocked by auto
  have "ac_enabled strict_config" by code_simp
  with b show ?thesis
    by (intro block_enforced_until_expiry [of sample_blocker same_net sample_ops "sample_env 0" strict_config
          "[]" "[]" _ b])
       (simp_all add: sample_blocker_def leaves_block_def sample_env_def sample_request_def)
qed



end
