(* ===== verification/Security_Engine.thy ===== *)
theory Security_Engine
  imports Adaptive_Safety
begin

text \<open>
  The security engine of the edge (\<open>SecurityEngine\<close> of \<open>edge/crates/ddos/src/lib.rs\<close>): the
  blacklist, the adaptive blocker and the rate limiter, asked in this order for every request.
\<close>

section \<open>Definitions\<close>

record security_engine =
  se_blacklist :: blacklist_engine
  se_rate_limiter :: rate_limiter
  se_adaptive_blocker :: adaptive_blocker

definition security_check ::
    "net_contains \<Rightarrow> environ \<Rightarrow> string \<Rightarrow> ip_addr \<Rightarrow> security_engine \<Rightarrow>
     security_decision \<times> security_engine" where
  "security_check contains env domain_id ip s =
     (if blacklist_contains contains domain_id ip (se_blacklist s)
      then (Blocked ''ip_blacklisted'', s)
      else
        (let (d, ab) = adaptive_check contains env ip (se_adaptive_blocker s);
             s = s\<lparr>se_adaptive_blocker := ab\<rparr>
         in case d of
              Some decision \<Rightarrow> (decision, s)
            | None \<Rightarrow>
                let (decision, l) = allow (en_now env) ip (se_rate_limiter s)
                in (decision, s\<lparr>se_rate_limiter := l\<rparr>)))"

definition record_request ::
    "net_contains \<Rightarrow> environ \<Rightarrow> request_observation_input \<Rightarrow> security_engine \<Rightarrow>
     adaptive_block_snapshot option \<times> security_engine" where
  "record_request contains env e s =
     (let (b, ab) = adaptive_record contains env e (se_adaptive_blocker s)
      in (b, s\<lparr>se_adaptive_blocker := ab\<rparr>))"

definition disabled_blocker ::
    "net_contains \<Rightarrow> environ \<Rightarrow> adaptive_block_snapshot list \<Rightarrow> suspicious_ip_watchlist_entry list \<Rightarrow>
     adaptive_blocker" where
  "disabled_blocker contains env blocks_file watchlist_file =
     new_adaptive_blocker contains env (default_adaptive_block_config\<lparr>ac_enabled := False\<rparr>)
       blocks_file watchlist_file"

definition new_with_adaptive_blocker ::
    "blacklist_engine \<Rightarrow> rate_limiter \<Rightarrow> adaptive_blocker \<Rightarrow> security_engine" where
  "new_with_adaptive_blocker bl l ab =
     \<lparr>se_blacklist = bl, se_rate_limiter = l, se_adaptive_blocker = ab\<rparr>"

definition new_security_engine ::
    "net_contains \<Rightarrow> environ \<Rightarrow> adaptive_block_snapshot list \<Rightarrow> suspicious_ip_watchlist_entry list \<Rightarrow>
     blacklist_engine \<Rightarrow> rate_limiter \<Rightarrow> security_engine" where
  "new_security_engine contains env bs ws bl l =
     new_with_adaptive_blocker bl l (disabled_blocker contains env bs ws)"

text \<open>A sequence of checks: how many of the requests of an address the engine lets through.\<close>

fun engine_allowed ::
    "net_contains \<Rightarrow> ip_addr \<Rightarrow> (environ \<times> string \<times> ip_addr) list \<Rightarrow> security_engine \<Rightarrow> nat" where
  "engine_allowed contains ip [] s = 0"
| "engine_allowed contains ip ((env, domain_id, i) # cs) s =
     (let (d, s') = security_check contains env domain_id i s
      in (if i = ip \<and> d = Allowed then 1 else 0) + engine_allowed contains ip cs s')"

text \<open>The calls that get past the blacklist and the adaptive blocker, as the limiter sees them.\<close>

fun limited_calls ::
    "net_contains \<Rightarrow> (environ \<times> string \<times> ip_addr) list \<Rightarrow> security_engine \<Rightarrow> (instant \<times> ip_addr) list" where
  "limited_calls contains [] s = []"
| "limited_calls contains ((env, domain_id, i) # cs) s =
     (if blacklist_contains contains domain_id i (se_blacklist s) \<or>
         fst (adaptive_check contains env i (se_adaptive_blocker s)) \<noteq> None then [] else [(en_now env, i)]) @
     limited_calls contains cs (snd (security_check contains env domain_id i s))"

section \<open>The order of the checks\<close>

lemma security_check_fields:
  "se_blacklist (snd (security_check contains env d ip s)) = se_blacklist s"
  by (simp add: security_check_def Let_def case_prod_beta split: option.split)

lemma security_check_refused:
  assumes "blacklist_contains contains d ip (se_blacklist s) \<or>
    fst (adaptive_check contains env ip (se_adaptive_blocker s)) \<noteq> None"
  shows "fst (security_check contains env d ip s) \<noteq> Allowed"
    and "se_rate_limiter (snd (security_check contains env d ip s)) = se_rate_limiter s"
proof -
  have "dec = Blocked ADAPTIVE_BLOCK_REASON"
    if "fst (adaptive_check contains env ip (se_adaptive_blocker s)) = Some dec" for dec
    using that by (auto simp: adaptive_check_def split: if_splits option.splits)
  then show "fst (security_check contains env d ip s) \<noteq> Allowed"
    "se_rate_limiter (snd (security_check contains env d ip s)) = se_rate_limiter s"
    using assms by (auto simp: security_check_def Let_def case_prod_beta split: option.split)
qed

lemma security_check_limited:
  assumes "\<not> blacklist_contains contains d ip (se_blacklist s)"
    and "fst (adaptive_check contains env ip (se_adaptive_blocker s)) = None"
  shows "fst (security_check contains env d ip s) = fst (allow (en_now env) ip (se_rate_limiter s))"
    and "se_rate_limiter (snd (security_check contains env d ip s)) = snd (allow (en_now env) ip (se_rate_limiter s))"
  using assms by (simp_all add: security_check_def Let_def case_prod_beta)

lemma engine_allowed_limited:
  "engine_allowed contains ip cs s = allowed_calls ip (limited_calls contains cs s) (se_rate_limiter s)"
proof (induction cs arbitrary: s)
  case (Cons call cs)
  obtain env d i where call: "call = (env, d, i)" by (cases call)
  show ?case
  proof (cases "blacklist_contains contains d i (se_blacklist s) \<or>
      fst (adaptive_check contains env i (se_adaptive_blocker s)) \<noteq> None")
    case True
    with Cons.IH show ?thesis by (simp add: call case_prod_beta security_check_refused [OF True])
  next
    case False
    then have ok: "\<not> blacklist_contains contains d i (se_blacklist s)"
      "fst (adaptive_check contains env i (se_adaptive_blocker s)) = None" by auto
    with Cons.IH show ?thesis by (simp add: call case_prod_beta security_check_limited [OF ok])
  qed
qed simp

lemma limited_calls_sublist:
  "subseq (limited_calls contains cs s) (map (\<lambda>c. (en_now (fst c), snd (snd c))) cs)"
proof (induction cs arbitrary: s)
  case (Cons call cs)
  show ?case
    using Cons.IH list_emb_Cons [OF Cons.IH] by (cases call) simp
qed simp

lemma subseq_sorted: "subseq xs ys \<Longrightarrow> sorted ys \<Longrightarrow> sorted xs"
  by (induction rule: list_emb.induct) (auto dest: list_emb_set)

section \<open>Properties\<close>

text \<open>The engine decides in a fixed order and charges only requests it would otherwise serve: a
  blacklisted address is refused as such, an address with an active adaptive block is refused
  with the adaptive reason, and neither costs a token of the rate limiter; every other request
  gets the answer of the limiter. The blacklist is never changed by a check.\<close>

theorem security_check_order:
  "security_check contains env d ip s =
    (if blacklist_contains contains d ip (se_blacklist s) then (Blocked ''ip_blacklisted'', s)
     else let ab = se_adaptive_blocker s;
              s' = s\<lparr>se_adaptive_blocker := snd (adaptive_check contains env ip ab)\<rparr>
          in if ac_enabled (ab_config ab) \<and> \<not> is_exempt contains ip ab \<and>
                list_ex (\<lambda>b. bs_ip b = ip) (active_blocks env ab)
             then (Blocked ADAPTIVE_BLOCK_REASON, s')
             else apsnd (\<lambda>l. s'\<lparr>se_rate_limiter := l\<rparr>) (allow (en_now env) ip (se_rate_limiter s)))"
  if "blocker_inv contains c (se_adaptive_blocker s)"
proof -
  let ?ab = "se_adaptive_blocker s"
  have keyed: "hm_wf (ab_blocks ?ab)" "\<And>k b. hm_get (ab_blocks ?ab) k = Some b \<Longrightarrow> bs_ip b = k"
    using that by (auto simp: blocker_inv_def)
  have "list_ex (\<lambda>b. bs_ip b = ip) (active_blocks env ?ab) \<longleftrightarrow>
      (\<exists>b. hm_get (ab_blocks ?ab) ip = Some b \<and> en_now_ms env < bs_expires_at_unix_ms b)"
    using keyed by (force simp: active_blocks_def list_ex_iff hm_wf_def)
  then show ?thesis
    by (auto simp: security_check_def adaptive_check_def Let_def case_prod_beta apsnd_def map_prod_def
        split: option.split)
qed


text \<open>An engine with the default limits, the sample blocker and an empty blacklist.\<close>

definition sample_engine :: security_engine where
  "sample_engine = new_with_adaptive_blocker new_blacklist
     (new_rate_limiter default_rate_limit_config 0) sample_blocker"

theorem security_check_order_witness:
  "fst (security_check same_net (sample_env 5000) ''app'' (V4 7) sample_engine) = Blocked ADAPTIVE_BLOCK_REASON \<and>
   se_rate_limiter (snd (security_check same_net (sample_env 5000) ''app'' (V4 7) sample_engine)) =
     se_rate_limiter sample_engine"
proof -
  have ab: "se_adaptive_blocker sample_engine = sample_blocker"
    by (simp add: sample_engine_def new_with_adaptive_blocker_def)
  have inv: "blocker_inv same_net strict_config sample_blocker"
    unfolding sample_blocker_def by (rule blocker.run_keeps) (simp_all add: inv_new)
  then have c: "ab_config sample_blocker = strict_config" by (simp add: blocker_inv_def)
  obtain b where b: "hm_get (ab_blocks sample_blocker) (V4 7) = Some b" "bs_expires_at_unix_ms b = 1803000"
    using sample_blocked by auto
  then have "list_ex (\<lambda>b. bs_ip b = V4 7) (active_blocks (sample_env 5000) sample_blocker)"
    using inv by (force simp: list_ex_iff active_blocks_def sample_env_def blocker_inv_def dest: map_of_SomeD)
  moreover have "ac_enabled strict_config" "\<not> exempt_in same_net strict_config (V4 7)"
    "\<not> blacklist_contains same_net ''app'' (V4 7) (se_blacklist sample_engine)"
    by code_simp+
  ultimately show ?thesis
    using security_check_order [of same_net strict_config sample_engine "sample_env 5000" "''app''" "V4 7"] inv
    by (simp add: ab c is_exempt_config Let_def)
qed


end
