(* ===== verification/Load_Balancer.thy ===== *)
theory Load_Balancer
  imports Common_Names F64 "HOL-Library.Multiset"
begin

text \<open>
  The load balancer (\<open>edge/crates/load-balancer/src/lib.rs\<close>): the per-route counters, the
  in-flight counts and the latency averages, and the selection algorithms. The standard
  library does not specify the algorithm of \<open>DefaultHasher\<close>, so the hash of a value is an
  argument; what is hashed is a value of \<open>hash_input\<close>. Slices are indexed by \<open>slice_get\<close>;
  the remainder by a length is only taken for non-empty slices.
\<close>

section \<open>Definitions\<close>

record load_balancer =
  lb_counters :: "(string, usize) hmap"
  lb_in_flight :: "(string, usize) hmap"
  lb_ewma_latency_micros :: "(string, u64) hmap"

definition new_load_balancer :: load_balancer where
  "new_load_balancer = \<lparr>lb_counters = [], lb_in_flight = [], lb_ewma_latency_micros = []\<rparr>"

datatype hash_input =
    HashIp ip_addr
  | HashSecond string usize
  | HashIdentity string string

type_synonym hasher = "hash_input \<Rightarrow> u64"

definition MAX_LOAD_BALANCER_KEYS :: nat where "MAX_LOAD_BALANCER_KEYS = 100000"

definition slice_get :: "'a list \<Rightarrow> nat \<Rightarrow> 'a option" where
  "slice_get xs i = (if i < length xs then Some (xs ! i) else None)"

definition upstream_key :: "string \<Rightarrow> string \<Rightarrow> string" where
  "upstream_key route_key u = route_key @ ''|'' @ u"

definition hash_index :: "hasher \<Rightarrow> hash_input \<Rightarrow> nat \<Rightarrow> nat" where
  "hash_index hash v len = unat (hash v) mod len"

definition weighted_upstreams :: "upstream list \<Rightarrow> upstream list" where
  "weighted_upstreams ups = concat (map (\<lambda>u. replicate (unat (max (up_weight u) 1)) u) ups)"

definition evict_if_needed :: "load_balancer \<Rightarrow> load_balancer" where
  "evict_if_needed lb =
     lb\<lparr>lb_counters := (if MAX_LOAD_BALANCER_KEYS < length (lb_counters lb) then []
                         else lb_counters lb),
         lb_in_flight := (if MAX_LOAD_BALANCER_KEYS < length (lb_in_flight lb) then []
                          else lb_in_flight lb),
         lb_ewma_latency_micros :=
           (if MAX_LOAD_BALANCER_KEYS < length (lb_ewma_latency_micros lb) then []
            else lb_ewma_latency_micros lb)\<rparr>"

text \<open>\<open>counter.fetch_add(1)\<close> on the counter of a key: the old value and the new map.\<close>

definition fetch_add_counter :: "string \<Rightarrow> load_balancer \<Rightarrow> usize \<times> load_balancer" where
  "fetch_add_counter k lb =
     (let c = hm_get_or (lb_counters lb) k 0
      in (c, lb\<lparr>lb_counters := hm_insert k (c + 1) (lb_counters lb)\<rparr>))"

definition upstream_in_flight :: "load_balancer \<Rightarrow> string \<Rightarrow> string \<Rightarrow> usize" where
  "upstream_in_flight lb route_key u = hm_get_or (lb_in_flight lb) (upstream_key route_key u) 0"

definition round_robin ::
    "string \<Rightarrow> 'a list \<Rightarrow> load_balancer \<Rightarrow> 'a option \<times> load_balancer" where
  "round_robin route_key ups lb =
     (let (c, lb') = fetch_add_counter route_key lb
      in (slice_get ups (unat c mod length ups), lb'))"

definition least_connections :: "load_balancer \<Rightarrow> string \<Rightarrow> upstream list \<Rightarrow> upstream option" where
  "least_connections lb route_key ups =
     min_by_key (\<lambda>u. upstream_in_flight lb route_key (up_url u)) ups"

definition power_of_two_choices ::
    "hasher \<Rightarrow> string \<Rightarrow> upstream list \<Rightarrow> load_balancer \<Rightarrow> upstream option \<times> load_balancer" where
  "power_of_two_choices hash route_key ups lb =
     (if length ups \<le> 2 then (least_connections lb route_key ups, lb)
      else
        (let (counter, lb') = fetch_add_counter (route_key @ '':p2c'') lb;
             first = unat counter mod length ups;
             second = hash_index hash (HashSecond route_key counter) (length ups);
             second = (if second = first then (second + 1) mod length ups else second);
             left = ups ! first;
             right = ups ! second
         in (if upstream_in_flight lb' route_key (up_url left)
                  \<le> upstream_in_flight lb' route_key (up_url right)
             then Some left else Some right, lb')))"

definition hrw_weight :: "hasher \<Rightarrow> string \<Rightarrow> upstream \<Rightarrow> u64" where
  "hrw_weight hash identity u =
     sat_mul (hash (HashIdentity identity (up_url u))) (ucast (max (up_weight u) 1))"

definition highest_random_weight ::
    "hasher \<Rightarrow> string \<Rightarrow> upstream list \<Rightarrow> ip_addr option \<Rightarrow> upstream option" where
  "highest_random_weight hash route_key ups client_ip =
     (let identity = (case client_ip of Some ip \<Rightarrow> ip_to_string ip | None \<Rightarrow> route_key)
      in max_by_key (hrw_weight hash identity) ups)"

definition latency_aware :: "load_balancer \<Rightarrow> string \<Rightarrow> upstream list \<Rightarrow> upstream option" where
  "latency_aware lb route_key ups =
     min_by_key (\<lambda>u. hm_get_or (lb_ewma_latency_micros lb) (upstream_key route_key (up_url u)) 0) ups"

definition select ::
    "hasher \<Rightarrow> string \<Rightarrow> load_balancing_algorithm \<Rightarrow> upstream list \<Rightarrow> ip_addr option \<Rightarrow>
     load_balancer \<Rightarrow> upstream option \<times> load_balancer" where
  "select hash route_key algorithm upstreams client_ip lb =
     (let lb = evict_if_needed lb; healthy = filter up_healthy upstreams in
      if healthy = [] then (None, lb)
      else case algorithm of
        IpHash \<Rightarrow>
          (case client_ip of None \<Rightarrow> None
           | Some ip \<Rightarrow> slice_get healthy (hash_index hash (HashIp ip) (length healthy)), lb)
      | WeightedRoundRobin \<Rightarrow> round_robin route_key (weighted_upstreams healthy) lb
      | LeastConnections \<Rightarrow> (least_connections lb route_key healthy, lb)
      | P2c \<Rightarrow> power_of_two_choices hash route_key healthy lb
      | Hrw \<Rightarrow> (highest_random_weight hash route_key healthy client_ip, lb)
      | EwmaLatency \<Rightarrow> (latency_aware lb route_key healthy, lb)
      | LatencyAware \<Rightarrow> (latency_aware lb route_key healthy, lb)
      | RoundRobin \<Rightarrow> round_robin route_key healthy lb)"

definition begin_request :: "string \<Rightarrow> string \<Rightarrow> load_balancer \<Rightarrow> load_balancer" where
  "begin_request route_key u lb =
     (let lb = evict_if_needed lb; key = upstream_key route_key u in
      lb\<lparr>lb_in_flight := hm_insert key (hm_get_or (lb_in_flight lb) key 0 + 1) (lb_in_flight lb)\<rparr>)"

definition ewma_next :: "u64 \<Rightarrow> u64 \<Rightarrow> u64" where
  "ewma_next current latency_micros =
     max (if current = 0 then latency_micros
          else f64_to_u64 (f64_add (f64_mul (f64_of_nat (unat current)) (f64_round (8 / 10)))
                 (f64_mul (f64_of_nat (unat latency_micros)) (f64_round (2 / 10))))) 1"

definition end_request :: "string \<Rightarrow> string \<Rightarrow> u64 \<Rightarrow> load_balancer \<Rightarrow> load_balancer" where
  "end_request route_key u latency_micros lb =
     (let key = upstream_key route_key u;
          in_flight = (case hm_get (lb_in_flight lb) key of
                         None \<Rightarrow> lb_in_flight lb
                       | Some v \<Rightarrow> hm_insert key (sat_sub v 1) (lb_in_flight lb));
          current = hm_get_or (lb_ewma_latency_micros lb) key latency_micros
      in lb\<lparr>lb_in_flight := in_flight,
            lb_ewma_latency_micros :=
              hm_insert key (ewma_next current latency_micros) (lb_ewma_latency_micros lb)\<rparr>)"

definition weighted_indices :: "u32 list \<Rightarrow> nat list" where
  "weighted_indices ws =
     concat (map (\<lambda>(i, w). replicate (unat (max w 1)) i) (enumerate 0 ws))"

definition select_weighted_index ::
    "string \<Rightarrow> u32 list \<Rightarrow> load_balancer \<Rightarrow> nat option \<times> load_balancer" where
  "select_weighted_index route_key weights lb =
     (let lb = evict_if_needed lb in
      if weights = [] then (None, lb)
      else round_robin route_key (weighted_indices weights) lb)"

section \<open>Rotation over a counter\<close>

text \<open>
  \<open>run_n\<close> repeats an operation and collects its results. The contract of a rotating choice:
  while the counter of the choice does not overflow, one pick returns the item under the
  counter, modulo the number of items, and advances the counter. Every client that picks
  through such an operation gets each item as often as it is listed.
\<close>

fun run_n :: "('s \<Rightarrow> 'a \<times> 's) \<Rightarrow> nat \<Rightarrow> 's \<Rightarrow> 'a list \<times> 's" where
  "run_n f 0 s = ([], s)"
| "run_n f (Suc n) s = (let (x, s1) = f s; (xs, s2) = run_n f n s1 in (x # xs, s2))"

lemma mset_rotate: "mset (rotate n xs) = mset xs"
proof -
  have "mset (rotate n xs) = mset (take (n mod length xs) xs) + mset (drop (n mod length xs) xs)"
    by (simp add: rotate_drop_take)
  then show ?thesis by (metis append_take_drop_id mset_append)
qed

locale rotation =
  fixes pick :: "'p \<Rightarrow> 's \<Rightarrow> 'a option \<times> 's"
    and items :: "'p \<Rightarrow> 'a list"
    and position :: "'p \<Rightarrow> 's \<Rightarrow> nat"
    and settled :: "'p \<Rightarrow> 's \<Rightarrow> bool"
  assumes pick_item: "settled p s \<Longrightarrow> items p \<noteq> [] \<Longrightarrow>
      fst (pick p s) = Some (items p ! (position p s mod length (items p)))"
    and pick_settled: "settled p s \<Longrightarrow> items p \<noteq> [] \<Longrightarrow> settled p (snd (pick p s))"
    and pick_position: "settled p s \<Longrightarrow> items p \<noteq> [] \<Longrightarrow> position p s + 1 < 2 ^ 64 \<Longrightarrow>
      position p (snd (pick p s)) = position p s + 1"
begin

lemma run_positions:
  assumes "settled p s" and "items p \<noteq> []" and "position p s + n < 2 ^ 64"
  shows "fst (run_n (pick p) n s) =
    map (\<lambda>j. Some (items p ! ((position p s + j) mod length (items p)))) [0..<n]"
  using assms
proof (induction n arbitrary: s)
  case (Suc n)
  let ?s = "snd (pick p s)"
  have pos: "position p ?s = position p s + 1"
    using Suc.prems by (intro pick_position) auto
  have "fst (run_n (pick p) n ?s) =
      map (\<lambda>j. Some (items p ! ((position p ?s + j) mod length (items p)))) [0..<n]"
    using Suc pos by (intro Suc.IH pick_settled) auto
  also have "\<dots> = map (\<lambda>j. Some (items p ! ((position p s + j) mod length (items p)))) [1..<Suc n]"
    unfolding pos by (simp add: map_Suc_upt [symmetric] comp_def del: upt_Suc)
  finally show ?case
    using pick_item [OF Suc.prems(1,2)]
    by (simp add: upt_conv_Cons case_prod_beta del: upt_Suc)
qed simp

lemma one_round:
  assumes "settled p s" and "items p \<noteq> []" and "position p s + length (items p) < 2 ^ 64"
  shows "mset (fst (run_n (pick p) (length (items p)) s)) = mset (map Some (items p))"
proof -
  let ?n = "length (items p)"
  have "fst (run_n (pick p) ?n s) = map Some (rotate (position p s) (items p))"
    unfolding run_positions [OF assms]
    by (rule nth_equalityI) (simp_all add: nth_rotate add.commute)
  then show ?thesis by (simp add: mset_rotate)
qed

end

text \<open>The state in which a counter survives the eviction of a full table.\<close>

definition counter_settled :: "string \<Rightarrow> load_balancer \<Rightarrow> bool" where
  "counter_settled k lb \<longleftrightarrow> hm_wf (lb_counters lb) \<and>
     length (lb_counters lb) \<le> MAX_LOAD_BALANCER_KEYS \<and>
     (hm_get (lb_counters lb) k \<noteq> None \<or> length (lb_counters lb) < MAX_LOAD_BALANCER_KEYS)"

definition counter_value :: "string \<Rightarrow> load_balancer \<Rightarrow> nat" where
  "counter_value k lb = unat (hm_get_or (lb_counters lb) k 0)"

lemma settled_evict: "counter_settled k lb \<Longrightarrow> lb_counters (evict_if_needed lb) = lb_counters lb"
  by (simp add: counter_settled_def evict_if_needed_def)

lemma settled_evict_settled: "counter_settled k lb \<Longrightarrow> counter_settled k (evict_if_needed lb)"
  by (simp add: counter_settled_def evict_if_needed_def)

lemma round_robin_item:
  "ups \<noteq> [] \<Longrightarrow> fst (round_robin k ups lb) = Some (ups ! (counter_value k lb mod length ups))"
  by (simp add: round_robin_def fetch_add_counter_def slice_get_def counter_value_def Let_def)

lemma round_robin_settled:
  "counter_settled k lb \<Longrightarrow> counter_settled k (snd (round_robin k ups lb))"
  by (auto simp: round_robin_def fetch_add_counter_def counter_settled_def Let_def hm.entries_put)

lemma round_robin_position:
  assumes "counter_value k lb + 1 < 2 ^ 64"
  shows "counter_value k (snd (round_robin k ups lb)) = counter_value k lb + 1"
proof -
  let ?c = "hm_get_or (lb_counters lb) k 0"
  have "unat (?c + 1) = unat ?c + 1"
    using assms by (subst unat_add_lem [THEN iffD1]) (simp_all add: counter_value_def)
  then show ?thesis
    by (simp add: round_robin_def fetch_add_counter_def counter_value_def Let_def)
qed

lemma counter_value_evict: "counter_settled k lb \<Longrightarrow> counter_value k (evict_if_needed lb) = counter_value k lb"
  by (simp add: counter_value_def settled_evict)

lemmas rotation_facts = round_robin_item round_robin_settled round_robin_position
  settled_evict_settled counter_value_evict

lemma weighted_not_Nil: "ups \<noteq> [] \<Longrightarrow> weighted_upstreams ups \<noteq> []"
  by (auto simp: weighted_upstreams_def neq_Nil_conv max_def word_le_nat_alt unat_eq_zero)

interpretation rr: rotation
  "\<lambda>(hash, k, ups, ip). select hash k RoundRobin ups ip"
  "\<lambda>(hash, k, ups, ip). filter up_healthy ups"
  "\<lambda>(hash, k, ups, ip). counter_value k"
  "\<lambda>(hash, k, ups, ip). counter_settled k"
  by unfold_locales (auto simp: select_def Let_def rotation_facts split: prod.splits)

interpretation wrr: rotation
  "\<lambda>(hash, k, ups, ip). select hash k WeightedRoundRobin ups ip"
  "\<lambda>(hash, k, ups, ip). if filter up_healthy ups = [] then []
     else weighted_upstreams (filter up_healthy ups)"
  "\<lambda>(hash, k, ups, ip). counter_value k"
  "\<lambda>(hash, k, ups, ip). counter_settled k"
  by unfold_locales
     (auto simp: select_def Let_def rotation_facts weighted_not_Nil split: prod.splits if_splits)

lemma max_one_pos: "0 < unat (max w 1 :: u32)"
  by (auto simp: max_def word_le_nat_alt)

lemma weighted_indices_not_Nil: "ws \<noteq> [] \<Longrightarrow> weighted_indices ws \<noteq> []"
  by (cases ws) (simp_all add: weighted_indices_def max_one_pos)

interpretation wi: rotation
  "\<lambda>(k, ws). select_weighted_index k ws"
  "\<lambda>(k, ws). if ws = [] then [] else weighted_indices ws"
  "\<lambda>(k, ws). counter_value k"
  "\<lambda>(k, ws). counter_settled k"
  by unfold_locales
     (auto simp: select_weighted_index_def Let_def rotation_facts weighted_indices_not_Nil
           split: prod.splits if_splits)

section \<open>The choice of an upstream\<close>

lemma slice_get_in: "slice_get xs i = Some x \<Longrightarrow> x \<in> set xs"
  by (auto simp: slice_get_def split: if_splits)

lemma slice_get_mod [simp]: "xs \<noteq> [] \<Longrightarrow> slice_get xs (i mod length xs) = Some (xs ! (i mod length xs))"
  by (simp add: slice_get_def)

lemma weighted_subset: "set (weighted_upstreams ups) \<subseteq> set ups"
  by (auto simp: weighted_upstreams_def)

lemma round_robin_in: "ups \<noteq> [] \<Longrightarrow> \<exists>u\<in>set ups. fst (round_robin k ups lb) = Some u"
  by (simp add: round_robin_item)

lemma least_connections_in: "ups \<noteq> [] \<Longrightarrow> \<exists>u\<in>set ups. least_connections lb k ups = Some u"
  unfolding least_connections_def by (metis min_by_key_eq_None min_by_key_in_set not_None_eq)

lemma latency_aware_in: "ups \<noteq> [] \<Longrightarrow> \<exists>u\<in>set ups. latency_aware lb k ups = Some u"
  unfolding latency_aware_def by (metis min_by_key_eq_None min_by_key_in_set not_None_eq)

lemma hrw_in: "ups \<noteq> [] \<Longrightarrow> \<exists>u\<in>set ups. highest_random_weight hash k ups ip = Some u"
  unfolding highest_random_weight_def Let_def
  by (metis max_by_key_eq_None max_by_key_in_set not_None_eq)

text \<open>Two choices are two different upstreams, and the less loaded one is taken.\<close>

lemma p2c_pair:
  assumes "2 < length ups"
  shows "\<exists>i j. i < length ups \<and> j < length ups \<and> i \<noteq> j \<and>
    fst (power_of_two_choices hash k ups lb) = Some (ups ! i) \<and>
    upstream_in_flight lb k (up_url (ups ! i)) \<le> upstream_in_flight lb k (up_url (ups ! j))"
proof -
  let ?n = "length ups" and ?c = "fst (fetch_add_counter (k @ '':p2c'') lb)"
    and ?lb = "snd (fetch_add_counter (k @ '':p2c'') lb)"
  let ?i = "unat ?c mod ?n" and ?h = "hash_index hash (HashSecond k ?c) ?n"
  let ?j = "if ?h = ?i then (?h + 1) mod ?n else ?h"
  have fl: "upstream_in_flight ?lb = upstream_in_flight lb"
    by (auto simp: fetch_add_counter_def Let_def upstream_in_flight_def fun_eq_iff)
  have n: "0 < ?n" using assms by linarith
  then have ij: "?i < ?n" "?j < ?n" by (auto simp: hash_index_def)
  moreover have "(x + 1) mod ?n \<noteq> x" if "x < ?n" for x
    using that assms by (cases "x + 1 = ?n") auto
  then have "?i \<noteq> ?j" using ij(1) by (cases "?h = ?i") (simp_all only: if_True if_False, metis)
  moreover have "power_of_two_choices hash k ups lb =
      (if upstream_in_flight lb k (up_url (ups ! ?i)) \<le> upstream_in_flight lb k (up_url (ups ! ?j))
       then Some (ups ! ?i) else Some (ups ! ?j), ?lb)"
    using assms by (simp add: power_of_two_choices_def Let_def case_prod_beta fl)
  ultimately show ?thesis
    by (cases "upstream_in_flight lb k (up_url (ups ! ?i)) \<le> upstream_in_flight lb k (up_url (ups ! ?j))")
       (intro exI [of _ ?i] exI [of _ ?j], simp, intro exI [of _ ?j] exI [of _ ?i], simp)
qed

lemma p2c_in:
  assumes "ups \<noteq> []"
  shows "\<exists>u\<in>set ups. fst (power_of_two_choices hash k ups lb) = Some u"
proof (cases "2 < length ups")
  case True
  then show ?thesis using p2c_pair by fastforce
next
  case False
  with assms show ?thesis
    using least_connections_in [OF assms] by (simp add: power_of_two_choices_def not_less)
qed

lemmas choice_facts = round_robin_in least_connections_in latency_aware_in hrw_in p2c_in

lemma select_cases:
  assumes "filter up_healthy ups \<noteq> []" and "alg = IpHash \<longrightarrow> ip \<noteq> None"
  shows "\<exists>u\<in>set (filter up_healthy ups). fst (select hash k alg ups ip lb) = Some u"
proof (cases alg)
  case IpHash
  then obtain a where "ip = Some a" using assms by auto
  then have "fst (select hash k alg ups ip lb) = Some (filter up_healthy ups !
      (unat (hash (HashIp a)) mod length (filter up_healthy ups)))"
    using IpHash assms(1) by (simp add: select_def Let_def hash_index_def)
  moreover have "unat (hash (HashIp a)) mod length (filter up_healthy ups) < length (filter up_healthy ups)"
    using assms(1) by simp
  ultimately show ?thesis by (metis nth_mem)
next
  case WeightedRoundRobin
  moreover obtain u where "u \<in> set (weighted_upstreams (filter up_healthy ups))"
    "fst (round_robin k (weighted_upstreams (filter up_healthy ups)) (evict_if_needed lb)) = Some u"
    using round_robin_in [OF weighted_not_Nil [OF assms(1)]] by blast
  ultimately show ?thesis
    using assms(1) weighted_subset [of "filter up_healthy ups"]
    by (auto simp: select_def Let_def)
qed (use choice_facts [OF assms(1)] assms(1) in
      \<open>simp_all only: select_def Let_def if_False load_balancing_algorithm.case fst_conv\<close>)

lemma max_by_key_append:
  "\<forall>u\<in>set us. f u \<le> f y \<Longrightarrow> \<forall>v\<in>set vs. f v < f y \<Longrightarrow> max_by_key f (us @ y # vs) = Some y"
proof (induction us)
  case Nil
  then show ?case
    by (cases "max_by_key f vs") (auto dest: max_by_key_in_set)
qed auto

lemma max_by_key_filter:
  assumes "max_by_key f xs = Some y" and "P y"
  shows "max_by_key f (filter P xs) = Some y"
proof -
  from max_by_key_split [OF assms(1)] obtain us vs where "xs = us @ y # vs"
    "\<forall>u\<in>set us. f u \<le> f y" "\<forall>v\<in>set vs. f v < f y" by blast
  then show ?thesis using assms(2) by (auto intro: max_by_key_append)
qed

section \<open>In-flight accounting\<close>

text \<open>
  Traffic as a sequence of events, and its specification: the number of requests open on a
  key. An end without a begin leaves the count at zero.
\<close>

datatype lb_event = Begin string string | End string string u64

fun lb_apply :: "load_balancer \<Rightarrow> lb_event \<Rightarrow> load_balancer" where
  "lb_apply lb (Begin k u) = begin_request k u lb"
| "lb_apply lb (End k u l) = end_request k u l lb"

fun open_requests :: "string \<Rightarrow> nat \<Rightarrow> lb_event list \<Rightarrow> nat" where
  "open_requests key d [] = d"
| "open_requests key d (Begin k u # es) =
     open_requests key (if upstream_key k u = key then d + 1 else d) es"
| "open_requests key d (End k u l # es) =
     open_requests key (if upstream_key k u = key then d - 1 else d) es"

definition in_flight_settled :: "nat \<Rightarrow> load_balancer \<Rightarrow> bool" where
  "in_flight_settled n lb \<longleftrightarrow> hm_wf (lb_in_flight lb) \<and>
     length (lb_in_flight lb) + n \<le> MAX_LOAD_BALANCER_KEYS"

lemma begin_in_flight:
  assumes "in_flight_settled (Suc n) lb"
  shows "lb_in_flight (begin_request k u lb) =
      hm_insert (upstream_key k u) (hm_get_or (lb_in_flight lb) (upstream_key k u) 0 + 1) (lb_in_flight lb)"
    and "in_flight_settled n (begin_request k u lb)"
proof -
  show eq: "lb_in_flight (begin_request k u lb) =
      hm_insert (upstream_key k u) (hm_get_or (lb_in_flight lb) (upstream_key k u) 0 + 1) (lb_in_flight lb)"
    using assms by (simp add: begin_request_def evict_if_needed_def in_flight_settled_def Let_def)
  show "in_flight_settled n (begin_request k u lb)"
    using assms by (auto simp: in_flight_settled_def eq hm.entries_put)
qed

lemma end_in_flight:
  assumes "in_flight_settled (Suc n) lb"
  shows "hm_get_or (lb_in_flight (end_request k u l lb)) key 0 =
      (if key = upstream_key k u then sat_sub (hm_get_or (lb_in_flight lb) key 0) 1
       else hm_get_or (lb_in_flight lb) key 0)"
    and "in_flight_settled n (end_request k u l lb)"
  using assms
  by (auto simp: end_request_def Let_def in_flight_settled_def hm_get_or_def sat_sub_def
      hm.entries_put split: option.splits)

lemma lb_run_in_flight:
  assumes "in_flight_settled (length es) lb"
    and "unat (hm_get_or (lb_in_flight lb) key 0) + length es < 2 ^ 64"
  shows "unat (hm_get_or (lb_in_flight (foldl lb_apply lb es)) key 0) =
    open_requests key (unat (hm_get_or (lb_in_flight lb) key 0)) es"
  using assms
proof (induction es arbitrary: lb)
  case (Cons e es)
  let ?v = "hm_get_or (lb_in_flight lb) key 0"
  show ?case
  proof (cases e)
    case (Begin k u)
    have inc: "unat (?v + 1) = unat ?v + 1"
      using Cons.prems(2) by (subst unat_add_lem [THEN iffD1]) simp_all
    note b = begin_in_flight [of "length es" lb k u]
    show ?thesis
      using Cons.IH [of "begin_request k u lb"] Cons.prems b inc Begin by (auto split: if_splits)
  next
    case (End k u l)
    note e = end_in_flight(1) [of "length es" lb k u l key] end_in_flight(2) [of "length es" lb k u l]
    have dec: "unat (sat_sub ?v 1) = unat ?v - 1" by (simp add: unat_sat_sub)
    show ?thesis
      using Cons.IH [of "end_request k u l lb"] Cons.prems e dec End by (auto split: if_splits)
  qed
qed simp

section \<open>Properties\<close>

text \<open>
  C6. Whatever the algorithm, \<open>select\<close> returns a healthy upstream of the list it is given, and
  returns nothing exactly when no upstream is healthy or IP hashing is asked for without a
  client address.
\<close>

theorem select_healthy:
  "(fst (select hash k alg ups ip lb) = None \<longleftrightarrow>
      filter up_healthy ups = [] \<or> alg = IpHash \<and> ip = None) \<and>
   (\<forall>u. fst (select hash k alg ups ip lb) = Some u \<longrightarrow> u \<in> set ups \<and> up_healthy u)"
proof (cases "filter up_healthy ups = [] \<or> alg = IpHash \<and> ip = None")
  case True
  then have "fst (select hash k alg ups ip lb) = None"
    by (auto simp: select_def Let_def)
  with True show ?thesis by simp
next
  case False
  with select_cases [of ups alg ip hash k lb] show ?thesis by auto
qed

theorem select_healthy_witness:
  "let down = (new_upstream ''http://a'')\<lparr>up_healthy := False\<rparr>; up = new_upstream ''http://b'' in
   fst (select (\<lambda>_. 0) ''r'' RoundRobin [down, up] None new_load_balancer) = Some up \<and>
   up \<in> set [down, up] \<and> up_healthy up"
proof -
  let ?down = "(new_upstream ''http://a'')\<lparr>up_healthy := False\<rparr>" and ?up = "new_upstream ''http://b''"
  have "fst (select (\<lambda>_. 0) ''r'' RoundRobin [?down, ?up] None new_load_balancer) = Some ?up"
    by code_simp
  with select_healthy [of "\<lambda>_. 0" "''r''" RoundRobin "[?down, ?up]" None new_load_balancer]
  show ?thesis by (simp add: Let_def)
qed

text \<open>
  C32. Weighted round robin gives exact shares: over as many consecutive selections as the
  weights add up to, every healthy upstream is chosen as many times as its weight (at least
  once), while the route's counter neither overflows nor is evicted.
\<close>

theorem weighted_round_robin_shares:
  fixes ups :: "upstream list"
  defines "w \<equiv> weighted_upstreams (filter up_healthy ups)"
  assumes "counter_settled k lb" and "filter up_healthy ups \<noteq> []"
    and "counter_value k lb + length w < 2 ^ 64"
  shows "mset (fst (run_n (select hash k WeightedRoundRobin ups ip) (length w) lb)) = mset (map Some w) \<and>
    length w = sum_list (map (\<lambda>u. unat (max (up_weight u) 1)) (filter up_healthy ups))"
proof -
  have "length w = sum_list (map (\<lambda>u. unat (max (up_weight u) 1)) (filter up_healthy ups))"
    by (simp add: w_def weighted_upstreams_def length_concat comp_def)
  then show ?thesis
    using wrr.one_round [of "(hash, k, ups, ip)" lb] assms weighted_not_Nil [OF assms(3)] by simp
qed

theorem weighted_round_robin_shares_witness:
  "let ups = [(new_upstream ''http://a'')\<lparr>up_weight := 2\<rparr>, new_upstream ''http://b'',
              (new_upstream ''http://c'')\<lparr>up_healthy := False\<rparr>];
       w = weighted_upstreams (filter up_healthy ups)
   in mset (fst (run_n (select (\<lambda>_. 0) ''r'' WeightedRoundRobin ups None) 3 new_load_balancer)) =
      mset (map Some w)"
proof -
  let ?ups = "[(new_upstream ''http://a'')\<lparr>up_weight := 2\<rparr>, new_upstream ''http://b'',
              (new_upstream ''http://c'')\<lparr>up_healthy := False\<rparr>]"
  have len: "length (weighted_upstreams (filter up_healthy ?ups)) = 3" by code_simp
  have "counter_settled ''r'' new_load_balancer" "counter_value ''r'' new_load_balancer = 0"
    by (simp_all add: counter_settled_def new_load_balancer_def MAX_LOAD_BALANCER_KEYS_def
        counter_value_def hm_get_or_def)
  moreover have "filter up_healthy ?ups \<noteq> []" by (simp add: new_upstream_def)
  ultimately show ?thesis
    using weighted_round_robin_shares [of "''r''" new_load_balancer ?ups "\<lambda>_. 0" None] len
    by (simp add: Let_def)
qed

text \<open>
  The load-aware algorithms follow the in-flight counts: least-connections takes a healthy
  upstream with the fewest open requests, and with more than two healthy upstreams the power
  of two choices never takes one that is busier than every other.
\<close>

theorem load_aware_choice:
  assumes "length (lb_in_flight lb) \<le> MAX_LOAD_BALANCER_KEYS"
  shows "(\<forall>u v. fst (select hash k LeastConnections ups ip lb) = Some u \<longrightarrow>
      v \<in> set ups \<longrightarrow> up_healthy v \<longrightarrow>
      upstream_in_flight lb k (up_url u) \<le> upstream_in_flight lb k (up_url v)) \<and>
    (2 < length (filter up_healthy ups) \<longrightarrow>
      (\<exists>i j. i < length (filter up_healthy ups) \<and> j < length (filter up_healthy ups) \<and> i \<noteq> j \<and>
        fst (select hash k P2c ups ip lb) = Some (filter up_healthy ups ! i) \<and>
        upstream_in_flight lb k (up_url (filter up_healthy ups ! i))
          \<le> upstream_in_flight lb k (up_url (filter up_healthy ups ! j))))"
proof -
  let ?h = "filter up_healthy ups"
  have same: "upstream_in_flight (evict_if_needed lb) = upstream_in_flight lb"
    using assms by (auto simp: upstream_in_flight_def evict_if_needed_def fun_eq_iff)
  have "upstream_in_flight lb k (up_url u) \<le> upstream_in_flight lb k (up_url v)"
    if "fst (select hash k LeastConnections ups ip lb) = Some u" "v \<in> set ups" "up_healthy v" for u v
  proof -
    have "least_connections (evict_if_needed lb) k ?h = Some u"
      using that by (auto simp: select_def Let_def filter_empty_conv split: if_splits)
    then show ?thesis
      using min_by_key_le [of _ ?h u v] that by (auto simp: least_connections_def same)
  qed
  moreover have "fst (select hash k P2c ups ip lb) =
      fst (power_of_two_choices hash k ?h (evict_if_needed lb))" if "2 < length ?h"
    using that by (auto simp: select_def Let_def)
  ultimately show ?thesis using p2c_pair [of ?h hash k "evict_if_needed lb"] same by auto
qed

theorem load_aware_choice_witness:
  "let ups = [new_upstream ''http://a'', new_upstream ''http://b''];
       lb = begin_request ''r'' ''http://a'' new_load_balancer
   in fst (select (\<lambda>_. 0) ''r'' LeastConnections ups None lb) = Some (new_upstream ''http://b'') \<and>
      upstream_in_flight lb ''r'' ''http://b'' \<le> upstream_in_flight lb ''r'' ''http://a''"
proof -
  let ?ups = "[new_upstream ''http://a'', new_upstream ''http://b'']"
    and ?lb = "begin_request ''r'' ''http://a'' new_load_balancer"
  have "length (lb_in_flight ?lb) \<le> MAX_LOAD_BALANCER_KEYS"
    by (simp add: begin_request_def evict_if_needed_def new_load_balancer_def Let_def
        hm_insert_def MAX_LOAD_BALANCER_KEYS_def)
  moreover have sel: "fst (select (\<lambda>_. 0) ''r'' LeastConnections ?ups None ?lb) = Some (new_upstream ''http://b'')"
    by code_simp
  moreover have "new_upstream ''http://a'' \<in> set ?ups" "up_healthy (new_upstream ''http://a'')"
    by (simp_all add: new_upstream_def)
  ultimately have "upstream_in_flight ?lb ''r'' (up_url (new_upstream ''http://b''))
      \<le> upstream_in_flight ?lb ''r'' (up_url (new_upstream ''http://a''))"
    using load_aware_choice [of ?lb "\<lambda>_. 0" "''r''" ?ups None] by blast
  with sel show ?thesis by (simp add: Let_def new_upstream_def)
qed

text \<open>
  C33. Rendezvous hashing moves as few clients as possible: when upstreams are taken out (by
  losing health or by being removed) and the one a client is pinned to stays, the client
  keeps it, whatever the state of the balancer.
\<close>

theorem hrw_minimal_disruption:
  assumes "fst (select hash k Hrw ups ip lb) = Some u" and "keep u"
  shows "fst (select hash k Hrw (filter keep ups) ip lb') = Some u"
proof -
  let ?id = "case ip of Some ip \<Rightarrow> ip_to_string ip | None \<Rightarrow> k"
  have m: "max_by_key (hrw_weight hash ?id) (filter up_healthy ups) = Some u"
    using assms(1) by (auto simp: select_def highest_random_weight_def Let_def split: if_splits)
  have swap: "filter up_healthy (filter keep ups) = filter keep (filter up_healthy ups)"
    by (simp add: conj_commute)
  have "max_by_key (hrw_weight hash ?id) (filter up_healthy (filter keep ups)) = Some u"
    unfolding swap using m assms(2) by (rule max_by_key_filter)
  then show ?thesis
    by (cases "filter up_healthy (filter keep ups) = []")
       (auto simp: select_def highest_random_weight_def Let_def)
qed

theorem hrw_minimal_disruption_witness:
  "let ups = [new_upstream ''http://a'', new_upstream ''http://b'']; lb = new_load_balancer in
   fst (select (\<lambda>_. 0) ''r'' Hrw (filter (\<lambda>u. up_url u \<noteq> ''http://a'') ups) None lb) =
     Some (new_upstream ''http://b'')"
proof -
  let ?ups = "[new_upstream ''http://a'', new_upstream ''http://b'']"
  have "fst (select (\<lambda>_. 0) ''r'' Hrw ?ups None new_load_balancer) = Some (new_upstream ''http://b'')"
    by code_simp
  from hrw_minimal_disruption [OF this, of "\<lambda>u. up_url u \<noteq> ''http://a''" new_load_balancer]
  show ?thesis by (simp add: new_upstream_def)
qed

text \<open>
  The in-flight counter of an upstream counts its open requests: after any interleaving of
  begins and ends, with any latencies and over any routes, it refines the specification
  \<open>open_requests\<close>, as long as the table stays below its eviction limit.
\<close>

theorem in_flight_refines:
  assumes "in_flight_settled (length es) lb"
    and "unat (upstream_in_flight lb k u) + length es < 2 ^ 64"
  shows "unat (upstream_in_flight (foldl lb_apply lb es) k u) =
    open_requests (upstream_key k u) (unat (upstream_in_flight lb k u)) es"
  using lb_run_in_flight assms by (simp add: upstream_in_flight_def)

theorem in_flight_refines_witness:
  "unat (upstream_in_flight (foldl lb_apply new_load_balancer
     [Begin ''r'' ''a'', Begin ''r'' ''b'', Begin ''r'' ''a'', End ''r'' ''a'' 7]) ''r'' ''a'') = 1"
proof -
  let ?es = "[Begin ''r'' ''a'', Begin ''r'' ''b'', Begin ''r'' ''a'', End ''r'' ''a'' 7]"
  have "in_flight_settled (length ?es) new_load_balancer"
    by (simp add: in_flight_settled_def new_load_balancer_def MAX_LOAD_BALANCER_KEYS_def)
  moreover have z: "upstream_in_flight new_load_balancer ''r'' ''a'' = 0"
    by (simp add: upstream_in_flight_def new_load_balancer_def hm_get_or_def)
  moreover have "open_requests (upstream_key ''r'' ''a'') 0 ?es = 1" by code_simp
  ultimately show ?thesis
    using in_flight_refines [of ?es new_load_balancer "''r''" "''a''"] by simp
qed

end
