(* ===== verification/Domain_Stats.thy ===== *)
theory Domain_Stats
  imports Common_Names F64 "HOL-Library.Product_Lexorder" "HOL-Library.Multiset"
begin

text \<open>
  Per-domain statistics (\<open>edge/crates/core/src/lib.rs\<close>): the counters of a domain, the bounded
  list of recent visits, the bounded maps of paths and upstreams, the top lists, and the
  snapshot that is persisted and restored. The analytics channel and the overflow file are
  outside: what \<open>try_send\<close> and the file append answer are arguments of \<open>record_event\<close>, and
  the state keeps what they accepted.
\<close>

section \<open>Definitions\<close>

definition RECENT_VISIT_LIMIT :: nat where "RECENT_VISIT_LIMIT = 5000"
definition MAX_COUNTER_KEYS :: nat where "MAX_COUNTER_KEYS = 1000"
definition OVERFLOW_COUNTER_KEY :: string where "OVERFLOW_COUNTER_KEY = ''__other__''"

record request_observation =
  ro_request_id :: string
  ro_domain :: string
  ro_method :: string
  ro_path :: string
  ro_status :: u16
  ro_latency_ms :: u64
  ro_upstream :: "string option"
  ro_remote_ip :: "ip_addr option"
  ro_location :: geo_location
  ro_timestamp_unix_ms :: u64
  ro_bytes_sent :: u64
  ro_bytes_received :: u64

record visit_snapshot =
  vs_request_id :: string
  vs_domain :: string
  vs_method :: string
  vs_path :: string
  vs_status :: u16
  vs_latency_ms :: u64
  vs_upstream :: "string option"
  vs_remote_ip :: "string option"
  vs_location :: geo_location
  vs_timestamp_unix_ms :: u64
  vs_bytes_sent :: u64
  vs_bytes_received :: u64

record location_count =
  lc_code :: string
  lc_name :: "string option"
  lc_count :: u64

record string_count =
  sc_value :: string
  sc_count :: u64

record domain_stats_counters =
  st_requests_total :: u64
  st_responses_2xx :: u64
  st_responses_3xx :: u64
  st_responses_4xx :: u64
  st_responses_5xx :: u64
  st_total_latency_ms :: u64
  st_total_bytes_sent :: u64
  st_total_bytes_received :: u64
  st_last_status :: u64
  st_last_seen_unix_ms :: u64
  st_recent_visits :: "visit_snapshot list"
  st_country_counts :: "(string, location_count) hmap"
  st_continent_counts :: "(string, location_count) hmap"
  st_path_counts :: "(string, u64) hmap"
  st_upstream_counts :: "(string, u64) hmap"

record domain_stats_snapshot =
  ds_domain :: string
  ds_requests_total :: u64
  ds_responses_2xx :: u64
  ds_responses_3xx :: u64
  ds_responses_4xx :: u64
  ds_responses_5xx :: u64
  ds_average_latency_ms :: f64
  ds_total_bytes_sent :: u64
  ds_total_bytes_received :: u64
  ds_total_bandwidth :: u64
  ds_last_status :: "u16 option"
  ds_last_seen_unix_ms :: "u64 option"
  ds_top_countries :: "location_count list"
  ds_top_continents :: "location_count list"
  ds_top_paths :: "string_count list"
  ds_top_upstreams :: "string_count list"

definition default_counters :: domain_stats_counters where
  "default_counters =
     \<lparr>st_requests_total = 0, st_responses_2xx = 0, st_responses_3xx = 0, st_responses_4xx = 0,
      st_responses_5xx = 0, st_total_latency_ms = 0, st_total_bytes_sent = 0,
      st_total_bytes_received = 0, st_last_status = 0, st_last_seen_unix_ms = 0,
      st_recent_visits = [], st_country_counts = [], st_continent_counts = [],
      st_path_counts = [], st_upstream_counts = []\<rparr>"

definition increment_count :: "string \<Rightarrow> (string, u64) hmap \<Rightarrow> (string, u64) hmap" where
  "increment_count v m =
     (if hm_contains m v \<or> length m < MAX_COUNTER_KEYS
      then hm_insert v (hm_get_or m v 0 + 1) m
      else hm_insert OVERFLOW_COUNTER_KEY (hm_get_or m OVERFLOW_COUNTER_KEY 0 + 1) m)"

definition increment_location_count ::
    "string option \<Rightarrow> string option \<Rightarrow> (string, location_count) hmap \<Rightarrow>
     (string, location_count) hmap" where
  "increment_location_count code name m =
     (let code = to_ascii_uppercase (case code of None \<Rightarrow> ''UNKNOWN'' | Some c \<Rightarrow> c);
          e = hm_get_or m code \<lparr>lc_code = code, lc_name = name, lc_count = 0\<rparr>;
          e = (if lc_name e = None then e\<lparr>lc_name := name\<rparr> else e)
      in hm_insert code (e\<lparr>lc_count := lc_count e + 1\<rparr>) m)"

definition visit_of :: "request_observation \<Rightarrow> visit_snapshot" where
  "visit_of e =
     \<lparr>vs_request_id = ro_request_id e, vs_domain = ro_domain e, vs_method = ro_method e,
      vs_path = ro_path e, vs_status = ro_status e, vs_latency_ms = ro_latency_ms e,
      vs_upstream = ro_upstream e, vs_remote_ip = map_option ip_to_string (ro_remote_ip e),
      vs_location = ro_location e, vs_timestamp_unix_ms = ro_timestamp_unix_ms e,
      vs_bytes_sent = ro_bytes_sent e, vs_bytes_received = ro_bytes_received e\<rparr>"

text \<open>\<open>while recent.len() > LIMIT { recent.pop_back() }\<close> keeps the first \<open>LIMIT\<close> visits.\<close>

fun pop_back_until :: "nat \<Rightarrow> nat \<Rightarrow> 'a list \<Rightarrow> 'a list" where
  "pop_back_until 0 limit xs = xs"
| "pop_back_until (Suc n) limit xs =
     (if limit < length xs then pop_back_until n limit (butlast xs) else xs)"

definition count_response :: "u16 \<Rightarrow> domain_stats_counters \<Rightarrow> domain_stats_counters" where
  "count_response status c =
     (if 200 \<le> status \<and> status \<le> 299 then c\<lparr>st_responses_2xx := st_responses_2xx c + 1\<rparr>
      else if 300 \<le> status \<and> status \<le> 399 then c\<lparr>st_responses_3xx := st_responses_3xx c + 1\<rparr>
      else if 400 \<le> status \<and> status \<le> 499 then c\<lparr>st_responses_4xx := st_responses_4xx c + 1\<rparr>
      else c\<lparr>st_responses_5xx := st_responses_5xx c + 1\<rparr>)"

definition record_counters ::
    "request_observation \<Rightarrow> domain_stats_counters \<Rightarrow> domain_stats_counters" where
  "record_counters e c =
     (let c = c\<lparr>st_requests_total := st_requests_total c + 1,
                st_total_latency_ms := st_total_latency_ms c + ro_latency_ms e,
                st_total_bytes_sent := st_total_bytes_sent c + ro_bytes_sent e,
                st_total_bytes_received := st_total_bytes_received c + ro_bytes_received e,
                st_last_status := ucast (ro_status e),
                st_last_seen_unix_ms := ro_timestamp_unix_ms e\<rparr>;
          c = count_response (ro_status e) c;
          loc = ro_location e;
          c = c\<lparr>st_path_counts := increment_count (ro_path e) (st_path_counts c),
                st_upstream_counts := increment_count
                  (case ro_upstream e of None \<Rightarrow> ''none'' | Some u \<Rightarrow> u) (st_upstream_counts c),
                st_country_counts := increment_location_count (geo_country_code loc)
                  (geo_country_name loc) (st_country_counts c),
                st_continent_counts := increment_location_count (geo_continent_code loc)
                  (geo_continent_name loc) (st_continent_counts c)\<rparr>;
          recent = visit_of e # st_recent_visits c
      in c\<lparr>st_recent_visits := pop_back_until (length recent) RECENT_VISIT_LIMIT recent\<rparr>)"

text \<open>\<open>sort_by\<close> count descending, then name ascending, and \<open>truncate\<close>.\<close>

definition count_rank :: "u64 \<Rightarrow> string \<Rightarrow> nat \<times> string" where
  "count_rank n name = (2 ^ 64 - unat n, name)"

definition top_location_counts :: "(string, location_count) hmap \<Rightarrow> nat \<Rightarrow> location_count list" where
  "top_location_counts m limit =
     take limit (sort_key (\<lambda>l. count_rank (lc_count l) (lc_code l)) (map snd m))"

definition top_string_counts :: "(string, u64) hmap \<Rightarrow> nat \<Rightarrow> string_count list" where
  "top_string_counts m limit =
     take limit (sort_key (\<lambda>s. count_rank (sc_count s) (sc_value s))
       (map (\<lambda>(v, n). \<lparr>sc_value = v, sc_count = n\<rparr>) m))"

definition nonzero_u16 :: "u64 \<Rightarrow> u16 option" where
  "nonzero_u16 v = (if v = 0 then None else Some (ucast v))"

definition nonzero_u64 :: "u64 \<Rightarrow> u64 option" where
  "nonzero_u64 v = (if v = 0 then None else Some v)"

definition counters_snapshot :: "string \<Rightarrow> domain_stats_counters \<Rightarrow> domain_stats_snapshot" where
  "counters_snapshot domain c =
     \<lparr>ds_domain = domain, ds_requests_total = st_requests_total c,
      ds_responses_2xx = st_responses_2xx c, ds_responses_3xx = st_responses_3xx c,
      ds_responses_4xx = st_responses_4xx c, ds_responses_5xx = st_responses_5xx c,
      ds_average_latency_ms =
        (if st_requests_total c = 0 then 0
         else f64_div (f64_of_nat (unat (st_total_latency_ms c)))
                (f64_of_nat (unat (st_requests_total c)))),
      ds_total_bytes_sent = st_total_bytes_sent c,
      ds_total_bytes_received = st_total_bytes_received c,
      ds_total_bandwidth = st_total_bytes_sent c + st_total_bytes_received c,
      ds_last_status = nonzero_u16 (st_last_status c),
      ds_last_seen_unix_ms = nonzero_u64 (st_last_seen_unix_ms c),
      ds_top_countries = top_location_counts (st_country_counts c) 10,
      ds_top_continents = top_location_counts (st_continent_counts c) 10,
      ds_top_paths = top_string_counts (st_path_counts c) 10,
      ds_top_upstreams = top_string_counts (st_upstream_counts c) 10\<rparr>"

text \<open>\<open>f64::round\<close>: half away from zero.\<close>

definition f64_nearest :: "f64 \<Rightarrow> f64" where
  "f64_nearest x = (if 0 \<le> x then of_int \<lfloor>x + 1/2\<rfloor> else of_int \<lceil>x - 1/2\<rceil>)"

definition restore_string_counts :: "string_count list \<Rightarrow> (string, u64) hmap \<Rightarrow> (string, u64) hmap" where
  "restore_string_counts items m = foldl (\<lambda>m i. hm_insert (sc_value i) (sc_count i) m) m items"

definition restore_location_counts ::
    "location_count list \<Rightarrow> (string, location_count) hmap \<Rightarrow> (string, location_count) hmap" where
  "restore_location_counts items m = foldl (\<lambda>m i. hm_insert (lc_code i) i m) m items"

definition restore_counters ::
    "domain_stats_snapshot \<Rightarrow> domain_stats_counters \<Rightarrow> domain_stats_counters" where
  "restore_counters s c = c
     \<lparr>st_requests_total := ds_requests_total s,
      st_responses_2xx := ds_responses_2xx s, st_responses_3xx := ds_responses_3xx s,
      st_responses_4xx := ds_responses_4xx s, st_responses_5xx := ds_responses_5xx s,
      st_total_latency_ms := f64_to_u64 (f64_nearest
        (f64_mul (max (ds_average_latency_ms s) 0) (f64_of_nat (unat (ds_requests_total s))))),
      st_total_bytes_sent := ds_total_bytes_sent s,
      st_total_bytes_received := ds_total_bytes_received s,
      st_last_status := (case ds_last_status s of None \<Rightarrow> 0 | Some v \<Rightarrow> ucast v),
      st_last_seen_unix_ms := (case ds_last_seen_unix_ms s of None \<Rightarrow> 0 | Some v \<Rightarrow> v),
      st_country_counts := restore_location_counts (ds_top_countries s) (st_country_counts c),
      st_continent_counts := restore_location_counts (ds_top_continents s) (st_continent_counts c),
      st_path_counts := restore_string_counts (ds_top_paths s) (st_path_counts c),
      st_upstream_counts := restore_string_counts (ds_top_upstreams s) (st_upstream_counts c)\<rparr>"

definition counters_recent_visits :: "nat \<Rightarrow> domain_stats_counters \<Rightarrow> visit_snapshot list" where
  "counters_recent_visits limit c = take limit (st_recent_visits c)"

definition counters_visits_by_request_id ::
    "string \<Rightarrow> nat \<Rightarrow> domain_stats_counters \<Rightarrow> visit_snapshot list" where
  "counters_visits_by_request_id i limit c =
     take limit (filter (\<lambda>v. vs_request_id v = i) (st_recent_visits c))"

subsection \<open>The registry of domains\<close>

datatype send_result = Sent | Full | Closed

record domain_stats_registry =
  dsr_domains :: "(string, domain_stats_counters) hmap"
  dsr_has_sink :: bool
  dsr_sent :: "request_observation list"
  dsr_has_spool :: bool
  dsr_spooled :: "request_observation list"

definition new_stats_registry :: "bool \<Rightarrow> bool \<Rightarrow> domain_stats_registry" where
  "new_stats_registry sink spool =
     \<lparr>dsr_domains = [], dsr_has_sink = sink, dsr_sent = [], dsr_has_spool = spool, dsr_spooled = []\<rparr>"

definition record_event ::
    "send_result \<Rightarrow> bool \<Rightarrow> request_observation \<Rightarrow> domain_stats_registry \<Rightarrow> domain_stats_registry" where
  "record_event sent spool_ok e r =
     (let r = (if dsr_has_sink r then
                 (case sent of
                    Sent \<Rightarrow> r\<lparr>dsr_sent := dsr_sent r @ [e]\<rparr>
                  | Full \<Rightarrow> if dsr_has_spool r \<and> spool_ok
                            then r\<lparr>dsr_spooled := dsr_spooled r @ [e]\<rparr> else r
                  | Closed \<Rightarrow> r)
               else r);
          c = hm_get_or (dsr_domains r) (ro_domain e) default_counters
      in r\<lparr>dsr_domains := hm_insert (ro_domain e) (record_counters e c) (dsr_domains r)\<rparr>)"

definition snapshot_domain :: "string \<Rightarrow> domain_stats_registry \<Rightarrow> domain_stats_snapshot option" where
  "snapshot_domain d r = map_option (counters_snapshot d) (hm_get (dsr_domains r) d)"

definition snapshots :: "domain_stats_registry \<Rightarrow> domain_stats_snapshot list" where
  "snapshots r = sort_key ds_domain (map (\<lambda>(d, c). counters_snapshot d c) (dsr_domains r))"

definition restore_snapshots ::
    "domain_stats_snapshot list \<Rightarrow> domain_stats_registry \<Rightarrow> domain_stats_registry" where
  "restore_snapshots ss r = foldl (\<lambda>r s.
     if trim (ds_domain s) = [] then r
     else r\<lparr>dsr_domains := hm_insert (ds_domain s) (restore_counters s default_counters)
              (dsr_domains r)\<rparr>) r ss"

definition recent_visits :: "string \<Rightarrow> nat \<Rightarrow> domain_stats_registry \<Rightarrow> visit_snapshot list" where
  "recent_visits d limit r =
     (case hm_get (dsr_domains r) d of None \<Rightarrow> [] | Some c \<Rightarrow> counters_recent_visits limit c)"

definition newest_first :: "nat \<Rightarrow> visit_snapshot list \<Rightarrow> visit_snapshot list" where
  "newest_first limit vs =
     take limit (sort_key (\<lambda>v. 2 ^ 64 - unat (vs_timestamp_unix_ms v)) vs)"

definition recent_visits_all :: "nat \<Rightarrow> domain_stats_registry \<Rightarrow> visit_snapshot list" where
  "recent_visits_all limit r =
     newest_first limit (concat (map (\<lambda>(d, c). counters_recent_visits limit c) (dsr_domains r)))"

definition recent_visits_by_request_id ::
    "string \<Rightarrow> nat \<Rightarrow> domain_stats_registry \<Rightarrow> visit_snapshot list" where
  "recent_visits_by_request_id i limit r =
     newest_first limit
       (concat (map (\<lambda>(d, c). counters_visits_by_request_id i limit c) (dsr_domains r)))"

definition recent_visits_for_domain_by_request_id ::
    "string \<Rightarrow> string \<Rightarrow> nat \<Rightarrow> domain_stats_registry \<Rightarrow> visit_snapshot list" where
  "recent_visits_for_domain_by_request_id d i limit r =
     (case hm_get (dsr_domains r) d of None \<Rightarrow> []
      | Some c \<Rightarrow> counters_visits_by_request_id i limit c)"

section \<open>Counting\<close>

lemma pop_back_until_take: "length xs \<le> n + limit \<Longrightarrow> pop_back_until n limit xs = take limit xs"
proof (induction n arbitrary: xs)
  case (Suc n)
  show ?case
  proof (cases "limit < length xs")
    case True
    with Suc.prems have "pop_back_until n limit (butlast xs) = take limit (butlast xs)"
      by (intro Suc.IH) simp
    also have "\<dots> = take limit xs" using True by (simp add: take_butlast)
    finally show ?thesis using True by simp
  qed simp
qed simp

abbreviation count_sum :: "('k, u64) hmap \<Rightarrow> u64" where
  "count_sum m \<equiv> sum_list (map snd m)"

lemma count_sum_insert: "count_sum (hm_insert k (hm_get_or m k 0 + 1) m) = count_sum m + 1"
  by (induction m) (auto simp: hm_insert_def hm_get_or_def algebra_simps)

lemma increment_count_sum: "count_sum (increment_count v m) = count_sum m + 1"
  by (simp add: increment_count_def count_sum_insert)

lemma increment_count_wf: "hm_wf m \<Longrightarrow> hm_wf (increment_count v m)"
  by (auto simp: increment_count_def)

lemma increment_count_bound:
  assumes "hm_wf m" and "length m \<le> MAX_COUNTER_KEYS \<or>
    length m = Suc MAX_COUNTER_KEYS \<and> hm_contains m OVERFLOW_COUNTER_KEY"
  shows "length (increment_count v m) \<le> MAX_COUNTER_KEYS \<or>
    length (increment_count v m) = Suc MAX_COUNTER_KEYS \<and>
    hm_contains (increment_count v m) OVERFLOW_COUNTER_KEY"
  using assms by (auto simp: increment_count_def hm.entries_put hm_contains_def)

text \<open>What is recorded of the events of one domain, from first to last.\<close>

definition counters_spec :: "request_observation list \<Rightarrow> domain_stats_counters \<Rightarrow> bool" where
  "counters_spec es c \<longleftrightarrow>
     st_requests_total c = of_nat (length es) \<and>
     st_responses_2xx c + st_responses_3xx c + st_responses_4xx c + st_responses_5xx c =
       st_requests_total c \<and>
     st_total_latency_ms c = sum_list (map ro_latency_ms es) \<and>
     st_total_bytes_sent c = sum_list (map ro_bytes_sent es) \<and>
     st_total_bytes_received c = sum_list (map ro_bytes_received es) \<and>
     st_recent_visits c = take RECENT_VISIT_LIMIT (map visit_of (rev es)) \<and>
     count_sum (st_path_counts c) = st_requests_total c \<and>
     count_sum (st_upstream_counts c) = st_requests_total c"

definition counters_bounded :: "domain_stats_counters \<Rightarrow> bool" where
  "counters_bounded c \<longleftrightarrow>
     (\<forall>m\<in>{st_path_counts c, st_upstream_counts c}. hm_wf m \<and>
        (length m \<le> MAX_COUNTER_KEYS \<or>
         length m = Suc MAX_COUNTER_KEYS \<and> hm_contains m OVERFLOW_COUNTER_KEY))"

lemma record_counters_fields [frame_simps]:
  "st_requests_total (record_counters e c) = st_requests_total c + 1"
  "st_total_latency_ms (record_counters e c) = st_total_latency_ms c + ro_latency_ms e"
  "st_total_bytes_sent (record_counters e c) = st_total_bytes_sent c + ro_bytes_sent e"
  "st_total_bytes_received (record_counters e c) = st_total_bytes_received c + ro_bytes_received e"
  "st_path_counts (record_counters e c) = increment_count (ro_path e) (st_path_counts c)"
  "st_upstream_counts (record_counters e c) =
     increment_count (case ro_upstream e of None \<Rightarrow> ''none'' | Some u \<Rightarrow> u) (st_upstream_counts c)"
  "st_recent_visits (record_counters e c) = take RECENT_VISIT_LIMIT (visit_of e # st_recent_visits c)"
  by (simp_all add: record_counters_def count_response_def Let_def pop_back_until_take
      del: pop_back_until.simps)

lemma record_counters_classes:
  "st_responses_2xx (record_counters e c) + st_responses_3xx (record_counters e c) +
   st_responses_4xx (record_counters e c) + st_responses_5xx (record_counters e c) =
   st_responses_2xx c + st_responses_3xx c + st_responses_4xx c + st_responses_5xx c + 1"
  by (simp add: record_counters_def count_response_def Let_def algebra_simps)

lemma record_counters_spec: "counters_spec es c \<Longrightarrow> counters_spec (es @ [e]) (record_counters e c)"
  using record_counters_classes [of e c]
  by (auto simp: counters_spec_def frame_simps increment_count_sum take_Cons' add_ac)

lemma record_counters_bounded: "counters_bounded c \<Longrightarrow> counters_bounded (record_counters e c)"
  by (simp add: counters_bounded_def frame_simps increment_count_wf increment_count_bound)

lemma run_counters:
  "counters_spec es (fold record_counters es default_counters) \<and>
   counters_bounded (fold record_counters es default_counters)"
proof (induction es rule: rev_induct)
  case Nil
  then show ?case by (simp add: counters_spec_def counters_bounded_def default_counters_def)
qed (simp add: record_counters_spec record_counters_bounded)

section \<open>Top lists\<close>

lemma count_rank_inj: "count_rank a x = count_rank b y \<longleftrightarrow> a = b \<and> x = y"
proof -
  have "unat a < 2 ^ 64" "unat b < 2 ^ 64" using unat_bound [of a] unat_bound [of b] by simp_all
  then show ?thesis by (auto simp: count_rank_def word_unat_eq_iff)
qed

lemma count_rank_le: "count_rank a x \<le> count_rank b y \<Longrightarrow> b \<le> a"
proof -
  have "unat a < 2 ^ 64" "unat b < 2 ^ 64" using unat_bound [of a] unat_bound [of b] by simp_all
  then show "count_rank a x \<le> count_rank b y \<Longrightarrow> b \<le> a"
    by (auto simp: count_rank_def less_eq_prod_def word_le_nat_alt)
qed

lemma string_rank_inj:
  "hm_wf m \<Longrightarrow> inj_on (\<lambda>s. count_rank (sc_count s) (sc_value s)) (set (map (\<lambda>(v, n). \<lparr>sc_value = v, sc_count = n\<rparr>) m))"
  by (auto intro!: inj_onI simp: count_rank_inj)

lemma top_string_counts_perm:
  assumes "hm_wf m" and "mset m = mset m'"
  shows "top_string_counts m k = top_string_counts m' k"
proof -
  let ?f = "\<lambda>(v, n). \<lparr>sc_value = v, sc_count = n\<rparr>" and ?r = "\<lambda>s. count_rank (sc_count s) (sc_value s)"
  have "sort_key ?r (map ?f m) = sort_key ?r (map ?f m')"
    by (rule sort_key_inj_key_eq) (use assms string_rank_inj [OF assms(1)] in auto)
  then show ?thesis by (simp add: top_string_counts_def)
qed

lemma sorted_take_key: "sorted (map f (take k (sort_key f xs)))"
  by (metis sorted_sort_key sorted_wrt_take take_map)

text \<open>Restoring a list that is already sorted and short gives it back.\<close>

lemma restore_sorted_strings:
  assumes "distinct (map sc_value items)"
    and "sorted (map (\<lambda>s. count_rank (sc_count s) (sc_value s)) items)" and "length items \<le> k"
  shows "top_string_counts (restore_string_counts items []) k = items"
proof -
  have "restore_string_counts items [] = map (\<lambda>i. (sc_value i, sc_count i)) items"
    using assms(1) by (simp add: restore_string_counts_def foldl_insert_fresh)
  moreover have "sort_key (\<lambda>s. count_rank (sc_count s) (sc_value s)) items = items"
    using assms(2) by (rule sort_key_id_if_sorted)
  moreover have "map (\<lambda>x. \<lparr>sc_value = sc_value x, sc_count = sc_count x\<rparr>) items = items"
    by (simp add: map_idI)
  ultimately show ?thesis
    using assms(3) by (simp add: top_string_counts_def comp_def)
qed

lemma restore_sorted_locations:
  assumes "distinct (map lc_code items)"
    and "sorted (map (\<lambda>l. count_rank (lc_count l) (lc_code l)) items)" and "length items \<le> k"
  shows "top_location_counts (restore_location_counts items []) k = items"
proof -
  have "restore_location_counts items [] = map (\<lambda>i. (lc_code i, i)) items"
    using assms(1) by (simp add: restore_location_counts_def foldl_insert_fresh)
  moreover have "sort_key (\<lambda>l. count_rank (lc_count l) (lc_code l)) items = items"
    using assms(2) by (rule sort_key_id_if_sorted)
  ultimately show ?thesis
    using assms(3) by (simp add: top_location_counts_def comp_def)
qed

lemma distinct_take_sort:
  "distinct (map g xs) \<Longrightarrow> distinct (map g (take k (sort_key f xs)))"
proof -
  assume "distinct (map g xs)"
  moreover have "mset (map g (sort_key f xs)) = mset (map g xs)" by simp
  ultimately have "distinct (map g (sort_key f xs))" by (metis distinct_count_atmost_1 set_mset_mset)
  then show ?thesis by (simp add: distinct_take flip: take_map)
qed

lemma top_strings_restore:
  assumes "hm_wf m"
  shows "top_string_counts (restore_string_counts (top_string_counts m k) []) k = top_string_counts m k"
proof (rule restore_sorted_strings)
  have "distinct (map sc_value (map (\<lambda>(v, n). \<lparr>sc_value = v, sc_count = n\<rparr>) m))"
    using assms by (simp add: hm_wf_def comp_def case_prod_beta)
  then show "distinct (map sc_value (top_string_counts m k))"
    unfolding top_string_counts_def by (rule distinct_take_sort)
qed (simp_all add: top_string_counts_def sorted_take_key)

definition locations_wf :: "(string, location_count) hmap \<Rightarrow> bool" where
  "locations_wf m \<longleftrightarrow> hm_wf m \<and> list_all (\<lambda>(k, l). lc_code l = k) m"

lemma top_locations_restore:
  assumes "locations_wf m"
  shows "top_location_counts (restore_location_counts (top_location_counts m k) []) k =
    top_location_counts m k"
proof (rule restore_sorted_locations)
  have "map lc_code (map snd m) = map fst m"
    using assms by (auto simp: locations_wf_def list_all_iff)
  moreover have "distinct (map fst m)" using assms by (simp add: locations_wf_def hm_wf_def)
  ultimately have "distinct (map lc_code (map snd m))" by (simp only:)
  then show "distinct (map lc_code (top_location_counts m k))"
    unfolding top_location_counts_def by (rule distinct_take_sort)
qed (simp_all add: top_location_counts_def sorted_take_key)

section \<open>Restoring the latency total\<close>

lemma restored_latency_error:
  assumes "0 \<le> l" and "l < 2 ^ 50" and "0 < n"
  shows "\<bar>f64_mul (f64_div l n) n - l\<bar> < 1/2"
proof -
  define a where "a = f64_div l n"
  have a: "\<bar>a - l / n\<bar> \<le> (l / n) / 2 ^ 53"
    using f64_round_error [of "l / n"] assms by (simp add: a_def f64_div_def)
  have "\<bar>a * n - l\<bar> = \<bar>a - l / n\<bar> * n" using assms(3) by (simp add: field_simps abs_mult_pos)
  also have "\<dots> \<le> (l / n) / 2 ^ 53 * n" using a assms(3) by (intro mult_right_mono) auto
  also have "\<dots> = l / 2 ^ 53" using assms(3) by simp
  finally have an: "\<bar>a * n - l\<bar> \<le> l / 2 ^ 53" .
  have "\<bar>f64_mul a n - a * n\<bar> \<le> \<bar>a * n\<bar> / 2 ^ 53"
    unfolding f64_mul_def by (rule f64_round_error)
  moreover have "l / 2 ^ 53 \<le> l" using assms(1) by simp
  then have "\<bar>a * n\<bar> \<le> 2 * l" using an by linarith
  ultimately have "\<bar>f64_mul a n - a * n\<bar> \<le> 2 * l / 2 ^ 53" by (simp add: divide_right_mono)
  moreover have "\<bar>f64_mul a n - l\<bar> \<le> \<bar>f64_mul a n - a * n\<bar> + \<bar>a * n - l\<bar>" by linarith
  moreover have "2 * l / 2 ^ 53 + l / 2 ^ 53 < 1/2" using assms(2) by simp
  ultimately show ?thesis using an by (simp add: a_def)
qed

lemma f64_nearest_int:
  assumes "\<bar>x - of_int k\<bar> < 1/2" and "0 \<le> k"
  shows "f64_nearest x = of_int k"
proof (cases "0 \<le> x")
  case True
  have "\<lfloor>x + 1/2\<rfloor> = k" using assms(1) by (intro floor_unique) linarith+
  with True show ?thesis by (simp add: f64_nearest_def)
next
  case False
  with assms have "k = 0" by (auto simp: abs_less_iff)
  then have "\<lceil>x - 1/2\<rceil> = 0" using False assms(1) by (intro ceiling_unique) auto
  with False \<open>k = 0\<close> show ?thesis by (simp add: f64_nearest_def)
qed

lemma f64_to_u64_of_nat: "n < 2 ^ 64 \<Longrightarrow> f64_to_u64 (of_int (int n)) = of_nat n"
proof -
  assume n: "n < 2 ^ 64"
  then have "rat_of_nat n < of_nat (2 ^ 64)" by (simp only: of_nat_less_iff)
  then show ?thesis by (auto simp: f64_to_u64_def)
qed

lemma f64_div_nonneg: "0 \<le> a \<Longrightarrow> 0 \<le> b \<Longrightarrow> 0 \<le> f64_div a b"
  by (simp add: f64_div_def f64_round_nonneg)

lemma restored_latency:
  assumes "l < 2 ^ 50" and "0 < n" and "n < 2 ^ 53"
  shows "f64_to_u64 (f64_nearest (f64_mul (max (f64_div (f64_of_nat l) (f64_of_nat n)) 0) (f64_of_nat n))) =
    of_nat l"
proof -
  have l: "f64_of_nat l = of_nat l" and n: "f64_of_nat n = of_nat n"
    using assms by (auto intro!: f64_of_nat_exact)
  have "rat_of_nat l < of_nat (2 ^ 50)" using assms(1) by (simp only: of_nat_less_iff)
  then have "\<bar>f64_mul (f64_div (of_nat l) (of_nat n)) (of_nat n) - of_int (int l)\<bar> < 1/2"
    using restored_latency_error [of "of_nat l" "of_nat n"] assms(2) by simp
  then have "f64_nearest (f64_mul (f64_div (of_nat l) (of_nat n)) (of_nat n)) = of_int (int l)"
    by (rule f64_nearest_int) simp
  moreover have "max (f64_div (of_nat l) (of_nat n)) 0 = f64_div (of_nat l) (of_nat n)"
    using f64_div_nonneg [of "of_nat l" "of_nat n"] by (simp add: max_def)
  ultimately show ?thesis using f64_to_u64_of_nat [of l] assms(1) by (simp add: l n)
qed

lemma ucast_u16_u64 [simp]: "(ucast (ucast (s :: u16) :: u64) :: u16) = s"
  by transfer simp

lemma ucast_u16_zero [simp]: "(ucast (s :: u16) :: u64) = 0 \<longleftrightarrow> s = 0"
  by transfer simp

section \<open>The registry\<close>

lemma record_event_domain:
  "hm_get (dsr_domains (record_event sent ok e r)) d =
   (if d = ro_domain e then Some (record_counters e (hm_get_or (dsr_domains r) d default_counters))
    else hm_get (dsr_domains r) d)"
  by (simp add: record_event_def Let_def split: send_result.split)

lemma record_event_flags [frame_simps]:
  "dsr_has_sink (record_event sent ok e r) = dsr_has_sink r"
  "dsr_has_spool (record_event sent ok e r) = dsr_has_spool r"
  by (simp_all add: record_event_def Let_def split: send_result.split)

lemma record_event_analytics:
  "dsr_sent (record_event sent ok e r) =
     dsr_sent r @ (if dsr_has_sink r \<and> sent = Sent then [e] else [])"
  "dsr_spooled (record_event sent ok e r) =
     dsr_spooled r @ (if dsr_has_sink r \<and> sent = Full \<and> dsr_has_spool r \<and> ok then [e] else [])"
  by (simp_all add: record_event_def Let_def split: send_result.split)

text \<open>A run of the registry: each event with what the channel and the overflow file answered.\<close>

definition run_stats ::
    "(send_result \<times> bool \<times> request_observation) list \<Rightarrow> domain_stats_registry \<Rightarrow> domain_stats_registry" where
  "run_stats evs r = fold (\<lambda>(sent, ok, e). record_event sent ok e) evs r"

abbreviation events_of :: "string \<Rightarrow> (send_result \<times> bool \<times> request_observation) list \<Rightarrow> request_observation list" where
  "events_of d evs \<equiv> filter (\<lambda>e. ro_domain e = d) (map (\<lambda>(sent, ok, e). e) evs)"

lemma run_stats_domain:
  "hm_get_or (dsr_domains (run_stats evs r)) d default_counters =
   fold record_counters (events_of d evs) (hm_get_or (dsr_domains r) d default_counters)"
  by (induction evs arbitrary: r)
     (auto simp: run_stats_def record_event_domain hm_get_or_def split: prod.splits)

lemma run_stats_analytics:
  assumes "dsr_has_sink r" and "dsr_has_spool r"
    and "\<forall>(sent, ok, e)\<in>set evs. sent = Sent \<or> sent = Full \<and> ok"
  shows "mset (dsr_sent (run_stats evs r)) + mset (dsr_spooled (run_stats evs r)) =
    mset (dsr_sent r) + mset (dsr_spooled r) + mset (map (\<lambda>(sent, ok, e). e) evs)"
  using assms
proof (induction evs arbitrary: r)
  case (Cons ev evs)
  obtain sent ok e where ev: "ev = (sent, ok, e)" by (cases ev)
  have "mset (dsr_sent (record_event sent ok e r)) + mset (dsr_spooled (record_event sent ok e r)) =
      mset (dsr_sent r) + mset (dsr_spooled r) + {#e#}"
    using Cons.prems ev by (auto simp: record_event_analytics)
  with Cons.IH [of "record_event sent ok e r"] Cons.prems ev show ?case
    by (simp add: run_stats_def frame_simps)
qed (simp add: run_stats_def)

section \<open>Properties\<close>

text \<open>
  C38. The statistics of a domain account for every one of its requests and for nothing else:
  after any run from an empty registry, each domain has counted exactly its own events, the
  four response classes add up to the requests, the totals are the sums over the events, the
  path and upstream counts add up to the requests (modulo the 64-bit width), and the recent
  visits are the newest 5000 events, newest first.
\<close>

theorem stats_account_for_events:
  "counters_spec (events_of d evs)
     (hm_get_or (dsr_domains (run_stats evs (new_stats_registry sink spool))) d default_counters)"
  using run_counters [of "events_of d evs"]
  by (simp add: run_stats_domain) (simp add: new_stats_registry_def hm_get_or_def)

text \<open>
  The memory of the statistics is bounded per domain: whatever paths and upstreams the
  requests name, a counter map holds at most \<open>MAX_COUNTER_KEYS\<close> entries, or one more that is
  the overflow entry.
\<close>

theorem stats_counters_bounded:
  "counters_bounded
     (hm_get_or (dsr_domains (run_stats evs (new_stats_registry sink spool))) d default_counters)"
  using run_counters [of "events_of d evs"]
  by (simp add: run_stats_domain) (simp add: new_stats_registry_def hm_get_or_def)

text \<open>
  With a channel that is open and an overflow file that accepts appends, no analytics event
  is lost or duplicated: the events sent and the events spooled are together the events
  recorded.
\<close>

theorem analytics_conserved:
  assumes "\<forall>(sent, ok, e)\<in>set evs. sent = Sent \<or> sent = Full \<and> ok"
  shows "mset (dsr_sent (run_stats evs (new_stats_registry True True))) +
    mset (dsr_spooled (run_stats evs (new_stats_registry True True))) =
    mset (map (\<lambda>(sent, ok, e). e) evs)"
  using run_stats_analytics [OF _ _ assms, of "new_stats_registry True True"]
  by (simp add: new_stats_registry_def)

definition demo_event :: "string \<Rightarrow> u16 \<Rightarrow> request_observation" where
  "demo_event path status =
     \<lparr>ro_request_id = ''1'', ro_domain = ''a.com'', ro_method = ''GET'', ro_path = path,
      ro_status = status, ro_latency_ms = 7, ro_upstream = None, ro_remote_ip = None,
      ro_location = geo_unknown, ro_timestamp_unix_ms = 1, ro_bytes_sent = 10, ro_bytes_received = 3\<rparr>"

theorem analytics_conserved_witness:
  "let evs = [(Sent, True, demo_event ''/'' 200), (Full, True, demo_event ''/x'' 404)];
       r = run_stats evs (new_stats_registry True True)
   in mset (dsr_sent r) + mset (dsr_spooled r) = {#demo_event ''/'' 200, demo_event ''/x'' 404#}"
  using analytics_conserved [of "[(Sent, True, demo_event ''/'' 200), (Full, True, demo_event ''/x'' 404)]"]
  by (simp add: Let_def)

text \<open>
  A restart loses nothing that a snapshot shows: restoring the snapshot of a domain into
  fresh counters and taking a snapshot again gives the same snapshot, including the average
  latency, when the latency total is below \<open>2 ^ 50\<close> ms and the status is a \<open>u16\<close>.
\<close>

theorem snapshot_restore_roundtrip:
  assumes "hm_wf (st_path_counts c)" and "hm_wf (st_upstream_counts c)"
    and "locations_wf (st_country_counts c)" and "locations_wf (st_continent_counts c)"
    and "unat (st_total_latency_ms c) < 2 ^ 50" and "unat (st_requests_total c) < 2 ^ 53"
    and "st_last_status c = ucast (status :: u16)"
  shows "counters_snapshot d (restore_counters (counters_snapshot d c) default_counters) =
    counters_snapshot d c"
proof -
  have lat: "st_requests_total c \<noteq> 0 \<Longrightarrow>
      st_total_latency_ms (restore_counters (counters_snapshot d c) default_counters) = st_total_latency_ms c"
    using restored_latency [OF assms(5) _ assms(6)]
    by (simp add: restore_counters_def counters_snapshot_def unat_gt_0)
  have status: "nonzero_u16 (case nonzero_u16 (st_last_status c) of None \<Rightarrow> 0 | Some v \<Rightarrow> ucast v) =
      nonzero_u16 (st_last_status c)"
    by (auto simp: nonzero_u16_def assms(7) split: if_splits)
  have seen: "nonzero_u64 (case nonzero_u64 v of None \<Rightarrow> 0 | Some v \<Rightarrow> v) = nonzero_u64 v" for v
    by (simp add: nonzero_u64_def)
  show ?thesis
    using lat status seen top_strings_restore [OF assms(1)] top_strings_restore [OF assms(2)]
      top_locations_restore [OF assms(3)] top_locations_restore [OF assms(4)]
    by (simp add: counters_snapshot_def restore_counters_def default_counters_def)
qed

theorem snapshot_restore_roundtrip_witness:
  "let c = record_counters (demo_event ''/'' 200) default_counters in
   counters_snapshot ''a.com'' (restore_counters (counters_snapshot ''a.com'' c) default_counters) =
     counters_snapshot ''a.com'' c"
proof -
  let ?c = "record_counters (demo_event ''/'' 200) default_counters"
  have "hm_wf (st_path_counts ?c)" "hm_wf (st_upstream_counts ?c)"
    using run_counters [of "[demo_event ''/'' 200]"] by (simp_all add: counters_bounded_def)
  moreover have "locations_wf (st_country_counts ?c)" "locations_wf (st_continent_counts ?c)"
    by code_simp+
  moreover have "unat (st_total_latency_ms ?c) < 2 ^ 50" "unat (st_requests_total ?c) < 2 ^ 53"
    by (simp_all add: frame_simps default_counters_def demo_event_def)
  moreover have "st_last_status ?c = ucast (200 :: u16)" by code_simp
  ultimately show ?thesis
    unfolding Let_def by (rule snapshot_restore_roundtrip)
qed

end
