(* ===== verification/Edge_State.thy ===== *)
theory Edge_State
  imports Route_Registry Security_Engine Load_Balancer Domain_Stats
begin

text \<open>
  The shared state of the edge (\<open>EdgeState\<close> of \<open>edge/crates/core/src/lib.rs\<close>) and the metrics
  it keeps up to date (\<open>PxxlMetrics\<close> of \<open>edge/crates/metrics/src/lib.rs\<close>). A Prometheus vector
  is a store from the values of its labels to the value of the metric; its text encoding is
  not modelled.
\<close>

section \<open>Definitions\<close>

subsection \<open>Metrics\<close>

type_synonym counter_vec = "(string list, nat) hmap"
type_synonym gauge_vec = "(string list, int) hmap"

record pxxl_metrics =
  pm_requests_total :: counter_vec
  pm_active_connections :: int
  pm_upstream_latency_seconds :: "(string list, f64 list) hmap"
  pm_rate_limited_total :: counter_vec
  pm_blocked_total :: counter_vec
  pm_container_route_changes_total :: counter_vec
  pm_docker_route_changes_total :: nat
  pm_tls_certificates_total :: counter_vec
  pm_routes_total :: gauge_vec
  pm_router_request_duration_seconds :: "(string list, f64 list) hmap"
  pm_upstream_in_flight :: gauge_vec
  pm_middleware_executions_total :: counter_vec
  pm_upstream_health_status :: gauge_vec
  pm_passive_health_events_total :: counter_vec
  pm_retries_total :: counter_vec
  pm_mirror_requests_total :: counter_vec
  pm_circuit_breaker_open_total :: counter_vec
  pm_in_flight_limited_total :: counter_vec
  pm_adaptive_blocks_total :: counter_vec
  pm_adaptive_active_blocks :: int
  pm_adaptive_observed_ips :: int

definition new_metrics :: pxxl_metrics where
  "new_metrics =
     \<lparr>pm_requests_total = [], pm_active_connections = 0, pm_upstream_latency_seconds = [],
      pm_rate_limited_total = [], pm_blocked_total = [], pm_container_route_changes_total = [],
      pm_docker_route_changes_total = 0, pm_tls_certificates_total = [], pm_routes_total = [],
      pm_router_request_duration_seconds = [], pm_upstream_in_flight = [],
      pm_middleware_executions_total = [], pm_upstream_health_status = [],
      pm_passive_health_events_total = [], pm_retries_total = [], pm_mirror_requests_total = [],
      pm_circuit_breaker_open_total = [], pm_in_flight_limited_total = [],
      pm_adaptive_blocks_total = [], pm_adaptive_active_blocks = 0, pm_adaptive_observed_ips = 0\<rparr>"

text \<open>\<open>with_label_values(..).inc()\<close>, \<open>.set(v)\<close>, \<open>.add(v)\<close> and \<open>.get()\<close>.\<close>

definition counter_inc :: "string list \<Rightarrow> counter_vec \<Rightarrow> counter_vec" where
  "counter_inc ls v = hm_insert ls (hm_get_or v ls 0 + 1) v"

definition gauge_set :: "string list \<Rightarrow> int \<Rightarrow> gauge_vec \<Rightarrow> gauge_vec" where
  "gauge_set ls x v = hm_insert ls x v"

definition gauge_add :: "string list \<Rightarrow> int \<Rightarrow> gauge_vec \<Rightarrow> gauge_vec" where
  "gauge_add ls x v = hm_insert ls (hm_get_or v ls 0 + x) v"

definition gauge_get :: "gauge_vec \<Rightarrow> string list \<Rightarrow> int" where
  "gauge_get v ls = hm_get_or v ls 0"

subsection \<open>The shared state\<close>

definition source_label :: "route_source \<Rightarrow> string" where
  "source_label s = (case s of Static \<Rightarrow> ''static'' | Docker \<Rightarrow> ''docker'' | Podman \<Rightarrow> ''podman'' | Api \<Rightarrow> ''api'')"

definition count_sources :: "route list \<Rightarrow> (string, int) hmap" where
  "count_sources rs =
     fold (\<lambda>r m. hm_insert (source_label (rt_source r)) (hm_get_or m (source_label (rt_source r)) 0 + 1) m) rs
       [(''static'', 0), (''docker'', 0), (''podman'', 0), (''api'', 0)]"

definition refresh_route_metrics :: "route_table \<Rightarrow> pxxl_metrics \<Rightarrow> pxxl_metrics" where
  "refresh_route_metrics t m =
     m\<lparr>pm_routes_total := fold (\<lambda>(source, n). gauge_set [source] n) (count_sources (snapshot t))
          (pm_routes_total m)\<rparr>"

definition route_upstream_health_label :: "string \<Rightarrow> string \<Rightarrow> string \<Rightarrow> string" where
  "route_upstream_health_label domain path_prefix upstream_url =
     domain @ ''|'' @ path_prefix @ ''|'' @ upstream_url"

record edge_state =
  es_routes :: route_table
  es_security :: security_engine
  es_load_balancer :: load_balancer
  es_metrics :: pxxl_metrics
  es_stats :: domain_stats_registry

definition new_with_stats_sink ::
    "route_table \<Rightarrow> security_engine \<Rightarrow> load_balancer \<Rightarrow> pxxl_metrics \<Rightarrow> bool \<Rightarrow> bool \<Rightarrow> edge_state" where
  "new_with_stats_sink routes security lb metrics stats_sink spool_dir =
     \<lparr>es_routes = routes, es_security = security, es_load_balancer = lb,
      es_metrics = refresh_route_metrics routes metrics,
      es_stats = new_stats_registry stats_sink spool_dir\<rparr>"

definition new_edge_state ::
    "route_table \<Rightarrow> security_engine \<Rightarrow> load_balancer \<Rightarrow> pxxl_metrics \<Rightarrow> edge_state" where
  "new_edge_state routes security lb metrics =
     new_with_stats_sink routes security lb metrics False False"

definition refresh_metrics :: "edge_state \<Rightarrow> edge_state" where
  "refresh_metrics s = s\<lparr>es_metrics := refresh_route_metrics (es_routes s) (es_metrics s)\<rparr>"

definition replace_routes_from_source :: "route_source \<Rightarrow> route list \<Rightarrow> edge_state \<Rightarrow> edge_state" where
  "replace_routes_from_source source rs s =
     refresh_metrics (s\<lparr>es_routes := replace_source source rs (es_routes s)\<rparr>)"

definition edge_upsert_api_route :: "route \<Rightarrow> edge_state \<Rightarrow> bool \<times> edge_state" where
  "edge_upsert_api_route r s =
     (if list_ex (\<lambda>e. api_routes_equivalent e r) (snapshot (es_routes s)) then (False, s)
      else (True, refresh_metrics (s\<lparr>es_routes := upsert_api_route r (es_routes s)\<rparr>)))"

definition edge_delete_api_domain :: "string \<Rightarrow> edge_state \<Rightarrow> bool \<times> edge_state" where
  "edge_delete_api_domain d s =
     (let (deleted, t) = delete_api_domain d (es_routes s)
      in (deleted, refresh_metrics (s\<lparr>es_routes := t\<rparr>)))"

definition set_health_gauge :: "string \<Rightarrow> bool \<Rightarrow> edge_state \<Rightarrow> edge_state" where
  "set_health_gauge label healthy s =
     s\<lparr>es_metrics := (es_metrics s)\<lparr>pm_upstream_health_status :=
         gauge_set [label] (of_bool healthy) (pm_upstream_health_status (es_metrics s))\<rparr>\<rparr>"

definition edge_set_upstream_health :: "(string, bool) hmap \<Rightarrow> edge_state \<Rightarrow> edge_state" where
  "edge_set_upstream_health health s =
     fold (\<lambda>(upstream, healthy). set_health_gauge upstream healthy) health
       (s\<lparr>es_routes := set_upstream_health health (es_routes s)\<rparr>)"

definition edge_set_single_upstream_health :: "string \<Rightarrow> bool \<Rightarrow> edge_state \<Rightarrow> edge_state" where
  "edge_set_single_upstream_health url healthy s =
     set_health_gauge url healthy (s\<lparr>es_routes := set_single_upstream_health url healthy (es_routes s)\<rparr>)"

definition health_label :: "route_upstream_health \<Rightarrow> string" where
  "health_label upd =
     route_upstream_health_label (ruh_domain upd) (ruh_path_prefix upd) (ruh_upstream_url upd)"

definition edge_set_route_upstream_health :: "route_upstream_health \<Rightarrow> edge_state \<Rightarrow> edge_state" where
  "edge_set_route_upstream_health upd s =
     set_health_gauge (health_label upd) (ruh_healthy upd)
       (s\<lparr>es_routes := set_route_upstream_health upd (es_routes s)\<rparr>)"

definition edge_set_route_upstream_health_many :: "route_upstream_health list \<Rightarrow> edge_state \<Rightarrow> edge_state" where
  "edge_set_route_upstream_health_many upds s =
     fold (\<lambda>upd. set_health_gauge (health_label upd) (ruh_healthy upd)) upds
       (s\<lparr>es_routes := set_route_upstream_health_many upds (es_routes s)\<rparr>)"

subsection \<open>Runs\<close>

datatype edge_op =
    ReplaceSource route_source "route list"
  | UpsertApi route
  | DeleteApi string
  | SetHealth "(string, bool) hmap"
  | SetSingleHealth string bool
  | SetRouteHealth route_upstream_health
  | SetRouteHealthMany "route_upstream_health list"

fun edge_apply :: "edge_op \<Rightarrow> edge_state \<Rightarrow> edge_state" where
  "edge_apply (ReplaceSource source rs) s = replace_routes_from_source source rs s"
| "edge_apply (UpsertApi r) s = snd (edge_upsert_api_route r s)"
| "edge_apply (DeleteApi d) s = snd (edge_delete_api_domain d s)"
| "edge_apply (SetHealth h) s = edge_set_upstream_health h s"
| "edge_apply (SetSingleHealth url healthy) s = edge_set_single_upstream_health url healthy s"
| "edge_apply (SetRouteHealth upd) s = edge_set_route_upstream_health upd s"
| "edge_apply (SetRouteHealthMany upds) s = edge_set_route_upstream_health_many upds s"

definition routes_of_source :: "route_source \<Rightarrow> edge_state \<Rightarrow> nat" where
  "routes_of_source source s = length (filter (\<lambda>r. rt_source r = source) (snapshot (es_routes s)))"

definition gauges_exact :: "edge_state \<Rightarrow> bool" where
  "gauges_exact s \<longleftrightarrow> table_wf (es_routes s) \<and>
     (\<forall>source. gauge_get (pm_routes_total (es_metrics s)) [source_label source] =
        int (routes_of_source source s))"

section \<open>Route gauges\<close>

lemma source_label_inj [simp]: "source_label a = source_label b \<longleftrightarrow> a = b"
  by (cases a; cases b) (simp_all add: source_label_def)

lemma gauge_laws [simp]:
  "gauge_get (gauge_set ls x v) ls' = (if ls' = ls then x else gauge_get v ls')"
  "gauge_get (gauge_add ls x v) ls' = (if ls' = ls then gauge_get v ls + x else gauge_get v ls')"
  by (simp_all add: gauge_get_def gauge_set_def gauge_add_def)

lemma count_sources_get:
  "hm_get (count_sources rs) (source_label source) =
     Some (int (length (filter (\<lambda>r. rt_source r = source) rs)))"
proof -
  let ?step = "\<lambda>r m. hm_insert (source_label (rt_source r)) (hm_get_or m (source_label (rt_source r)) 0 + 1) m"
  have "hm_get (fold ?step rs m) (source_label source) =
      Some (x + int (length (filter (\<lambda>r. rt_source r = source) rs)))"
    if "hm_get m (source_label source) = Some x" for m x
    using that
  proof (induction rs arbitrary: m x)
    case (Cons r rs)
    show ?case
    proof (cases "rt_source r = source")
      case True
      with Cons.prems have "hm_get (?step r m) (source_label source) = Some (x + 1)" by (simp add: hm_get_or_def)
      from Cons.IH [OF this] True show ?thesis by simp
    next
      case False
      with Cons.prems have "hm_get (?step r m) (source_label source) = Some x" by simp
      from Cons.IH [OF this] False show ?thesis by simp
    qed
  qed simp
  from this [of "[(''static'', 0), (''docker'', 0), (''podman'', 0), (''api'', 0)]" 0]
  show ?thesis by (cases source) (simp_all add: count_sources_def source_label_def)
qed

lemma count_sources_wf: "hm_wf (count_sources rs)"
proof -
  have "hm_wf (fold (\<lambda>r m. hm_insert (source_label (rt_source r)) (hm_get_or m (source_label (rt_source r)) 0 + 1) m) rs m)"
    if "hm_wf m" for m :: "(string, int) hmap"
    using that by (induction rs arbitrary: m) auto
  then show ?thesis unfolding count_sources_def by (simp add: hm_wf_def)
qed

lemma gauge_set_all:
  "hm_wf kvs \<Longrightarrow> gauge_get (fold (\<lambda>(k, n). gauge_set [k] n) kvs v) [k'] =
     (case hm_get kvs k' of None \<Rightarrow> gauge_get v [k'] | Some n \<Rightarrow> n)"
proof (induction kvs arbitrary: v)
  case (Cons kv kvs)
  obtain k n where kv: "kv = (k, n)" by (cases kv)
  with Cons.prems have "hm_wf kvs" "k \<notin> fst ` set kvs" by (simp_all add: hm_wf_def)
  moreover from this(2) have "hm_get kvs k = None" by (simp add: map_of_eq_None_iff)
  ultimately show ?case using Cons.IH [of "gauge_set [k] n v"] kv
    by (simp split: option.split)
qed simp

lemma refresh_exact: "table_wf (es_routes s) \<Longrightarrow> gauges_exact (refresh_metrics s)"
  by (simp add: gauges_exact_def refresh_metrics_def refresh_route_metrics_def routes_of_source_def
      gauge_set_all count_sources_wf count_sources_get)

lemma health_gauge_fields [simp]:
  "es_routes (set_health_gauge l h s) = es_routes s"
  "pm_routes_total (es_metrics (set_health_gauge l h s)) = pm_routes_total (es_metrics s)"
  by (simp_all add: set_health_gauge_def)

lemma health_gauges_fields [simp]:
  "es_routes (fold (\<lambda>x. set_health_gauge (f x) (g x)) xs s) = es_routes s"
  "pm_routes_total (es_metrics (fold (\<lambda>x. set_health_gauge (f x) (g x)) xs s)) = pm_routes_total (es_metrics s)"
  by (induction xs arbitrary: s) simp_all

text \<open>Updates of health keep the source of every route, so the gauges stay right.\<close>

lemma health_keeps_sources:
  assumes "table_wf t"
  shows "map rt_source (snapshot (set_upstream_health h t)) = map rt_source (snapshot t)"
    and "map rt_source (snapshot (set_route_upstream_health upd t)) = map rt_source (snapshot t)"
    and "map rt_source (snapshot (set_route_upstream_health_many upds t)) = map rt_source (snapshot t)"
proof -
  show "map rt_source (snapshot (set_upstream_health h t)) = map rt_source (snapshot t)"
    using assms by (simp add: set_upstream_health_snapshot frame_simps)
  have one: "map rt_source (snapshot (set_route_upstream_health upd t)) = map rt_source (snapshot t)"
    if "table_wf t" for upd t
  proof (cases "update_ignored upd")
    case False
    then show ?thesis using that
      by (simp add: set_route_health_snapshot update_route_health_def frame_simps)
  qed (simp add: set_route_upstream_health_def)
  then show "map rt_source (snapshot (set_route_upstream_health upd t)) = map rt_source (snapshot t)"
    using assms .
  have "map rt_source (snapshot (foldl (\<lambda>t upd. set_route_upstream_health upd t) t upds)) =
      map rt_source (snapshot t)" if "table_wf t" for t
    using that by (induction upds arbitrary: t) (simp_all add: one registry_ops_wf)
  then show "map rt_source (snapshot (set_route_upstream_health_many upds t)) = map rt_source (snapshot t)"
    using assms by (simp add: set_many_snapshot)
qed

lemma same_sources_exact:
  assumes "gauges_exact s" and "map rt_source (snapshot (es_routes s')) = map rt_source (snapshot (es_routes s))"
    and "table_wf (es_routes s')" and "pm_routes_total (es_metrics s') = pm_routes_total (es_metrics s)"
  shows "gauges_exact s'"
proof -
  have "routes_of_source source s = length (filter (\<lambda>x. x = source) (map rt_source (snapshot (es_routes s))))"
    for source s by (simp add: routes_of_source_def filter_map comp_def)
  then have "routes_of_source source s' = routes_of_source source s" for source
    by (simp only: assms(2))
  with assms show ?thesis by (simp add: gauges_exact_def)
qed

lemma edge_apply_exact: "gauges_exact s \<Longrightarrow> gauges_exact (edge_apply oper s)"
proof (cases oper)
  case (SetHealth h)
  assume s: "gauges_exact s"
  then have "table_wf (es_routes s)" by (simp add: gauges_exact_def)
  then show ?thesis unfolding SetHealth edge_apply.simps edge_set_upstream_health_def
    by (intro same_sources_exact [OF s]) (simp_all add: case_prod_unfold health_keeps_sources registry_ops_wf)
next
  case (SetSingleHealth u h)
  assume s: "gauges_exact s"
  then have "table_wf (es_routes s)" by (simp add: gauges_exact_def)
  then show ?thesis unfolding SetSingleHealth edge_apply.simps edge_set_single_upstream_health_def
    by (intro same_sources_exact [OF s])
       (simp_all add: set_single_upstream_health_def health_keeps_sources registry_ops_wf)
next
  case (SetRouteHealth upd)
  assume s: "gauges_exact s"
  then have "table_wf (es_routes s)" by (simp add: gauges_exact_def)
  then show ?thesis unfolding SetRouteHealth edge_apply.simps edge_set_route_upstream_health_def
    by (intro same_sources_exact [OF s]) (simp_all add: health_keeps_sources registry_ops_wf)
next
  case (SetRouteHealthMany upds)
  assume s: "gauges_exact s"
  then have "table_wf (es_routes s)" by (simp add: gauges_exact_def)
  then show ?thesis unfolding SetRouteHealthMany edge_apply.simps edge_set_route_upstream_health_many_def
    by (intro same_sources_exact [OF s]) (simp_all add: health_keeps_sources registry_ops_wf)
qed (auto simp: replace_routes_from_source_def edge_upsert_api_route_def edge_delete_api_domain_def
    case_prod_unfold Let_def gauges_exact_def [of s] registry_ops_wf intro!: refresh_exact)

interpretation edge: step_machine edge_apply "\<lambda>_. True" gauges_exact
  by unfold_locales (rule edge_apply_exact)

section \<open>Properties\<close>

text \<open>C30. The route gauges always show the routing table: from start-up with any routes, after any
  sequence of source replacements, API upserts and deletes and health updates, the gauge of
  each route source equals the number of routes of that source in the table.\<close>

theorem route_gauges_exact:
  assumes "s = run_steps edge_apply ops (new_with_stats_sink (new_table rs) security lb metrics sink spool)"
  shows "gauge_get (pm_routes_total (es_metrics s)) [source_label source] = int (routes_of_source source s)"
proof -
  have "gauges_exact (new_with_stats_sink (new_table rs) security lb metrics sink spool)"
    using refresh_exact [of "new_with_stats_sink (new_table rs) security lb metrics sink spool"]
    by (simp add: gauges_exact_def new_with_stats_sink_def refresh_metrics_def refresh_route_metrics_def
        routes_of_source_def new_table_wf gauge_set_all count_sources_wf count_sources_get)
  from edge.run_keeps [OF this, of ops] show ?thesis by (simp add: assms gauges_exact_def)
qed

theorem route_gauges_exact_witness:
  "gauge_get (pm_routes_total (es_metrics (run_steps edge_apply
      [ReplaceSource Api [demo_route ''a'' Api ''http://a'']]
      (new_with_stats_sink (new_table []) sample_engine new_load_balancer new_metrics False False))))
     [source_label Api] = 1"
proof -
  let ?ops = "[ReplaceSource Api [demo_route ''a'' Api ''http://a'']]"
  let ?s = "run_steps edge_apply ?ops
      (new_with_stats_sink (new_table []) sample_engine new_load_balancer new_metrics False False)"
  have "snapshot (es_routes ?s) = [demo_route ''a'' Api ''http://a'']"
    by (simp add: replace_routes_from_source_def refresh_metrics_def new_with_stats_sink_def
        replace_source_def replace_all_def snapshot_new_table dedupe_id)
  then have "routes_of_source Api ?s = 1"
    by (simp add: routes_of_source_def demo_route_def new_route_def Let_def)
  then show ?thesis
    using route_gauges_exact [of ?s ?ops "[]" sample_engine new_load_balancer new_metrics False False Api]
    by simp
qed

end
