(* ===== verification/Circuit.thy ===== *)
theory Circuit
  imports Edge_State Http_Base
begin

text \<open>
  How the policy keeps failing upstreams away (\<open>PolicyEnforcer\<close> of
  \<open>edge/crates/http-proxy/src/lib.rs\<close>): circuit breakers, limits on the requests in flight and
  passive health. A sleeping task that \<open>record_passive_health\<close> spawns is a timer: the instant
  it wakes up at and the health report it then makes.
\<close>

section \<open>Definitions\<close>

subsection \<open>Circuit breakers\<close>

record circuit_breaker_state =
  cs_failures :: u32
  cs_open_until :: "instant option"

definition default_circuit_state :: circuit_breaker_state where
  "default_circuit_state = \<lparr>cs_failures = 0, cs_open_until = None\<rparr>"

type_synonym circuit_breakers = "(string, circuit_breaker_state) hmap"

record circuit_record =
  cr_config :: circuit_breaker_config
  cr_route_id :: string
  cr_path_prefix :: string
  cr_domain :: string
  cr_upstream :: string
  cr_status :: u16
  cr_error :: bool

definition circuit_key :: "string \<Rightarrow> string \<Rightarrow> string \<Rightarrow> string" where
  "circuit_key route_id path_prefix upstream = route_id @ '':'' @ path_prefix @ '':'' @ upstream"

definition circuit_is_open ::
    "instant \<Rightarrow> string \<Rightarrow> string \<Rightarrow> string \<Rightarrow> circuit_breakers \<Rightarrow> bool \<times> circuit_breakers" where
  "circuit_is_open now route_id path_prefix upstream breakers =
     (let key = circuit_key route_id path_prefix upstream in
      case hm_get breakers key of
        None \<Rightarrow> (False, breakers)
      | Some st \<Rightarrow>
          if (case cs_open_until st of Some open_until \<Rightarrow> now < open_until | None \<Rightarrow> False) then (True, breakers)
          else (False, hm_insert key (st\<lparr>cs_open_until := None\<rparr>) breakers))"

definition circuit_failed :: "circuit_record \<Rightarrow> bool" where
  "circuit_failed r \<longleftrightarrow> cr_error r \<or> is_server_error (cr_status r)"

definition circuit_next :: "instant \<Rightarrow> circuit_record \<Rightarrow> circuit_breaker_state \<Rightarrow> circuit_breaker_state" where
  "circuit_next now r st =
     (if circuit_failed r
      then let st = st\<lparr>cs_failures := sat_add (cs_failures st) 1\<rparr>
           in if max (cb_failure_threshold (cr_config r)) 1 \<le> cs_failures st
              then st\<lparr>cs_open_until := Some (now + from_secs (unat (max (cb_open_seconds (cr_config r)) 1)))\<rparr>
              else st
      else \<lparr>cs_failures = 0, cs_open_until = None\<rparr>)"

definition record_circuit_result ::
    "instant \<Rightarrow> circuit_record \<Rightarrow> circuit_breakers \<Rightarrow> pxxl_metrics \<Rightarrow> circuit_breakers \<times> pxxl_metrics" where
  "record_circuit_result now r breakers m =
     (if \<not> cb_enabled (cr_config r) then (breakers, m)
      else
        let key = circuit_key (cr_route_id r) (cr_path_prefix r) (cr_upstream r);
            st = circuit_next now r (hm_get_or breakers key default_circuit_state)
        in (hm_insert key st breakers,
            if circuit_failed r \<and> max (cb_failure_threshold (cr_config r)) 1 \<le> cs_failures st
            then m\<lparr>pm_circuit_breaker_open_total :=
                   counter_inc [cr_domain r, cr_upstream r] (pm_circuit_breaker_open_total m)\<rparr>
            else m))"

subsection \<open>Requests in flight\<close>

definition in_flight_key :: "in_flight_limit_config \<Rightarrow> route_match \<Rightarrow> upstream \<Rightarrow> string \<times> string" where
  "in_flight_key limit matched u =
     (case ifl_scope limit of
        ScopeDomain \<Rightarrow> (rt_domain (rm_route matched), ''domain'')
      | ScopeUpstream \<Rightarrow>
          (rt_id (rm_route matched) @ '':'' @ pr_prefix (rm_path matched) @ '':'' @ up_url u, ''upstream'')
      | ScopeRoute \<Rightarrow> (rt_id (rm_route matched) @ '':'' @ pr_prefix (rm_path matched), ''route''))"

text \<open>The loop of \<open>compare_exchange_weak\<close> as the one exchange that succeeds; its steps follow below.\<close>

definition try_acquire_in_flight ::
    "in_flight_limit_config \<Rightarrow> route_match \<Rightarrow> upstream \<Rightarrow> (string, usize) hmap \<Rightarrow>
     (string + string option) \<times> (string, usize) hmap" where
  "try_acquire_in_flight limit matched u limits =
     (if \<not> ifl_enabled limit then (Inr None, limits)
      else case ifl_max limit of
        None \<Rightarrow> (Inr None, limits)
      | Some m \<Rightarrow>
          (let (key, scope) = in_flight_key limit matched u;
               current = hm_get_or limits key 0
           in if ucast m \<le> current then (Inl scope, hm_insert key current limits)
              else (Inr (Some key), hm_insert key (current + 1) limits)))"

definition release_in_flight :: "string option \<Rightarrow> (string, usize) hmap \<Rightarrow> (string, usize) hmap" where
  "release_in_flight key limits =
     (case key of
        None \<Rightarrow> limits
      | Some key \<Rightarrow>
          (case hm_get limits key of
             None \<Rightarrow> limits
           | Some n \<Rightarrow> hm_insert key (sat_sub n 1) limits))"

text \<open>
  The steps of the loop, interleaved between threads that share a counter: a thread loads the
  counter and gives up at the maximum, tries to exchange the value it loaded (which may fail
  without a reason) and, later, releases.
\<close>

datatype flight_pc = Starting | Loaded usize | Holding | Refused

record flight_state =
  fl_counter :: usize
  fl_pc :: "nat \<Rightarrow> flight_pc"

inductive flight_step :: "u32 \<Rightarrow> flight_state \<Rightarrow> flight_state \<Rightarrow> bool" for m where
  flight_refuse: "fl_pc s t = Starting \<Longrightarrow> ucast m \<le> fl_counter s \<Longrightarrow>
    flight_step m s (s\<lparr>fl_pc := (fl_pc s)(t := Refused)\<rparr>)"
| flight_load: "fl_pc s t = Starting \<Longrightarrow> \<not> ucast m \<le> fl_counter s \<Longrightarrow>
    flight_step m s (s\<lparr>fl_pc := (fl_pc s)(t := Loaded (fl_counter s))\<rparr>)"
| flight_exchange: "fl_pc s t = Loaded current \<Longrightarrow> fl_counter s = current \<Longrightarrow>
    flight_step m s (s\<lparr>fl_counter := current + 1, fl_pc := (fl_pc s)(t := Holding)\<rparr>)"
| flight_retry: "fl_pc s t = Loaded current \<Longrightarrow>
    flight_step m s (s\<lparr>fl_pc := (fl_pc s)(t := Starting)\<rparr>)"
| flight_release: "fl_pc s t = Holding \<Longrightarrow>
    flight_step m s (s\<lparr>fl_counter := sat_sub (fl_counter s) 1, fl_pc := (fl_pc s)(t := Starting)\<rparr>)"

inductive flight_reachable :: "u32 \<Rightarrow> flight_state \<Rightarrow> bool" for m where
  flight_init: "flight_reachable m \<lparr>fl_counter = 0, fl_pc = (\<lambda>_. Starting)\<rparr>"
| flight_next: "flight_reachable m s \<Longrightarrow> flight_step m s s' \<Longrightarrow> flight_reachable m s'"

subsection \<open>Passive health\<close>

definition route_health_key :: "string \<Rightarrow> string \<Rightarrow> string \<Rightarrow> string" where
  "route_health_key domain path_prefix upstream = domain @ '':'' @ path_prefix @ '':'' @ upstream"

type_synonym health_timer = "instant \<times> route_upstream_health"

definition passive_failed :: "passive_health_config \<Rightarrow> u16 \<Rightarrow> bool \<Rightarrow> bool" where
  "passive_failed config status error \<longleftrightarrow>
     error \<or> list_ex (\<lambda>code. code = status) (ph_failure_statuses config) \<or> is_server_error status"

definition count_passive_event :: "string list \<Rightarrow> edge_state \<Rightarrow> edge_state" where
  "count_passive_event ls s = s\<lparr>es_metrics := (es_metrics s)\<lparr>pm_passive_health_events_total :=
     counter_inc ls (pm_passive_health_events_total (es_metrics s))\<rparr>\<rparr>"

definition mark_unhealthy ::
    "instant \<Rightarrow> passive_health_config \<Rightarrow> string \<Rightarrow> string \<Rightarrow> string \<Rightarrow> edge_state \<Rightarrow> edge_state \<times> health_timer list" where
  "mark_unhealthy now config domain path_prefix upstream s =
     (let report = \<lparr>ruh_domain = domain, ruh_path_prefix = path_prefix, ruh_upstream_url = upstream, ruh_healthy = False\<rparr>;
          s = count_passive_event [upstream, ''marked_unhealthy''] (edge_set_route_upstream_health report s)
      in (s\<lparr>es_metrics := (es_metrics s)\<lparr>pm_circuit_breaker_open_total :=
              counter_inc [domain, upstream] (pm_circuit_breaker_open_total (es_metrics s))\<rparr>\<rparr>,
          [(now + from_secs (unat (max (ph_recovery_seconds config) 1)), report\<lparr>ruh_healthy := True\<rparr>)]))"

definition record_passive_health ::
    "instant \<Rightarrow> passive_health_config \<Rightarrow> string \<Rightarrow> string \<Rightarrow> string \<Rightarrow> u16 \<Rightarrow> bool \<Rightarrow>
     (string, u32) hmap \<Rightarrow> edge_state \<Rightarrow> (string, u32) hmap \<times> edge_state \<times> health_timer list" where
  "record_passive_health now config domain path_prefix upstream status error passive s =
     (if \<not> ph_enabled config then (passive, s, [])
      else
        let key = route_health_key domain path_prefix upstream;
            failures = hm_get_or passive key 0
        in if passive_failed config status error
           then let failures = sat_add failures 1;
                    passive = hm_insert key failures passive;
                    s = count_passive_event [upstream, ''failure''] s
                in if max (ph_failure_threshold config) 1 \<le> failures
                   then (passive, mark_unhealthy now config domain path_prefix upstream s)
                   else (passive, s, [])
           else (hm_insert key 0 passive, s, []))"

text \<open>The task wakes up.\<close>

definition fire_timer :: "health_timer \<Rightarrow> edge_state \<Rightarrow> edge_state" where
  "fire_timer t s = edge_set_route_upstream_health (snd t) s"

section \<open>Circuit breakers follow the results\<close>

datatype circuit_event = CircuitQuery string string string | CircuitResult circuit_record

definition event_key :: "circuit_event \<Rightarrow> string" where
  "event_key e = (case e of CircuitQuery r p u \<Rightarrow> circuit_key r p u
     | CircuitResult r \<Rightarrow> circuit_key (cr_route_id r) (cr_path_prefix r) (cr_upstream r))"

definition circuit_apply ::
    "instant \<times> circuit_event \<Rightarrow> circuit_breakers \<times> pxxl_metrics \<Rightarrow> circuit_breakers \<times> pxxl_metrics" where
  "circuit_apply e s =
     (case snd e of
        CircuitQuery r p u \<Rightarrow> (snd (circuit_is_open (fst e) r p u (fst s)), snd s)
      | CircuitResult r \<Rightarrow> record_circuit_result (fst e) r (fst s) (snd s))"

text \<open>The results that were recorded for a key, with their instants and whether they failed.\<close>

definition key_results :: "string \<Rightarrow> (instant \<times> circuit_event) list \<Rightarrow> (instant \<times> bool) list" where
  "key_results k es = List.map_filter (\<lambda>(now, e). case e of
     CircuitResult r \<Rightarrow> if cb_enabled (cr_config r) \<and> event_key e = k then Some (now, circuit_failed r) else None
   | CircuitQuery _ _ _ \<Rightarrow> None) es"

definition failure_run :: "(instant \<times> bool) list \<Rightarrow> nat" where
  "failure_run hist = length (takeWhile snd (rev hist))"

text \<open>What the log says: enough failures in a row, the last of them less than the open time ago.\<close>

definition log_open :: "circuit_breaker_config \<Rightarrow> instant \<Rightarrow> (instant \<times> bool) list \<Rightarrow> bool" where
  "log_open c now hist \<longleftrightarrow> hist \<noteq> [] \<and> unat (max (cb_failure_threshold c) 1) \<le> failure_run hist \<and>
     now < fst (last hist) + from_secs (unat (max (cb_open_seconds c) 1))"

definition state_open :: "instant \<Rightarrow> circuit_breaker_state \<Rightarrow> bool" where
  "state_open now st \<longleftrightarrow> (\<exists>u. cs_open_until st = Some u \<and> now < u)"

text \<open>The breaker of a key agrees with its log from the instant \<open>t\<close> on.\<close>

definition breaker_agrees :: "circuit_breaker_config \<Rightarrow> string \<Rightarrow> instant \<Rightarrow> (instant \<times> bool) list \<Rightarrow> circuit_breakers \<Rightarrow> bool" where
  "breaker_agrees c k t hist breakers \<longleftrightarrow>
     (case hm_get breakers k of
        None \<Rightarrow> hist = []
      | Some st \<Rightarrow> unat (cs_failures st) = min (2 ^ 32 - 1) (failure_run hist) \<and>
          (\<forall>now\<ge>t. state_open now st = log_open c now hist))"

lemma failure_run_snoc [simp]:
  "failure_run [] = 0" "failure_run (hist @ [(now, f)]) = (if f then Suc (failure_run hist) else 0)"
  by (simp_all add: failure_run_def)

lemma threshold_sat: "unat (st :: u32) = min (2 ^ 32 - 1) n \<Longrightarrow> w \<le> st \<longleftrightarrow> unat w \<le> n"
  using u32_bound [of w] by (simp add: word_le_nat_alt)

lemma unat_sat_inc: "unat (n :: u32) = min (2 ^ 32 - 1) k \<Longrightarrow> unat (sat_add n 1) = min (2 ^ 32 - 1) (Suc k)"
  by (simp add: unat_sat_add)

lemma unat_max1: "1 \<le> unat (max (w :: 'a::len word) 1)"
  by (metis max.cobounded2 unat_1 word_le_nat_alt)

text \<open>A result moves the breaker as it moves the log.\<close>

lemma agrees_result:
  assumes "breaker_agrees c k t hist breakers" and "cr_config r = c" and "t \<le> now"
  shows "breaker_agrees c k now (hist @ [(now, circuit_failed r)])
    (hm_insert k (circuit_next now r (hm_get_or breakers k default_circuit_state)) breakers)"
proof -
  let ?st = "hm_get_or breakers k default_circuit_state"
  let ?open = "from_secs (unat (max (cb_open_seconds c) 1))"
  have st: "unat (cs_failures ?st) = min (2 ^ 32 - 1) (failure_run hist)" "state_open n ?st = log_open c n hist" if "t \<le> n" for n
    using assms(1) that
    by (auto simp: breaker_agrees_def hm_get_or_def default_circuit_state_def state_open_def log_open_def split: option.splits)
  show ?thesis
  proof (cases "circuit_failed r")
    case True
    let ?f = "sat_add (cs_failures ?st) 1"
    have f: "unat ?f = min (2 ^ 32 - 1) (Suc (failure_run hist))" using unat_sat_inc [OF st(1) [OF order_refl]] .
    note thr = threshold_sat [OF f, of "max (cb_failure_threshold c) 1"]
    show ?thesis
    proof (cases "unat (max (cb_failure_threshold c) 1) \<le> Suc (failure_run hist)")
      case reached: True
      then show ?thesis using True f thr assms(2)
        by (auto simp: breaker_agrees_def circuit_next_def Let_def state_open_def log_open_def)
    next
      case False
      then have "\<not> log_open c n hist" for n by (auto simp: log_open_def)
      then show ?thesis using True False f thr assms(2,3) st(2)
        by (auto simp: breaker_agrees_def circuit_next_def Let_def state_open_def log_open_def)
    qed
  next
    case False
    then show ?thesis using unat_max1 [of "cb_failure_threshold c"]
      by (simp add: breaker_agrees_def circuit_next_def state_open_def log_open_def)
  qed
qed

lemma agrees_query:
  assumes "breaker_agrees c k t hist breakers" and "t \<le> now"
  shows "breaker_agrees c k now hist (snd (circuit_is_open now r p u breakers))"
    and "circuit_key r p u = k \<Longrightarrow> fst (circuit_is_open now r p u breakers) = log_open c now hist"
  using assms
  by (auto simp: breaker_agrees_def circuit_is_open_def Let_def state_open_def log_open_def
      split: option.splits if_splits)

lemma agrees_mono: "breaker_agrees c k t hist breakers \<Longrightarrow> t \<le> t' \<Longrightarrow> breaker_agrees c k t' hist breakers"
  by (auto simp: breaker_agrees_def split: option.splits)

lemma agrees_other: "k' \<noteq> k \<Longrightarrow> breaker_agrees c k t hist (hm_insert k' st breakers) = breaker_agrees c k t hist breakers"
  by (simp add: breaker_agrees_def)

lemma agrees_apply:
  assumes "breaker_agrees c k t hist (fst s)" and "t \<le> now"
    and "\<forall>r. e = CircuitResult r \<and> cb_enabled (cr_config r) \<and> event_key e = k \<longrightarrow> cr_config r = c"
  shows "breaker_agrees c k now (hist @ key_results k [(now, e)]) (fst (circuit_apply (now, e) s))"
proof (cases e)
  case (CircuitQuery r p u)
  then show ?thesis using agrees_query(1) [OF assms(1,2)] by (simp add: circuit_apply_def key_results_def map_filter_simps)
next
  case (CircuitResult r)
  let ?k = "circuit_key (cr_route_id r) (cr_path_prefix r) (cr_upstream r)"
  have key: "event_key e = ?k" by (simp add: CircuitResult event_key_def)
  have now: "breaker_agrees c k now hist (fst s)" using assms(1,2) by (rule agrees_mono)
  consider "\<not> cb_enabled (cr_config r)" | "cb_enabled (cr_config r)" "?k = k" | "cb_enabled (cr_config r)" "?k \<noteq> k"
    by blast
  then show ?thesis
  proof cases
    case 2
    then show ?thesis using agrees_result [OF assms(1) _ assms(2)] assms(3) key CircuitResult
      by (simp add: circuit_apply_def record_circuit_result_def key_results_def map_filter_simps Let_def)
  qed (use now key CircuitResult in \<open>simp_all add: circuit_apply_def record_circuit_result_def key_results_def
      map_filter_simps agrees_other Let_def\<close>)
qed

lemma key_results_Cons: "key_results k (e # es) = key_results k [e] @ key_results k es"
  by (simp add: key_results_def map_filter_simps split: option.split)

lemma agrees_run:
  assumes "breaker_agrees c k t hist (fst s)" and "sorted (map fst es)" and "\<forall>e\<in>set es. t \<le> fst e \<and> fst e \<le> hi"
    and "t \<le> hi"
    and "\<forall>e\<in>set es. \<forall>r. snd e = CircuitResult r \<and> cb_enabled (cr_config r) \<and> event_key (snd e) = k \<longrightarrow> cr_config r = c"
  shows "breaker_agrees c k hi (hist @ key_results k es) (fst (run_steps circuit_apply es s))"
  using assms
proof (induction es arbitrary: t hist s)
  case Nil
  then show ?case using agrees_mono by (simp add: key_results_def map_filter_simps)
next
  case (Cons e es)
  obtain now ev where e: "e = (now, ev)" by (cases e)
  have "breaker_agrees c k now (hist @ key_results k [e]) (fst (circuit_apply e s))"
    unfolding e using Cons.prems e by (intro agrees_apply) auto
  from Cons.IH [OF this] Cons.prems e
  have "breaker_agrees c k hi ((hist @ key_results k [e]) @ key_results k es) (fst (run_steps circuit_apply (e # es) s))"
    by auto
  then show ?case by (simp only: key_results_Cons [of k e es] append.assoc)
qed

section \<open>The counter is the number of holders\<close>

definition holders :: "flight_state \<Rightarrow> nat set" where
  "holders s = {t. fl_pc s t = Holding}"

definition flight_inv :: "u32 \<Rightarrow> flight_state \<Rightarrow> bool" where
  "flight_inv m s \<longleftrightarrow> finite (holders s) \<and> unat (fl_counter s) = card (holders s) \<and> card (holders s) \<le> unat m \<and>
     (\<forall>t c. fl_pc s t = Loaded c \<longrightarrow> unat c < unat m)"

lemma holders_update:
  "holders (s\<lparr>fl_pc := (fl_pc s)(t := Holding)\<rparr>) = insert t (holders s)"
  "pc \<noteq> Holding \<Longrightarrow> holders (s\<lparr>fl_pc := (fl_pc s)(t := pc)\<rparr>) = holders s - {t}"
  by (auto simp: holders_def)

lemma holders_counter [simp]: "holders (s\<lparr>fl_counter := c, fl_pc := p\<rparr>) = holders (s\<lparr>fl_pc := p\<rparr>)"
  by (simp add: holders_def)

lemma max_le_counter: "ucast (m :: u32) \<le> (c :: usize) \<longleftrightarrow> unat m \<le> unat c"
proof -
  have "unat m < 2 ^ LENGTH(64)" using u32_bound [of m] by simp
  then have "unat (ucast m :: usize) = unat m" by (simp add: unsigned_ucast_eq take_bit_nat_eq_self)
  then show ?thesis by (simp add: word_le_nat_alt)
qed

lemma counter_small: "unat (c :: usize) < unat (m :: u32) \<Longrightarrow> unat (c + 1) = Suc (unat c)"
  using u32_bound [of m] by (simp add: unat_word_ariths)

lemma loaded_small: "flight_inv m s \<Longrightarrow> fl_pc s t = Loaded c \<Longrightarrow> unat c < unat m"
  unfolding flight_inv_def by blast

lemma flight_step_inv: "flight_step m s s' \<Longrightarrow> flight_inv m s \<Longrightarrow> flight_inv m s'"
proof (induction rule: flight_step.induct)
  case (flight_refuse s t)
  then have "holders s - {t} = holders s" by (auto simp: holders_def)
  with flight_refuse show ?case by (auto simp: flight_inv_def holders_update)
next
  case (flight_load s t)
  then have "holders s - {t} = holders s" by (auto simp: holders_def)
  with flight_load show ?case by (auto simp: flight_inv_def holders_update max_le_counter)
next
  case (flight_exchange s t current)
  then have t: "t \<notin> holders s" by (simp add: holders_def)
  have small: "unat current < unat m" using flight_exchange(3,1) by (rule loaded_small)
  from flight_exchange t small counter_small [OF small] show ?case by (auto simp: flight_inv_def holders_update)
next
  case (flight_retry s t current)
  then have "holders s - {t} = holders s" by (auto simp: holders_def)
  with flight_retry show ?case by (auto simp: flight_inv_def holders_update)
next
  case (flight_release s t)
  then have t: "t \<in> holders s" and fin: "finite (holders s)" by (auto simp: holders_def flight_inv_def)
  then have "0 < card (holders s)" by (auto simp: card_gt_0_iff)
  with flight_release t fin show ?case
    by (auto simp: flight_inv_def holders_update card_Diff_singleton unat_sat_sub)
qed

lemma flight_reachable_inv: "flight_reachable m s \<Longrightarrow> flight_inv m s"
proof (induction rule: flight_reachable.induct)
  case flight_init
  then show ?case by (simp add: flight_inv_def holders_def)
qed (rule flight_step_inv)

section \<open>Health reports reach the table\<close>

text \<open>Every upstream that a report is about has the reported health.\<close>

definition report_holds :: "route_upstream_health \<Rightarrow> route_table \<Rightarrow> bool" where
  "report_holds upd t \<longleftrightarrow> (\<forall>r\<in>set (snapshot t). rt_domain r = normalize_domain (ruh_domain upd) \<longrightarrow>
     (\<forall>p\<in>set (rt_paths r). pr_prefix p = ruh_path_prefix upd \<longrightarrow>
        (\<forall>u\<in>set (pr_upstreams p). up_url u = ruh_upstream_url upd \<longrightarrow> up_healthy u = ruh_healthy upd)))"

lemma set_url_health_url [simp]: "up_url (set_url_health url h u) = up_url u"
  by (simp add: set_url_health_def)

lemma set_route_health_holds:
  assumes "table_wf t" and "\<not> update_ignored upd"
  shows "report_holds upd (set_route_upstream_health upd t)"
  unfolding report_holds_def set_route_health_snapshot [OF assms]
  by (auto simp: update_route_health_def map_route_upstreams_def map_path_upstreams_def set_url_health_def
      split: if_splits)

lemma passive_event_routes [simp]: "es_routes (count_passive_event ls s) = es_routes s"
  by (simp add: count_passive_event_def)

lemma edge_set_route_routes [simp]:
  "es_routes (edge_set_route_upstream_health upd s) = set_route_upstream_health upd (es_routes s)"
  by (simp add: edge_set_route_upstream_health_def)

lemma mark_unhealthy_routes:
  "es_routes (fst (mark_unhealthy now config d p u s)) =
     set_route_upstream_health \<lparr>ruh_domain = d, ruh_path_prefix = p, ruh_upstream_url = u, ruh_healthy = False\<rparr> (es_routes s)"
  "snd (mark_unhealthy now config d p u s) =
     [(now + from_secs (unat (max (ph_recovery_seconds config) 1)),
       \<lparr>ruh_domain = d, ruh_path_prefix = p, ruh_upstream_url = u, ruh_healthy = True\<rparr>)]"
  by (simp_all add: mark_unhealthy_def Let_def)

section \<open>Properties\<close>

text \<open>C9. A circuit breaker follows the results of its upstream: after any sequence of results and
  queries about any upstreams, the circuit of a route, path and upstream is open exactly when
  the results recorded for it end in at least the configured number of failures in a row and
  the last of them is less than the open time ago. So it opens on time, a success closes it,
  and it always closes again.\<close>

theorem circuit_open_iff:
  assumes "sorted (map fst es)" and "\<forall>e\<in>set es. fst e \<le> now"
    and "\<forall>e\<in>set es. \<forall>r. snd e = CircuitResult r \<and> cb_enabled (cr_config r) \<and>
      event_key (snd e) = circuit_key route_id path_prefix upstream \<longrightarrow> cr_config r = c"
  shows "fst (circuit_is_open now route_id path_prefix upstream (fst (run_steps circuit_apply es ([], m)))) \<longleftrightarrow>
    log_open c now (key_results (circuit_key route_id path_prefix upstream) es)"
proof -
  let ?k = "circuit_key route_id path_prefix upstream"
  have "breaker_agrees c ?k 0 [] (fst ([], m))" by (simp add: breaker_agrees_def)
  from agrees_run [OF this assms(1) _ _ assms(3), of now] assms(2)
  have "breaker_agrees c ?k now (key_results ?k es) (fst (run_steps circuit_apply es ([], m)))" by simp
  from agrees_query(2) [OF this order_refl refl] show ?thesis .
qed

definition strict_breaker :: circuit_breaker_config where
  "strict_breaker = default_circuit_breaker\<lparr>cb_enabled := True, cb_failure_threshold := 2, cb_open_seconds := 30\<rparr>"

definition sample_result :: "u16 \<Rightarrow> circuit_event" where
  "sample_result status = CircuitResult \<lparr>cr_config = strict_breaker, cr_route_id = ''r1'', cr_path_prefix = ''/'',
     cr_domain = ''a.io'', cr_upstream = ''http://u'', cr_status = status, cr_error = False\<rparr>"

theorem circuit_open_iff_witness:
  "fst (circuit_is_open 9 ''r1'' ''/'' ''http://u''
     (fst (run_steps circuit_apply [(3, sample_result 502), (5, sample_result 503)] ([], new_metrics))))"
proof -
  let ?es = "[(3, sample_result 502), (5, sample_result 503)]"
  have "log_open strict_breaker 9 (key_results (circuit_key ''r1'' ''/'' ''http://u'') ?es)" by code_simp
  moreover have "\<forall>e\<in>set ?es. \<forall>r. snd e = CircuitResult r \<and> cb_enabled (cr_config r) \<and>
      event_key (snd e) = circuit_key ''r1'' ''/'' ''http://u'' \<longrightarrow> cr_config r = strict_breaker"
    by (simp add: sample_result_def)
  ultimately show ?thesis using circuit_open_iff [of ?es 9 "''r1''" "''/''" "''http://u''" strict_breaker new_metrics] by simp
qed

text \<open>C10. The limit on requests in flight holds under every interleaving: whatever threads run the
  acquisition loop and release at the same time, the shared counter is exactly the number of
  threads that hold a slot, and it never exceeds the limit; a thread that loads the counter
  below the limit and exchanges it without interference gets a slot.\<close>

theorem in_flight_limit_holds:
  assumes "flight_reachable m s"
  shows "unat (fl_counter s) = card (holders s) \<and> card (holders s) \<le> unat m \<and>
    (fl_pc s t = Loaded (fl_counter s) \<longrightarrow>
       flight_step m s (s\<lparr>fl_counter := fl_counter s + 1, fl_pc := (fl_pc s)(t := Holding)\<rparr>) \<and>
       unat (fl_counter s + 1) = Suc (card (holders s)))"
proof -
  have inv: "flight_inv m s" using assms by (rule flight_reachable_inv)
  have "unat (fl_counter s + 1) = Suc (card (holders s))" if "fl_pc s t = Loaded (fl_counter s)"
    using counter_small [OF loaded_small [OF inv that]] inv by (simp add: flight_inv_def)
  with inv show ?thesis by (auto simp: flight_inv_def intro: flight_exchange)
qed

lemma flight_two_threads:
  "flight_reachable 1 \<lparr>fl_counter = 1, fl_pc = (\<lambda>_. Starting)(1 := Loaded 0, 0 := Holding)\<rparr>"
proof -
  let ?s0 = "\<lparr>fl_counter = 0, fl_pc = (\<lambda>_. Starting)\<rparr> :: flight_state"
  let ?s1 = "?s0\<lparr>fl_pc := (\<lambda>_. Starting)(1 := Loaded 0)\<rparr>"
  let ?s2 = "?s0\<lparr>fl_pc := (\<lambda>_. Starting)(1 := Loaded 0, 0 := Loaded 0)\<rparr>"
  have "flight_step 1 ?s0 ?s1" using flight_load [of ?s0 1 1] by simp
  then have "flight_reachable 1 ?s1" by (rule flight_next [OF flight_init])
  moreover have "flight_step 1 ?s1 ?s2" using flight_load [of ?s1 0 1] by simp
  ultimately have "flight_reachable 1 ?s2" by (rule flight_next)
  moreover have "flight_step 1 ?s2 \<lparr>fl_counter = 1, fl_pc = (\<lambda>_. Starting)(1 := Loaded 0, 0 := Holding)\<rparr>"
    using flight_exchange [of ?s2 0 0 1] by simp
  ultimately show ?thesis by (rule flight_next)
qed

theorem in_flight_limit_holds_witness:
  "card (holders \<lparr>fl_counter = 1, fl_pc = (\<lambda>_. Starting)(1 := Loaded 0, 0 := Holding)\<rparr>) = 1"
  using in_flight_limit_holds [OF flight_two_threads, of 0] by simp

text \<open>C16. An upstream that passive health takes out comes back: recording a result either changes no
  route, or marks every upstream it is about as unhealthy and leaves a timer; when the timer
  wakes up, after the recovery time and whatever happened to the routes in between, every
  upstream it is about is healthy again.\<close>

theorem passive_health_recovers:
  assumes "record_passive_health now config domain path_prefix upstream status error passive s = (passive', s', timers)"
    and "normalize_domain domain \<noteq> []" and "trim upstream \<noteq> []" and "table_wf (es_routes s)"
  shows "timers = [] \<and> es_routes s' = es_routes s \<or>
    (\<exists>report. timers = [(now + from_secs (unat (max (ph_recovery_seconds config) 1)), report)] \<and>
       report = \<lparr>ruh_domain = domain, ruh_path_prefix = path_prefix, ruh_upstream_url = upstream, ruh_healthy = True\<rparr> \<and>
       report_holds (report\<lparr>ruh_healthy := False\<rparr>) (es_routes s') \<and>
       (\<forall>later. table_wf (es_routes later) \<longrightarrow>
          report_holds report (es_routes (fire_timer (hd timers) later))))"
proof -
  let ?rep = "\<lambda>h. \<lparr>ruh_domain = domain, ruh_path_prefix = path_prefix, ruh_upstream_url = upstream, ruh_healthy = h\<rparr>"
  have ok: "\<not> update_ignored (?rep h)" for h using assms(2,3) by (simp add: update_ignored_def)
  have "timers = [] \<and> es_routes s' = es_routes s \<or>
      (s', timers) = mark_unhealthy now config domain path_prefix upstream (count_passive_event [upstream, ''failure''] s)"
    using assms(1) by (auto simp: record_passive_health_def Let_def split: if_splits)
  moreover have ?thesis
    if "(s', timers) = mark_unhealthy now config domain path_prefix upstream (count_passive_event [upstream, ''failure''] s)"
  proof -
    have "es_routes s' = set_route_upstream_health (?rep False) (es_routes s)"
      "timers = [(now + from_secs (unat (max (ph_recovery_seconds config) 1)), ?rep True)]"
      using mark_unhealthy_routes [of now config domain path_prefix upstream "count_passive_event [upstream, ''failure''] s"] that
      by (metis fst_conv passive_event_routes, metis snd_conv)
    then show ?thesis using set_route_health_holds [OF assms(4) ok] set_route_health_holds [OF _ ok]
      by (simp add: fire_timer_def)
  qed
  ultimately show ?thesis by blast
qed

theorem passive_health_recovers_witness:
  "\<exists>p s' timers. record_passive_health 5 (default_passive_health\<lparr>ph_enabled := True, ph_failure_threshold := 1\<rparr>)
       ''a'' ''/'' ''http://u'' 502 False []
       (new_with_stats_sink (new_table [demo_route ''a'' Api ''http://u'']) sample_engine new_load_balancer new_metrics False False)
     = (p, s', timers) \<and>
     report_holds \<lparr>ruh_domain = ''a'', ruh_path_prefix = ''/'', ruh_upstream_url = ''http://u'', ruh_healthy = False\<rparr> (es_routes s')"
proof -
  let ?c = "default_passive_health\<lparr>ph_enabled := True, ph_failure_threshold := 1\<rparr>"
  let ?s = "new_with_stats_sink (new_table [demo_route ''a'' Api ''http://u'']) sample_engine new_load_balancer new_metrics False False"
  obtain p s' timers where r: "record_passive_health 5 ?c ''a'' ''/'' ''http://u'' 502 False [] ?s = (p, s', timers)"
    by (metis prod_cases3)
  have "normalize_domain ''a'' \<noteq> []" "trim ''http://u'' \<noteq> []" by code_simp+
  moreover have "table_wf (es_routes ?s)" by (simp add: new_with_stats_sink_def new_table_wf)
  moreover have "timers \<noteq> []"
    using r by (auto simp: record_passive_health_def Let_def passive_failed_def default_passive_health_def sat_add_def
        hm_get_or_def mark_unhealthy_def)
  ultimately show ?thesis using passive_health_recovers [OF r] r by auto
qed

end
