(* ===== verification/Middleware.thy ===== *)
theory Middleware
  imports Http_Base
begin

text \<open>
  The middleware that applies to a request (\<open>EffectiveMiddleware\<close> of
  \<open>edge/crates/http-proxy/src/lib.rs\<close>): the expansion of the names a path lists through
  chains, and the settings that result.
\<close>

section \<open>Definitions\<close>

record effective_middleware =
  em_request_buffering :: buffering_config
  em_response_buffering :: buffering_config
  em_compression :: compression_config
  em_content_type_autodetect :: content_type_auto_detect_config
  em_retry :: retry_config
  em_circuit_breaker :: circuit_breaker_config
  em_in_flight_limit :: in_flight_limit_config
  em_sticky_sessions :: sticky_session_config
  em_passive_health :: passive_health_config
  em_traffic_mirroring :: traffic_mirror_config
  em_client_cert_forwarding :: client_cert_forwarding_config
  em_basic_auth :: "basic_auth_config option"
  em_digest_auth :: "digest_auth_config option"
  em_forward_auth :: "forward_auth_config option"

text \<open>The recursion stops below depth 8, so chains that refer to each other expand finitely.\<close>

function expand_middleware_names ::
    "string list \<Rightarrow> domain_rules \<Rightarrow> string list \<Rightarrow> nat \<Rightarrow> string list" where
  "expand_middleware_names names rules output depth =
     (if depth > 8 then output
      else case names of
        [] \<Rightarrow> output
      | name # rest \<Rightarrow>
          let output =
            (case fmlookup (dr_middleware_chains rules) name of
               Some chain \<Rightarrow> expand_middleware_names chain rules output (depth + 1)
             | None \<Rightarrow>
                 let output = output @ [name] in
                 case fmlookup (dr_middlewares rules) name of
                   Some middleware \<Rightarrow>
                     expand_middleware_names (mw_chain middleware) rules output (depth + 1)
                 | None \<Rightarrow> output)
          in expand_middleware_names rest rules output depth)"
  by pat_completeness auto
termination
  by (relation "measures [\<lambda>(names, rules, output, depth). 9 - depth, \<lambda>(names, rules, output, depth). length names]")
     auto

declare expand_middleware_names.simps [simp del]

definition override :: "'a option \<Rightarrow> 'a \<Rightarrow> 'a" where
  "override new old = (case new of Some v \<Rightarrow> v | None \<Rightarrow> old)"

definition override_opt :: "'a option \<Rightarrow> 'a option \<Rightarrow> 'a option" where
  "override_opt new old = (case new of Some v \<Rightarrow> Some v | None \<Rightarrow> old)"

definition apply_middleware :: "middleware_definition \<Rightarrow> effective_middleware \<Rightarrow> effective_middleware" where
  "apply_middleware m e =
     e\<lparr>em_basic_auth := override_opt (mw_basic_auth m) (em_basic_auth e),
       em_forward_auth := override_opt (mw_forward_auth m) (em_forward_auth e),
       em_digest_auth := override_opt (mw_digest_auth m) (em_digest_auth e),
       em_request_buffering := override (mw_request_buffering m) (em_request_buffering e),
       em_response_buffering := override (mw_response_buffering m) (em_response_buffering e),
       em_compression := override (mw_compression m) (em_compression e),
       em_content_type_autodetect := override (mw_content_type_autodetect m) (em_content_type_autodetect e),
       em_retry := override (mw_retry m) (em_retry e),
       em_circuit_breaker := override (mw_circuit_breaker m) (em_circuit_breaker e),
       em_in_flight_limit := override (mw_in_flight_limit m) (em_in_flight_limit e),
       em_client_cert_forwarding := override (mw_pass_tls_client_cert m) (em_client_cert_forwarding e)\<rparr>"

definition base_middleware :: "domain_rules \<Rightarrow> effective_middleware" where
  "base_middleware rules =
     \<lparr>em_request_buffering = dr_request_buffering rules,
      em_response_buffering = dr_response_buffering rules,
      em_compression = dr_compression rules,
      em_content_type_autodetect = dr_content_type_autodetect rules,
      em_retry = dr_retry rules,
      em_circuit_breaker = dr_circuit_breaker rules,
      em_in_flight_limit = dr_in_flight_limit rules,
      em_sticky_sessions = dr_sticky_sessions rules,
      em_passive_health = dr_passive_health rules,
      em_traffic_mirroring = dr_traffic_mirroring rules,
      em_client_cert_forwarding = dr_client_cert_forwarding rules,
      em_basic_auth = None, em_digest_auth = None, em_forward_auth = None\<rparr>"

definition from_rules :: "domain_rules \<Rightarrow> string list \<Rightarrow> effective_middleware" where
  "from_rules rules names =
     fold (\<lambda>name e. case fmlookup (dr_middlewares rules) name of
                      Some m \<Rightarrow> apply_middleware m e | None \<Rightarrow> e)
       (expand_middleware_names names rules [] 0) (base_middleware rules)"

definition request_body_limit :: "domain_rules \<Rightarrow> effective_middleware \<Rightarrow> u64" where
  "request_body_limit rules m =
     (let max_request = buf_max_request_bytes (em_request_buffering m)
      in min (case dr_max_body_bytes rules of Some n \<Rightarrow> n | None \<Rightarrow> max_request) max_request)"

definition requires_buffered_forwarding :: "effective_middleware \<Rightarrow> bool \<Rightarrow> bool" where
  "requires_buffered_forwarding m strict_body_limit \<longleftrightarrow>
     strict_body_limit \<or> buf_enabled (em_request_buffering m) \<or>
     buf_enabled (em_response_buffering m) \<or> re_enabled (em_retry m) \<or>
     cmp_enabled (em_compression m) \<or> ctd_enabled (em_content_type_autodetect m) \<or>
     (tm_enabled (em_traffic_mirroring m) \<and> tm_upstreams (em_traffic_mirroring m) \<noteq> [] \<and>
      0 < tm_percent (em_traffic_mirroring m))"

definition retryable_status :: "u16 \<Rightarrow> retry_config \<Rightarrow> bool" where
  "retryable_status status retry \<longleftrightarrow>
     re_enabled retry \<and> (re_retry_statuses retry = [] \<or> status \<in> set (re_retry_statuses retry))"

section \<open>Expansion\<close>

lemma expand_Nil [simp]: "expand_middleware_names [] rules output d = output"
  by (simp add: expand_middleware_names.simps)

lemma expand_deep [simp]: "8 < d \<Longrightarrow> expand_middleware_names names rules output d = output"
  by (simp add: expand_middleware_names.simps)

text \<open>What one name contributes, and the expansion as a left fold that only appends.\<close>

definition expand_one :: "domain_rules \<Rightarrow> nat \<Rightarrow> string \<Rightarrow> string list" where
  "expand_one rules d name =
     (case fmlookup (dr_middleware_chains rules) name of
        Some chain \<Rightarrow> expand_middleware_names chain rules [] (d + 1)
      | None \<Rightarrow> name # (case fmlookup (dr_middlewares rules) name of
          Some m \<Rightarrow> expand_middleware_names (mw_chain m) rules [] (d + 1) | None \<Rightarrow> []))"

lemma expand_Cons:
  assumes "d \<le> 8"
  shows "expand_middleware_names (name # rest) rules out d =
    expand_middleware_names rest rules
      (case fmlookup (dr_middleware_chains rules) name of
         Some chain \<Rightarrow> expand_middleware_names chain rules out (d + 1)
       | None \<Rightarrow> (case fmlookup (dr_middlewares rules) name of
           Some m \<Rightarrow> expand_middleware_names (mw_chain m) rules (out @ [name]) (d + 1)
         | None \<Rightarrow> out @ [name])) d"
  using assms by (subst expand_middleware_names.simps) (simp add: Let_def split: option.split)

lemma expand_append:
  "expand_middleware_names names rules out d = out @ expand_middleware_names names rules [] d"
proof (induction "9 - d" arbitrary: d names out)
  case (Suc k)
  then have d: "d \<le> 8" by simp
  have deeper: "expand_middleware_names ns rules o' (d + 1) = o' @ expand_middleware_names ns rules [] (d + 1)"
    for ns o' using Suc.hyps(2) by (intro Suc.hyps(1)) simp
  show ?case
  proof (induction names arbitrary: out)
    case (Cons name rest)
    let ?new = "\<lambda>out. case fmlookup (dr_middleware_chains rules) name of
        Some chain \<Rightarrow> expand_middleware_names chain rules out (d + 1)
      | None \<Rightarrow> (case fmlookup (dr_middlewares rules) name of
          Some m \<Rightarrow> expand_middleware_names (mw_chain m) rules (out @ [name]) (d + 1)
        | None \<Rightarrow> out @ [name])"
    have new: "?new out = out @ ?new []"
      using deeper [of _ out] deeper [of _ "out @ [name]"] deeper [of _ "[name]"]
      by (simp split: option.split)
    have "expand_middleware_names (name # rest) rules out d = ?new out @ expand_middleware_names rest rules [] d"
      unfolding expand_Cons [OF d] by (rule Cons.IH)
    moreover have "expand_middleware_names (name # rest) rules [] d = ?new [] @ expand_middleware_names rest rules [] d"
      unfolding expand_Cons [OF d] by (rule Cons.IH)
    ultimately show ?case using new by simp
  qed simp
qed simp

lemma expand_concat:
  "d \<le> 8 \<Longrightarrow> expand_middleware_names names rules [] d = concat (map (expand_one rules d) names)"
proof (induction names)
  case (Cons name rest)
  have "expand_middleware_names (name # rest) rules [] d = expand_one rules d name @ expand_middleware_names rest rules [] d"
    unfolding expand_Cons [OF Cons.prems]
    by (subst expand_append) (auto simp: expand_one_def expand_append [of _ _ "[name]"] split: option.split)
  with Cons show ?case by simp
qed simp

text \<open>The length of the expansion when no chain has more than \<open>k\<close> entries.\<close>

definition chains_within :: "nat \<Rightarrow> domain_rules \<Rightarrow> bool" where
  "chains_within k rules \<longleftrightarrow>
     (\<forall>chain. chain |\<in>| fmran (dr_middleware_chains rules) \<longrightarrow> length chain \<le> k) \<and>
     (\<forall>m. m |\<in>| fmran (dr_middlewares rules) \<longrightarrow> length (mw_chain m) \<le> k)"

lemma expand_length:
  assumes "chains_within k rules" and "d \<le> 9"
  shows "length (expand_middleware_names names rules [] d) \<le> length names * (\<Sum>i<9 - d. k ^ i)"
  using assms(2)
proof (induction "9 - d" arbitrary: d names)
  case (Suc n)
  then have d: "d \<le> 8" and n: "9 - (d + 1) = n" by simp_all
  have deeper: "length (expand_middleware_names ns rules [] (d + 1)) \<le> k * (\<Sum>i<n. k ^ i)" if "length ns \<le> k" for ns
  proof -
    have "length (expand_middleware_names ns rules [] (d + 1)) \<le> length ns * (\<Sum>i<n. k ^ i)"
      using Suc.hyps(1) [of "d + 1" ns] n d by simp
    also have "\<dots> \<le> k * (\<Sum>i<n. k ^ i)" using that by simp
    finally show ?thesis .
  qed
  have sum: "(\<Sum>i<Suc n. k ^ i) = 1 + k * (\<Sum>i<n. k ^ i)"
    by (subst sum.lessThan_Suc_shift) (simp add: sum_distrib_left)
  have "length (expand_one rules d name) \<le> (\<Sum>i<Suc n. k ^ i)" for name
    using assms(1) deeper unfolding sum expand_one_def chains_within_def
    by (auto simp: fmranI split: option.split intro: le_SucI)
  then have "length (concat (map (expand_one rules d) names)) \<le> length names * (\<Sum>i<Suc n. k ^ i)"
    by (induction names) (auto simp del: sum.lessThan_Suc intro: add_mono)
  then show ?case using Suc.hyps(2) by (simp add: expand_concat [OF d])
qed simp

section \<open>Which middleware applies\<close>

text \<open>A name reaches a middleware through at most so many levels of chains.\<close>

inductive reaches :: "domain_rules \<Rightarrow> nat \<Rightarrow> string \<Rightarrow> string \<Rightarrow> bool" for rules where
  reach_self: "fmlookup (dr_middleware_chains rules) n = None \<Longrightarrow> reaches rules k n n"
| reach_chain: "fmlookup (dr_middleware_chains rules) n = Some chain \<Longrightarrow> m \<in> set chain \<Longrightarrow>
    reaches rules k m x \<Longrightarrow> reaches rules (Suc k) n x"
| reach_nested: "fmlookup (dr_middleware_chains rules) n = None \<Longrightarrow>
    fmlookup (dr_middlewares rules) n = Some mw \<Longrightarrow> m \<in> set (mw_chain mw) \<Longrightarrow>
    reaches rules k m x \<Longrightarrow> reaches rules (Suc k) n x"

inductive_simps reaches_zero: "reaches rules 0 n x"
inductive_simps reaches_Suc: "reaches rules (Suc k) n x"

lemma expand_one_reaches:
  assumes "d \<le> 8"
  shows "x \<in> set (expand_one rules d n) \<longleftrightarrow> reaches rules (8 - d) n x"
  using assms
proof (induction "8 - d" arbitrary: d n)
  case 0
  then have "d = 8" by simp
  then show ?case by (auto simp: expand_one_def reaches_zero split: option.split)
next
  case (Suc k)
  then have d: "d + 1 \<le> 8" and k: "k = 8 - (d + 1)" and dk: "8 - d = Suc k" by simp_all
  have deeper: "x \<in> set (expand_middleware_names ns rules [] (d + 1)) \<longleftrightarrow> (\<exists>m\<in>set ns. reaches rules k m x)" for ns
    unfolding expand_concat [OF d] using Suc.hyps(1) [OF k d] k by auto
  show ?case unfolding dk reaches_Suc
    by (cases "fmlookup (dr_middleware_chains rules) n"; cases "fmlookup (dr_middlewares rules) n")
       (auto simp: expand_one_def deeper simp del: One_nat_def)
qed

lemma expand_reaches:
  "x \<in> set (expand_middleware_names names rules [] 0) \<longleftrightarrow> (\<exists>n\<in>set names. reaches rules 8 n x)"
  using expand_one_reaches [of 0 x rules] by (auto simp: expand_concat)

text \<open>The authentication settings come from the last expanded middleware that sets them.\<close>

definition apply_named :: "domain_rules \<Rightarrow> string \<Rightarrow> effective_middleware \<Rightarrow> effective_middleware" where
  "apply_named rules name e =
     (case fmlookup (dr_middlewares rules) name of Some m \<Rightarrow> apply_middleware m e | None \<Rightarrow> e)"

lemma auth_None_iff:
  fixes get :: "effective_middleware \<Rightarrow> 'a option" and src :: "middleware_definition \<Rightarrow> 'a option"
  assumes upd: "\<And>m e. get (apply_middleware m e) = override_opt (src m) (get e)"
  shows "get (fold (apply_named rules) xs e) = None \<longleftrightarrow>
    get e = None \<and> (\<forall>x\<in>set xs. \<forall>m. fmlookup (dr_middlewares rules) x = Some m \<longrightarrow> src m = None)"
  by (induction xs arbitrary: e) (auto simp: apply_named_def upd override_opt_def split: option.splits)

lemma from_rules_fold: "from_rules rules names =
    fold (apply_named rules) (expand_middleware_names names rules [] 0) (base_middleware rules)"
  by (simp add: from_rules_def apply_named_def [abs_def])

lemma from_rules_auth:
  fixes get :: "effective_middleware \<Rightarrow> 'a option" and src :: "middleware_definition \<Rightarrow> 'a option"
  assumes "\<And>m e. get (apply_middleware m e) = override_opt (src m) (get e)"
    and "get (base_middleware rules) = None"
  shows "get (from_rules rules names) \<noteq> None \<longleftrightarrow>
    (\<exists>n\<in>set names. \<exists>x m. reaches rules 8 n x \<and> fmlookup (dr_middlewares rules) x = Some m \<and> src m \<noteq> None)"
  unfolding from_rules_fold auth_None_iff [where get = get and src = src, OF assms(1)] Ball_def expand_reaches
  using assms(2) by auto

lemma auth_fields [simp]:
  "em_basic_auth (apply_middleware m e) = override_opt (mw_basic_auth m) (em_basic_auth e)"
  "em_digest_auth (apply_middleware m e) = override_opt (mw_digest_auth m) (em_digest_auth e)"
  "em_forward_auth (apply_middleware m e) = override_opt (mw_forward_auth m) (em_forward_auth e)"
  "em_basic_auth (base_middleware rules) = None"
  "em_digest_auth (base_middleware rules) = None"
  "em_forward_auth (base_middleware rules) = None"
  by (simp_all add: apply_middleware_def base_middleware_def)

section \<open>Properties\<close>

text \<open>C23. Expanding middleware names ends and stays small whatever the chains refer to: with at most
  \<open>k\<close> entries in every chain, cyclic ones included, a path with \<open>n\<close> names gets at most
  \<open>n * (1 + k + ... + k^8)\<close> middlewares, and it gets exactly those that one of its names
  reaches through at most eight nested chains.\<close>

theorem middleware_expansion:
  assumes "chains_within k rules"
  shows "length (expand_middleware_names names rules [] 0) \<le> length names * (\<Sum>i<9. k ^ i) \<and>
    set (expand_middleware_names names rules [] 0) = {x. \<exists>n\<in>set names. reaches rules 8 n x}"
  using expand_length [OF assms, of 0 names] expand_reaches [of _ names rules] by auto

text \<open>C24. Authentication is demanded exactly when it is configured within reach: the effective
  middleware of a path has basic, digest or forward authentication if and only if one of its
  names reaches, through at most eight nested chains, a middleware that configures it. Anything
  nested deeper is not applied.\<close>

theorem auth_applies_iff_reachable:
  "(em_basic_auth (from_rules rules names) \<noteq> None \<longleftrightarrow> (\<exists>n\<in>set names. \<exists>x m. reaches rules 8 n x \<and>
      fmlookup (dr_middlewares rules) x = Some m \<and> mw_basic_auth m \<noteq> None)) \<and>
   (em_digest_auth (from_rules rules names) \<noteq> None \<longleftrightarrow> (\<exists>n\<in>set names. \<exists>x m. reaches rules 8 n x \<and>
      fmlookup (dr_middlewares rules) x = Some m \<and> mw_digest_auth m \<noteq> None)) \<and>
   (em_forward_auth (from_rules rules names) \<noteq> None \<longleftrightarrow> (\<exists>n\<in>set names. \<exists>x m. reaches rules 8 n x \<and>
      fmlookup (dr_middlewares rules) x = Some m \<and> mw_forward_auth m \<noteq> None))"
  by (intro conjI from_rules_auth) simp_all

text \<open>Rules with a cyclic chain, and an authentication that nine chains hide.\<close>

definition login_middleware :: middleware_definition where
  "login_middleware = default_middleware_definition\<lparr>mw_basic_auth := Some default_basic_auth\<rparr>"

definition cyclic_rules :: domain_rules where
  "cyclic_rules = default_domain_rules\<lparr>
     dr_middleware_chains := fmap_of_list [(''a'', [''b'', ''login'']), (''b'', [''a''])],
     dr_middlewares := fmap_of_list [(''login'', login_middleware)]\<rparr>"

definition deep_rules :: domain_rules where
  "deep_rules = default_domain_rules\<lparr>
     dr_middleware_chains := fmap_of_list [(''1'', [''2'']), (''2'', [''3'']), (''3'', [''4'']),
       (''4'', [''5'']), (''5'', [''6'']), (''6'', [''7'']), (''7'', [''8'']), (''8'', [''9'']),
       (''9'', [''login''])],
     dr_middlewares := fmap_of_list [(''login'', login_middleware)]\<rparr>"

theorem middleware_expansion_witness:
  "length (expand_middleware_names [''a''] cyclic_rules [] 0) \<le> 511"
proof -
  have "chains_within 2 cyclic_rules"
    by (auto simp: chains_within_def cyclic_rules_def login_middleware_def default_middleware_definition_def
        elim!: fmranE split: if_splits)
  from middleware_expansion [OF this, of "[''a'']"] show ?thesis
    by (simp add: eval_nat_numeral)
qed

text \<open>An authentication middleware behind nine nested chains is silently left out: the path
  names a chain that leads to basic authentication, and the effective middleware demands none.\<close>

theorem deep_chain_drops_auth:
  "em_basic_auth (from_rules deep_rules [''1'']) = None \<and>
   em_basic_auth (from_rules deep_rules [''2'']) = Some default_basic_auth"
proof -
  have one: "expand_middleware_names [''1''] deep_rules [] 0 = []"
    and two: "expand_middleware_names [''2''] deep_rules [] 0 = [''login'']"
    by (simp_all add: expand_middleware_names.simps deep_rules_def default_domain_rules_def fmlookup_of_list)
  show ?thesis
    unfolding from_rules_fold one two
    by (simp add: apply_named_def override_opt_def deep_rules_def login_middleware_def
        default_middleware_definition_def fmlookup_of_list)
qed

end
