(* ===== verification/Forwarding.thy ===== *)
theory Forwarding
  imports Middleware Client_Ip
begin

text \<open>
  What the edge sends to an upstream (\<open>edge/crates/http-proxy/src/lib.rs\<close>): the target URI, the
  request headers after hop-by-hop and spoofable headers are removed, the network check of
  control-plane routes, and the retry loop. The HTTP client is an argument: it takes the
  prepared request and the number of the attempt and gives the upstream's answer or an error.
\<close>

section \<open>Definitions\<close>

record forward_context =
  fc_matched :: route_match
  fc_upstream :: upstream
  fc_remote_ip :: "ip_addr option"
  fc_scheme :: request_scheme
  fc_middleware :: effective_middleware
  fc_domain :: string
  fc_client_cert_pem :: "string option"

subsection \<open>Targets\<close>

definition authority :: "url_parser \<Rightarrow> upstream \<Rightarrow> pxxl_error + string" where
  "authority url_parse u =
     (case url_parse (up_url u) of
        Inl _ \<Rightarrow> Inl (InvalidUpstream (up_url u))
      | Inr parsed \<Rightarrow>
          (case url_host_str parsed of
             None \<Rightarrow> Inl (InvalidUpstream (up_url u))
           | Some host \<Rightarrow>
               Inr (case url_port parsed of
                      Some port \<Rightarrow> host @ '':'' @ show_nat (unat port)
                    | None \<Rightarrow> host)))"

definition build_upstream_uri :: "http_crate \<Rightarrow> upstream \<Rightarrow> uri \<Rightarrow> pxxl_error + uri" where
  "build_upstream_uri hc u original =
     (let path_and_query = (case uri_path_and_query original of Some v \<Rightarrow> v | None \<Rightarrow> ''/'')
      in case hc_parse_uri hc (trim_end_matches CHR ''/'' (up_url u) @ path_and_query) of
           Some v \<Rightarrow> Inr v | None \<Rightarrow> Inl (InvalidUpstream (up_url u)))"

definition canonical_forward_uri :: "http_crate \<Rightarrow> string \<Rightarrow> string option \<Rightarrow> pxxl_error + uri" where
  "canonical_forward_uri hc path query =
     (let path_and_query =
        (case query of
           Some q \<Rightarrow> if q \<noteq> [] then path @ ''?'' @ q else path
         | None \<Rightarrow> path)
      in case hc_parse_uri hc path_and_query of
           Some v \<Rightarrow> Inr v | None \<Rightarrow> Inl (InvalidPath path))"

text \<open>The URI that is forwarded: the canonical one, or the original when that does not parse.\<close>

definition forwarded_uri :: "http_crate \<Rightarrow> uri \<Rightarrow> string \<Rightarrow> string option \<Rightarrow> uri" where
  "forwarded_uri hc original path query =
     (case canonical_forward_uri hc path query of Inr u \<Rightarrow> u | Inl _ \<Rightarrow> original)"

definition reserved_host_gateway :: "string \<Rightarrow> bool" where
  "reserved_host_gateway host \<longleftrightarrow> host \<in> set [''host.docker.internal'', ''gateway.docker.internal'']"

definition host_gateway_upstreams_allowed :: "environment \<Rightarrow> bool" where
  "host_gateway_upstreams_allowed env =
     (case env ''PXXL_ALLOW_HOST_GATEWAY_UPSTREAMS'' of None \<Rightarrow> False
      | Some v \<Rightarrow> to_ascii_lowercase v \<in> set [''1'', ''true'', ''yes'', ''on''])"

text \<open>
  \<open>known_port\<close> is \<open>Url::port_or_known_default\<close>; \<open>lookup\<close> is the resolver under its timeout,
  with \<open>None\<close> for an error or a timeout.
\<close>

definition runtime_upstream_network_allowed ::
    "url_parser \<Rightarrow> (parsed_url \<Rightarrow> u16 option) \<Rightarrow> (string \<Rightarrow> u16 \<Rightarrow> ip_addr list option) \<Rightarrow> environment \<Rightarrow>
     string \<Rightarrow> bool" where
  "runtime_upstream_network_allowed url_parse known_port lookup env raw =
     (case url_parse raw of
        Inl _ \<Rightarrow> False
      | Inr parsed \<Rightarrow>
          (case url_host_str parsed of
             None \<Rightarrow> False
           | Some h \<Rightarrow>
               let host = to_ascii_lowercase (trim_end_matches CHR ''.'' h) in
               if reserved_host_gateway host then host_gateway_upstreams_allowed env
               else if private_upstreams_allowed env then True
               else case parse_ip host of
                 Some ip \<Rightarrow> ip_allowed_for_upstream ip
               | None \<Rightarrow>
                   (case known_port parsed of
                      None \<Rightarrow> False
                    | Some port \<Rightarrow>
                        (case lookup host port of
                           Some addresses \<Rightarrow> list_all ip_allowed_for_upstream addresses
                         | None \<Rightarrow> True))))"

definition ensure_runtime_upstream_allowed ::
    "(string \<Rightarrow> bool) \<Rightarrow> route_source \<Rightarrow> string \<Rightarrow> pxxl_error + unit" where
  "ensure_runtime_upstream_allowed network_allowed source raw =
     (if source \<noteq> Api then Inr ()
      else if network_allowed raw then Inr () else Inl (InvalidUpstream raw))"

subsection \<open>Headers\<close>

definition connection_tokens :: "http_crate \<Rightarrow> headers \<Rightarrow> string list" where
  "connection_tokens hc h =
     filter (\<lambda>t. t \<noteq> [])
       (concat (map (\<lambda>v. map trim (split_on CHR '','' v)) (List.map_filter (hc_to_str hc) (hdr_get_all h ''connection''))))"

definition REQUEST_STRIPPED :: "string list" where
  "REQUEST_STRIPPED =
     [''connection'', ''host'', ''upgrade'', ''te'', ''trailer'', ''proxy-authorization'',
      ''proxy-connection'', ''keep-alive'', ''transfer-encoding'', ''forwarded'',
      ''x-forwarded-for'', ''x-forwarded-host'', ''x-forwarded-proto'', ''x-forwarded-prefix'',
      ''x-real-ip'', ''x-original-url'', ''x-rewrite-url'', ''x-client-ip'']"

definition strip_forwarded_request_headers :: "http_crate \<Rightarrow> headers \<Rightarrow> headers" where
  "strip_forwarded_request_headers hc h =
     fold hdr_remove REQUEST_STRIPPED (fold (hdr_remove_named hc) (connection_tokens hc h) h)"

definition RESPONSE_STRIPPED :: "string list" where
  "RESPONSE_STRIPPED =
     [''connection'', ''host'', ''upgrade'', ''te'', ''trailer'', ''proxy-authenticate'',
      ''proxy-authorization'', ''proxy-connection'', ''keep-alive'', ''transfer-encoding'']"

definition strip_hop_by_hop_response_headers :: "http_crate \<Rightarrow> headers \<Rightarrow> headers" where
  "strip_hop_by_hop_response_headers hc h =
     fold hdr_remove RESPONSE_STRIPPED (fold (hdr_remove_named hc) (connection_tokens hc h) h)"

definition is_websocket_upgrade :: "http_crate \<Rightarrow> headers \<Rightarrow> bool" where
  "is_websocket_upgrade hc h \<longleftrightarrow>
     (case hdr_str hc h ''connection'' of None \<Rightarrow> False
      | Some v \<Rightarrow> list_ex (\<lambda>part. eq_ignore_ascii_case (trim part) ''upgrade'') (split_on CHR '','' v)) \<and>
     (case hdr_str hc h ''upgrade'' of None \<Rightarrow> False | Some v \<Rightarrow> eq_ignore_ascii_case v ''websocket'')"

definition preserve_websocket_upgrade_headers :: "headers \<Rightarrow> headers" where
  "preserve_websocket_upgrade_headers h =
     hdr_insert ''upgrade'' ''websocket'' (hdr_insert ''connection'' ''Upgrade'' h)"

text \<open>The headers that both forwarding paths set, in the order of the code.\<close>

definition set_host :: "http_crate \<Rightarrow> url_parser \<Rightarrow> forward_context \<Rightarrow> headers \<Rightarrow> pxxl_error + headers" where
  "set_host hc url_parse c h =
     (if dr_preserve_host_header (rt_rules (rm_route (fc_matched c))) then Inr h
      else res_bind (authority url_parse (fc_upstream c)) (\<lambda>a.
        case hc_header_value hc a of
          Some v \<Rightarrow> Inr (hdr_insert ''host'' v h)
        | None \<Rightarrow> Inl (InvalidUpstream (up_url (fc_upstream c)))))"

definition set_client_cert :: "http_crate \<Rightarrow> forward_context \<Rightarrow> headers \<Rightarrow> headers" where
  "set_client_cert hc c h =
     (let forwarding = em_client_cert_forwarding (fc_middleware c) in
      if \<not> ccf_enabled forwarding then h
      else case (fc_client_cert_pem c, hc_header_name hc (ccf_header_name forwarding)) of
        (Some cert, Some name) \<Rightarrow> hdr_insert_str hc name cert h
      | _ \<Rightarrow> h)"

definition set_forwarded_headers ::
    "http_crate \<Rightarrow> url_parser \<Rightarrow> forward_context \<Rightarrow> headers \<Rightarrow> pxxl_error + headers" where
  "set_forwarded_headers hc url_parse c h =
     res_bind (set_host hc url_parse c h) (\<lambda>h.
       case hc_header_value hc (rt_domain (rm_route (fc_matched c))) of
         None \<Rightarrow> Inl InvalidHost
       | Some domain \<Rightarrow>
           let h = hdr_insert ''x-forwarded-host'' domain h;
               h = hdr_insert ''x-forwarded-proto'' (scheme_as_str (fc_scheme c)) h;
               h = (case fc_remote_ip c of
                      Some ip \<Rightarrow> hdr_insert_str hc ''x-forwarded-for'' (ip_to_string ip) h
                    | None \<Rightarrow> h)
           in Inr (set_client_cert hc c h))"

subsection \<open>Bodies\<close>

datatype buffer_error = TooLarge | BodyError string

text \<open>Lengths of byte buffers are below \<open>2^63\<close>, so the sum of two does not wrap.\<close>

fun collect_body_with_limit :: "nat \<Rightarrow> string \<Rightarrow> body_frame list \<Rightarrow> buffer_error + string" where
  "collect_body_with_limit max_bytes collected [] = Inr collected"
| "collect_body_with_limit max_bytes collected (FrameError e # frames) = Inl (BodyError e)"
| "collect_body_with_limit max_bytes collected (FrameTrailers # frames) =
     collect_body_with_limit max_bytes collected frames"
| "collect_body_with_limit max_bytes collected (FrameData d # frames) =
     (if length collected + length d > max_bytes then Inl TooLarge
      else collect_body_with_limit max_bytes (collected @ d) frames)"

record buffered_request =
  br_method :: string
  br_uri :: uri
  br_headers :: headers
  br_body :: string

definition from_request :: "http_request \<Rightarrow> u64 \<Rightarrow> buffer_error + buffered_request" where
  "from_request req max_bytes =
     res_bind (collect_body_with_limit (unat max_bytes) [] (rq_body req)) (\<lambda>body.
       Inr \<lparr>br_method = rq_method req, br_uri = rq_uri req, br_headers = rq_headers req, br_body = body\<rparr>)"

text \<open>A request on its way to an upstream, with a body that is sent whole.\<close>

record outgoing =
  og_method :: string
  og_uri :: uri
  og_headers :: headers
  og_body :: string

definition to_request :: "http_crate \<Rightarrow> buffered_request \<Rightarrow> upstream \<Rightarrow> pxxl_error + outgoing" where
  "to_request hc r u =
     res_bind (build_upstream_uri hc u (br_uri r)) (\<lambda>target.
       Inr \<lparr>og_method = br_method r, og_uri = target,
            og_headers = hdr_insert_str hc ''content-length'' (show_nat (length (br_body r)))
              (strip_forwarded_request_headers hc (br_headers r)),
            og_body = br_body r\<rparr>)"

record buffered_response =
  bp_status :: u16
  bp_headers :: headers
  bp_body :: string

definition into_response :: "http_crate \<Rightarrow> buffered_response \<Rightarrow> http_response" where
  "into_response hc r =
     \<lparr>rs_status = bp_status r, rs_headers = strip_hop_by_hop_response_headers hc (bp_headers r),
      rs_body = bp_body r\<rparr>"

subsection \<open>Upstream errors\<close>

text \<open>
  An error of the client with its chain of sources: for each, the kind when it is an
  \<open>std::io::Error\<close>, and its message.
\<close>

datatype io_error_kind = ConnectionRefused | TimedOut | OtherKind

type_synonym error_chain = "(io_error_kind option \<times> string) list"

definition DNS_MARKERS :: "string list" where
  "DNS_MARKERS =
     [''dns error'', ''failed to lookup address'', ''name or service not known'',
      ''nodename nor servname provided'', ''no such host'', ''temporary failure in name resolution'']"

fun classify_loop :: "error_chain \<Rightarrow> bool \<Rightarrow> string \<Rightarrow> pxxl_error" where
  "classify_loop [] dns_failure upstream =
     (if dns_failure then UpstreamDnsResolutionFailed upstream else UpstreamConnectionFailed upstream)"
| "classify_loop ((kind, message) # sources) dns_failure upstream =
     (if kind = Some ConnectionRefused then UpstreamConnectionRefused upstream
      else if kind = Some TimedOut then UpstreamConnectionTimeout upstream
      else classify_loop sources
             (dns_failure \<or> list_ex (\<lambda>m. str_contains (to_ascii_lowercase message) m) DNS_MARKERS) upstream)"

definition classify_upstream_client_error :: "error_chain \<Rightarrow> string \<Rightarrow> pxxl_error" where
  "classify_upstream_client_error chain upstream = classify_loop chain False upstream"

subsection \<open>Forwarding with a buffered body\<close>

text \<open>What forwarding depends on outside the program: the crates, the network check and the client.\<close>

record forward_env =
  fe_hc :: http_crate
  fe_url_parse :: url_parser
  fe_network_allowed :: "string \<Rightarrow> bool"

type_synonym upstream_answer = "error_chain + (u16 \<times> headers \<times> body_frame list)"

definition forward_buffered ::
    "forward_env \<Rightarrow> (outgoing \<Rightarrow> upstream_answer) \<Rightarrow> buffered_request \<Rightarrow> forward_context \<Rightarrow>
     pxxl_error + buffered_response" where
  "forward_buffered fe client request c =
     res_bind (ensure_runtime_upstream_allowed (fe_network_allowed fe)
       (rt_source (rm_route (fc_matched c))) (up_url (fc_upstream c))) (\<lambda>_.
     res_bind (to_request (fe_hc fe) request (fc_upstream c)) (\<lambda>req.
     res_bind (set_forwarded_headers (fe_hc fe) (fe_url_parse fe) c (og_headers req)) (\<lambda>h.
       case client (req\<lparr>og_headers := h\<rparr>) of
         Inl chain \<Rightarrow> Inl (classify_upstream_client_error chain (up_url (fc_upstream c)))
       | Inr (status, headers, frames) \<Rightarrow>
           (case collect_body_with_limit
                   (unat (buf_max_response_bytes (em_response_buffering (fc_middleware c)))) [] frames of
              Inr body \<Rightarrow> Inr \<lparr>bp_status = status, bp_headers = headers, bp_body = body\<rparr>
            | Inl _ \<Rightarrow> Inl (InvalidUpstream (up_url (fc_upstream c)))))))"

text \<open>
  The retry loop: \<open>attempt_result k\<close> is the result of attempt \<open>k\<close>, the last argument counts
  the attempts left. The second component lists the labels counted in \<open>retries_total\<close>.
\<close>

fun retry_loop ::
    "(nat \<Rightarrow> pxxl_error + buffered_response) \<Rightarrow> retry_config \<Rightarrow> string \<Rightarrow> nat \<Rightarrow> pxxl_error option \<Rightarrow> nat \<Rightarrow>
     (pxxl_error + buffered_response) \<times> string list" where
  "retry_loop attempt_result retry url k last_error 0 =
     (Inl (case last_error of Some e \<Rightarrow> e | None \<Rightarrow> InvalidUpstream url), [])"
| "retry_loop attempt_result retry url k last_error (Suc left) =
     (case attempt_result k of
        Inr response \<Rightarrow>
          if 0 < left \<and> retryable_status (bp_status response) retry
          then apsnd (Cons ''status'') (retry_loop attempt_result retry url (Suc k) last_error left)
          else (Inr response, [])
      | Inl e \<Rightarrow>
          if 0 < left
          then apsnd (Cons ''error'') (retry_loop attempt_result retry url (Suc k) (Some e) left)
          else (Inl e, []))"

definition retry_attempts :: "retry_config \<Rightarrow> nat" where
  "retry_attempts retry = (if re_enabled retry then unat (max (re_attempts retry) 1) else 1)"

definition forward_with_retry ::
    "forward_env \<Rightarrow> (nat \<Rightarrow> outgoing \<Rightarrow> upstream_answer) \<Rightarrow> buffered_request \<Rightarrow> forward_context \<Rightarrow>
     (pxxl_error + buffered_response) \<times> string list" where
  "forward_with_retry fe client request c =
     (let retry = em_retry (fc_middleware c)
      in retry_loop (\<lambda>k. forward_buffered fe (client k) request c) retry (up_url (fc_upstream c)) 1 None
           (retry_attempts retry))"

subsection \<open>Forwarding a stream\<close>

text \<open>
  \<open>Limited\<close> passes a body through until its limit is reached; the limit travels with the
  frames. An accepted WebSocket upgrade has no limit and keeps its headers.
\<close>

record streamed_request =
  sq_method :: string
  sq_uri :: uri
  sq_headers :: headers
  sq_frames :: "body_frame list"
  sq_limit :: nat

record streamed_response =
  sp_status :: u16
  sp_headers :: headers
  sp_frames :: "body_frame list"
  sp_limit :: "nat option"

definition streamed_headers :: "http_crate \<Rightarrow> headers \<Rightarrow> headers" where
  "streamed_headers hc h =
     (let stripped = strip_forwarded_request_headers hc h
      in if is_websocket_upgrade hc h then preserve_websocket_upgrade_headers stripped else stripped)"

definition forward_streaming ::
    "forward_env \<Rightarrow> (streamed_request \<Rightarrow> upstream_answer) \<Rightarrow> http_request \<Rightarrow> forward_context \<Rightarrow> u64 \<Rightarrow>
     pxxl_error + streamed_response" where
  "forward_streaming fe client req c max_request_bytes =
     res_bind (ensure_runtime_upstream_allowed (fe_network_allowed fe)
       (rt_source (rm_route (fc_matched c))) (up_url (fc_upstream c))) (\<lambda>_.
     res_bind (build_upstream_uri (fe_hc fe) (fc_upstream c) (rq_uri req)) (\<lambda>target.
     res_bind (set_forwarded_headers (fe_hc fe) (fe_url_parse fe) c
       (streamed_headers (fe_hc fe) (rq_headers req))) (\<lambda>h.
       case client \<lparr>sq_method = rq_method req, sq_uri = target, sq_headers = h,
                    sq_frames = rq_body req, sq_limit = unat max_request_bytes\<rparr> of
         Inl chain \<Rightarrow> Inl (classify_upstream_client_error chain (up_url (fc_upstream c)))
       | Inr (status, headers, frames) \<Rightarrow>
           if is_websocket_upgrade (fe_hc fe) (rq_headers req) \<and> status = 101
           then Inr \<lparr>sp_status = status, sp_headers = headers, sp_frames = frames, sp_limit = None\<rparr>
           else Inr \<lparr>sp_status = status,
                     sp_headers = strip_hop_by_hop_response_headers (fe_hc fe) headers,
                     sp_frames = frames,
                     sp_limit = Some (unat (buf_max_response_bytes (em_response_buffering (fc_middleware c))))\<rparr>)))"

section \<open>Headers on the way to an upstream\<close>

lemma stripped_request_headers:
  "hdr_get_all (strip_forwarded_request_headers hc h) n =
     (if n \<in> set REQUEST_STRIPPED \<or> Some n \<in> hc_header_name hc ` set (connection_tokens hc h)
      then [] else hdr_get_all h n)"
  by (simp add: strip_forwarded_request_headers_def hdr_get_all_remove_all hdr_get_all_remove_named)

lemma stripped_response_headers:
  "hdr_get_all (strip_hop_by_hop_response_headers hc h) n =
     (if n \<in> set RESPONSE_STRIPPED \<or> Some n \<in> hc_header_name hc ` set (connection_tokens hc h)
      then [] else hdr_get_all h n)"
  by (simp add: strip_hop_by_hop_response_headers_def hdr_get_all_remove_all hdr_get_all_remove_named)

text \<open>The names whose values the edge itself decides, or never sends.\<close>

definition EDGE_OWNED :: "string list" where
  "EDGE_OWNED = [''x-forwarded-for'', ''x-forwarded-host'', ''x-forwarded-proto'']"

definition cert_header_free :: "http_crate \<Rightarrow> forward_context \<Rightarrow> bool" where
  "cert_header_free hc c \<longleftrightarrow>
     (case hc_header_name hc (ccf_header_name (em_client_cert_forwarding (fc_middleware c))) of
        None \<Rightarrow> True | Some n \<Rightarrow> n \<notin> set REQUEST_STRIPPED)"

lemma get_all_insert_str:
  "hdr_get_all (hdr_insert_str hc n v h) m =
     (case hc_header_value hc v of Some v' \<Rightarrow> if m = n then [v'] else hdr_get_all h m | None \<Rightarrow> hdr_get_all h m)"
  by (simp add: hdr_insert_str_def split: option.split)

lemma client_cert_other:
  assumes "cert_header_free hc c" and "m \<in> set REQUEST_STRIPPED"
  shows "hdr_get_all (set_client_cert hc c h) m = hdr_get_all h m"
  using assms
  by (auto simp: set_client_cert_def Let_def cert_header_free_def get_all_insert_str split: option.splits)

lemma set_host_other: "set_host hc url_parse c h = Inr h' \<Longrightarrow> m \<noteq> ''host'' \<Longrightarrow> hdr_get_all h' m = hdr_get_all h m"
  by (auto simp: set_host_def split: if_splits option.splits)

lemma set_forwarded_cases:
  assumes "set_forwarded_headers hc url_parse c h = Inr out"
  obtains h1 domain where "set_host hc url_parse c h = Inr h1"
    and "hc_header_value hc (rt_domain (rm_route (fc_matched c))) = Some domain"
    and "out = set_client_cert hc c
      (let h = hdr_insert ''x-forwarded-proto'' (scheme_as_str (fc_scheme c)) (hdr_insert ''x-forwarded-host'' domain h1)
       in case fc_remote_ip c of
            Some ip \<Rightarrow> hdr_insert_str hc ''x-forwarded-for'' (ip_to_string ip) h | None \<Rightarrow> h)"
  using assms by (auto simp: set_forwarded_headers_def Let_def split: option.splits)

lemma forwarded_names:
  "''x-forwarded-for'' \<in> set REQUEST_STRIPPED" "''x-forwarded-host'' \<in> set REQUEST_STRIPPED"
  "''x-forwarded-proto'' \<in> set REQUEST_STRIPPED"
  by (simp_all add: REQUEST_STRIPPED_def)

lemma set_forwarded_values:
  assumes out: "set_forwarded_headers hc url_parse c h = Inr out" and free: "cert_header_free hc c"
    and clean: "\<forall>m\<in>set REQUEST_STRIPPED - keep. hdr_get_all h m = []" and keep: "keep \<subseteq> {''connection'', ''upgrade''}"
    and ip: "\<And>ip. fc_remote_ip c = Some ip \<Longrightarrow> hc_header_value hc (ip_to_string ip) = Some (ip_to_string ip)"
  shows "hdr_get_all out ''x-forwarded-for'' = (case fc_remote_ip c of Some ip \<Rightarrow> [ip_to_string ip] | None \<Rightarrow> [])"
    and "hdr_get_all out ''x-forwarded-proto'' = [scheme_as_str (fc_scheme c)]"
    and "hc_header_value hc (rt_domain (rm_route (fc_matched c))) = Some (hd (hdr_get_all out ''x-forwarded-host''))
      \<and> length (hdr_get_all out ''x-forwarded-host'') = 1"
    and "m \<in> set REQUEST_STRIPPED - keep - set EDGE_OWNED - {''host''} \<Longrightarrow> hdr_get_all out m = []"
proof -
  obtain h1 domain where h1: "set_host hc url_parse c h = Inr h1"
    and d: "hc_header_value hc (rt_domain (rm_route (fc_matched c))) = Some domain"
    and o: "out = set_client_cert hc c
      (let h = hdr_insert ''x-forwarded-proto'' (scheme_as_str (fc_scheme c)) (hdr_insert ''x-forwarded-host'' domain h1)
       in case fc_remote_ip c of
            Some ip \<Rightarrow> hdr_insert_str hc ''x-forwarded-for'' (ip_to_string ip) h | None \<Rightarrow> h)"
    using out by (rule set_forwarded_cases)
  note same = set_host_other [OF h1]
  have owned: "''x-forwarded-for'' \<notin> keep" using keep by auto
  show "hdr_get_all out ''x-forwarded-for'' = (case fc_remote_ip c of Some ip \<Rightarrow> [ip_to_string ip] | None \<Rightarrow> [])"
    unfolding o client_cert_other [OF free forwarded_names(1)]
    using same [of "''x-forwarded-for''"] clean owned forwarded_names(1) ip
    by (auto simp: Let_def get_all_insert_str split: option.split)
  show "hdr_get_all out ''x-forwarded-proto'' = [scheme_as_str (fc_scheme c)]"
    unfolding o client_cert_other [OF free forwarded_names(3)]
    by (simp add: Let_def get_all_insert_str split: option.split)
  show "hc_header_value hc (rt_domain (rm_route (fc_matched c))) = Some (hd (hdr_get_all out ''x-forwarded-host''))
      \<and> length (hdr_get_all out ''x-forwarded-host'') = 1"
    unfolding o client_cert_other [OF free forwarded_names(2)] d
    by (simp add: Let_def get_all_insert_str split: option.split)
  show "hdr_get_all out m = []" if "m \<in> set REQUEST_STRIPPED - keep - set EDGE_OWNED - {''host''}"
  proof -
    have "hdr_get_all h1 m = []" using same [of m] clean that by simp
    with that show ?thesis
      unfolding o client_cert_other [OF free DiffD1 [OF DiffD1 [OF DiffD1 [OF that]]]]
      by (auto simp: EDGE_OWNED_def Let_def get_all_insert_str split: option.split)
  qed
qed

lemma to_request_clean:
  assumes "to_request hc r u = Inr req"
  shows "\<forall>m\<in>set REQUEST_STRIPPED - {}. hdr_get_all (og_headers req) m = []"
proof -
  have "''content-length'' \<notin> set REQUEST_STRIPPED" by (simp add: REQUEST_STRIPPED_def)
  then show ?thesis using assms
    by (auto simp: to_request_def get_all_insert_str stripped_request_headers split: option.split)
qed

lemma streamed_clean:
  "\<forall>m\<in>set REQUEST_STRIPPED - {''connection'', ''upgrade''}. hdr_get_all (streamed_headers hc h) m = []"
  by (auto simp: streamed_headers_def preserve_websocket_upgrade_headers_def stripped_request_headers Let_def)

section \<open>Retries\<close>

text \<open>The attempt whose answer is returned: the first that needs no retry, or the last one.\<close>

definition final_answer :: "retry_config \<Rightarrow> pxxl_error + buffered_response \<Rightarrow> bool" where
  "final_answer retry r = (case r of Inr response \<Rightarrow> \<not> retryable_status (bp_status response) retry | Inl _ \<Rightarrow> False)"

lemma retry_loop_first:
  assumes "0 < n" and "j < n" and "\<forall>i<j. \<not> final_answer retry (f (k + i))" and "final_answer retry (f (k + j)) \<or> Suc j = n"
  shows "fst (retry_loop f retry url k e n) = f (k + j) \<and> length (snd (retry_loop f retry url k e n)) = j"
  using assms
proof (induction n arbitrary: k j e)
  case (Suc n)
  show ?case
  proof (cases j)
    case 0
    with Suc.prems(4) show ?thesis
      by (cases "f k") (auto simp: final_answer_def)
  next
    case (Suc i)
    then have n: "0 < n" "i < n" using Suc.prems(2) by auto
    have "\<forall>l<i. \<not> final_answer retry (f (Suc k + l))"
      using Suc.prems(3) Suc by (metis Suc_less_eq add_Suc_right add_Suc)
    moreover have "final_answer retry (f (Suc k + i)) \<or> Suc i = n" using Suc.prems(4) Suc by auto
    ultimately have IH: "fst (retry_loop f retry url (Suc k) e' n) = f (Suc k + i) \<and>
        length (snd (retry_loop f retry url (Suc k) e' n)) = i" for e'
      using Suc.IH [OF n] by blast
    have "\<not> final_answer retry (f k)" using Suc.prems(3) Suc by (metis add.right_neutral zero_less_Suc)
    then show ?thesis using IH n Suc
      by (cases "f k") (auto simp: final_answer_def apsnd_def map_prod_def case_prod_beta)
  qed
qed simp

lemma retry_attempts_pos: "0 < retry_attempts retry"
proof -
  have "(1::u32) \<le> max (re_attempts retry) 1" by simp
  then have "unat (1::u32) \<le> unat (max (re_attempts retry) 1)" by (simp only: word_le_nat_alt)
  then show ?thesis by (simp add: retry_attempts_def)
qed

section \<open>Limits of bodies\<close>

definition frame_data :: "body_frame \<Rightarrow> string" where
  "frame_data f = (case f of FrameData d \<Rightarrow> d | _ \<Rightarrow> [])"

lemma collect_body_Inr:
  "length acc \<le> n \<Longrightarrow> collect_body_with_limit n acc frames = Inr body \<longleftrightarrow>
   (\<forall>e. FrameError e \<notin> set frames) \<and> body = acc @ concat (map frame_data frames) \<and> length body \<le> n"
  by (induction n acc frames rule: collect_body_with_limit.induct) (auto simp: frame_data_def)

section \<open>Where the headers do not do what they are meant to\<close>

text \<open>\<open>preserve_host_header\<close> promises the client's \<open>Host\<close>; it is stripped and not set again.\<close>

lemma preserved_host_is_dropped:
  assumes "dr_preserve_host_header (rt_rules (rm_route (fc_matched c)))" and "cert_header_free hc c"
    and "set_forwarded_headers hc url_parse c (streamed_headers hc h) = Inr out"
  shows "hdr_get_all out ''host'' = []"
proof -
  have host: "''host'' \<in> set REQUEST_STRIPPED" by (simp add: REQUEST_STRIPPED_def)
  from assms(3) obtain h1 domain where "set_host hc url_parse c (streamed_headers hc h) = Inr h1"
    and out: "out = set_client_cert hc c
      (let h = hdr_insert ''x-forwarded-proto'' (scheme_as_str (fc_scheme c)) (hdr_insert ''x-forwarded-host'' domain h1)
       in case fc_remote_ip c of
            Some ip \<Rightarrow> hdr_insert_str hc ''x-forwarded-for'' (ip_to_string ip) h | None \<Rightarrow> h)"
    by (rule set_forwarded_cases)
  then have "h1 = streamed_headers hc h" using assms(1) by (simp add: set_host_def)
  then have "hdr_get_all h1 ''host'' = []" using streamed_clean [of hc h] host by simp
  then show ?thesis unfolding out client_cert_other [OF assms(2) host]
    by (simp add: Let_def get_all_insert_str split: option.split)
qed

text \<open>With client certificates forwarded, a client without one may send the header itself.\<close>

lemma client_cert_header_passes:
  assumes "set_client_cert hc c h = out" and "fc_client_cert_pem c = None"
  shows "out = h"
  using assms by (auto simp: set_client_cert_def Let_def split: option.splits)

text \<open>A header that the rules added is dropped when the client names it in \<open>Connection\<close>.\<close>

lemma connection_drops_added_header:
  assumes "Some n \<in> hc_header_name hc ` set (connection_tokens hc h)"
  shows "hdr_get_all (strip_forwarded_request_headers hc h) n = []"
  using assms by (simp add: stripped_request_headers)

text \<open>A canonical path that is not a URI is not forwarded: the raw one is.\<close>

lemma raw_uri_forwarded:
  assumes "hc_parse_uri hc path = None"
  shows "forwarded_uri hc original path None = original"
  using assms by (simp add: forwarded_uri_def canonical_forward_uri_def)

section \<open>Properties\<close>



text \<open>Body limits are exact: a buffered request has the concatenation of the data frames as its
  body and never more than the limit, and buffering fails exactly when the connection fails or
  the data is longer than the limit.\<close>

theorem buffered_body_within_limit:
  "from_request req limit = Inr b \<longleftrightarrow>
     (\<forall>e. FrameError e \<notin> set (rq_body req)) \<and> length (concat (map frame_data (rq_body req))) \<le> unat limit \<and>
     b = \<lparr>br_method = rq_method req, br_uri = rq_uri req, br_headers = rq_headers req,
          br_body = concat (map frame_data (rq_body req))\<rparr>"
  by (auto simp: from_request_def collect_body_Inr)

text \<open>A request to \<open>a.io\<close> that brings forged headers, and an upstream that fails once.\<close>

definition sample_match :: route_match where
  "sample_match = (let r = new_route 0 ''r1'' ''a.io'' [new_path_route ''/'' [new_upstream ''http://u'']] Static
     in \<lparr>rm_route = r, rm_path = new_path_route ''/'' [new_upstream ''http://u'']\<rparr>)"

definition sample_middleware :: effective_middleware where
  "sample_middleware = (base_middleware default_domain_rules)\<lparr>em_retry := default_retry\<lparr>re_enabled := True\<rparr>\<rparr>"

definition sample_context :: forward_context where
  "sample_context = \<lparr>fc_matched = sample_match, fc_upstream = new_upstream ''http://u'', fc_remote_ip = Some (V4 7),
     fc_scheme = Https, fc_middleware = sample_middleware, fc_domain = ''a.io'', fc_client_cert_pem = None\<rparr>"

definition stub_url :: url_parser where
  "stub_url s = Inr \<lparr>url_scheme = ''http'', url_username = [], url_password = None, url_host_str = Some ''u'',
     url_port = None, url_path = ''/'', url_query = None, url_fragment = None\<rparr>"

definition sample_forward_env :: forward_env where
  "sample_forward_env = \<lparr>fe_hc = plain_http, fe_url_parse = stub_url, fe_network_allowed = (\<lambda>_. True)\<rparr>"

definition forged_headers :: headers where
  "forged_headers = [(''x-forwarded-for'', ''1.2.3.4''), (''x-real-ip'', ''1.2.3.4''), (''x-forwarded-host'', ''bank'')]"


definition flaky_client :: "nat \<Rightarrow> outgoing \<Rightarrow> upstream_answer" where
  "flaky_client k req = (if k = 1 then Inl [(Some ConnectionRefused, ''refused'')] else Inr (200, [], [FrameData ''ok'']))"

definition sample_buffered :: buffered_request where
  "sample_buffered = \<lparr>br_method = ''GET'', br_uri = plain_uri ''/'', br_headers = [], br_body = []\<rparr>"

lemmas sample_forwarding = forward_buffered_def sample_forward_env_def sample_context_def sample_match_def new_route_def
  ensure_runtime_upstream_allowed_def to_request_def sample_buffered_def build_upstream_uri_def plain_http_def plain_uri_def
  set_forwarded_headers_def set_host_def authority_def stub_url_def default_domain_rules_def flaky_client_def

lemma flaky_second:
  "forward_buffered sample_forward_env (flaky_client 2) sample_buffered sample_context =
     Inr \<lparr>bp_status = 200, bp_headers = [], bp_body = ''ok''\<rparr>"
  "isl (forward_buffered sample_forward_env (flaky_client 1) sample_buffered sample_context)"
  by (simp_all add: sample_forwarding sample_middleware_def base_middleware_def default_buffering_def
      default_response_buffer_bytes_def Let_def)


end
