(* ===== verification/Std_Num.thy ===== *)
theory Std_Num
  imports Std_Net
begin

text \<open>
  Numbers as text: \<open>from_str_radix\<close> and \<open>FromStr\<close> of the unsigned integers, the inverse of the
  formatting \<open>show_radix\<close>, 64-bit FNV-1a and the comparison of strings in constant time, which the
  edge has in several places.
\<close>

section \<open>Parsing\<close>

definition from_str_radix :: "nat \<Rightarrow> nat \<Rightarrow> string \<Rightarrow> nat option" where
  "from_str_radix radix bound s =
     (let s = (case s of c # r \<Rightarrow> if c = CHR ''+'' then r else s | [] \<Rightarrow> []);
          (ds, r) = read_digits radix s
      in if ds = [] \<or> r \<noteq> [] \<or> bound \<le> digits_value radix ds then None else Some (digits_value radix ds))"

definition parse_u64 :: "string \<Rightarrow> u64 option" where
  "parse_u64 s = map_option of_nat (from_str_radix 10 (2 ^ 64) s)"

definition parse_u16 :: "string \<Rightarrow> u16 option" where
  "parse_u16 s = map_option of_nat (from_str_radix 10 (2 ^ 16) s)"

lemma byte_digit_char: "d < 16 \<Longrightarrow> byte_of (digit_char d) = (if d < 10 then d + 48 else d + 87)"
  by (simp add: byte_of_def digit_char_def)

lemma to_digit_char: "d < r \<Longrightarrow> r \<le> 16 \<Longrightarrow> to_digit r (digit_char d) = Some d"
  by (simp add: to_digit_def is_ascii_digit_def is_ascii_lower_def is_ascii_upper_def byte_digit_char Let_def)

lemma read_digits_append:
  "read_digits r s = (ds, []) \<Longrightarrow> d < r \<Longrightarrow> r \<le> 16 \<Longrightarrow> read_digits r (s @ [digit_char d]) = (ds @ [d], [])"
  by (induction s arbitrary: ds) (auto simp: to_digit_char split: option.splits prod.splits)

lemma read_show:
  assumes "2 \<le> r" and "r \<le> 16"
  shows "\<exists>ds. ds \<noteq> [] \<and> read_digits r (show_radix r n) = (ds, []) \<and> digits_value r ds = n"
proof (induction n rule: less_induct)
  case (less n)
  show ?case
  proof (cases "n < r")
    case True
    then have "show_radix r n = [digit_char n]" using assms by (simp add: show_radix.simps)
    then show ?thesis using True assms by (simp add: to_digit_char digits_value_def)
  next
    case False
    then have "n div r < n" using assms by (intro div_less_dividend) auto
    from less.IH [OF this] obtain ds where
      ds: "ds \<noteq> []" "read_digits r (show_radix r (n div r)) = (ds, [])" "digits_value r ds = n div r" by blast
    have "show_radix r n = show_radix r (n div r) @ [digit_char (n mod r)]"
      using False assms show_radix.simps [of r n] by simp
    then have "read_digits r (show_radix r n) = (ds @ [n mod r], [])"
      using read_digits_append [OF ds(2), of "n mod r"] assms by simp
    moreover have "digits_value r (ds @ [n mod r]) = n" using ds(3) by (simp add: digits_value_def)
    ultimately show ?thesis by blast
  qed
qed

lemma show_not_plus:
  assumes "2 \<le> r" and "r \<le> 16" and "show_radix r n = c # s"
  shows "c \<noteq> CHR ''+''"
proof
  assume "c = CHR ''+''"
  moreover have "to_digit r CHR ''+'' = None"
    by (simp add: to_digit_def is_ascii_digit_def is_ascii_lower_def is_ascii_upper_def byte_of_def)
  ultimately have "read_digits r (show_radix r n) = ([], c # s)" using assms(3) by simp
  then show False using read_show [OF assms(1,2), of n] by auto
qed

text \<open>What is printed can be read back.\<close>

lemma from_str_show:
  assumes "2 \<le> r" and "r \<le> 16" and "n < bound"
  shows "from_str_radix r bound (show_radix r n) = Some n"
  using read_show [OF assms(1,2), of n] show_not_plus [OF assms(1,2), of n] assms(3)
  by (auto simp: from_str_radix_def Let_def split: list.split)

lemma parse_u64_show: "parse_u64 (show_nat (unat w)) = Some w"
  using from_str_show [of 10 "unat w" "2 ^ 64"] unat_bound [of w] by (simp add: parse_u64_def)

section \<open>The digits that are printed\<close>

lemma show_radix_digits: "2 \<le> r \<Longrightarrow> set (show_radix r n) \<subseteq> digit_char ` {..<r}"
proof (induction n rule: less_induct)
  case (less n)
  show ?case
  proof (cases "n < r")
    case False
    then have "n div r < n" using less.prems by (intro div_less_dividend) auto
    then show ?thesis using less False show_radix.simps [of r n] by auto
  qed (use less.prems in \<open>simp add: show_radix.simps\<close>)
qed

section \<open>FNV-1a\<close>

definition fnv1a :: "string \<Rightarrow> u64" where
  "fnv1a s = foldl (\<lambda>h b. (h XOR of_nat (byte_of b)) * 0x100000001b3) 0xcbf29ce484222325 s"

section \<open>Comparison in constant time\<close>

text \<open>The loop that several comparisons share: the differences of the bytes, joined bit by bit.\<close>

lemma xor_zero_iff: "(a :: u8) XOR b = 0 \<longleftrightarrow> a = b"
  by (auto simp: bit_eq_iff bit_simps)

lemma byte_word_inj: "(of_nat (byte_of a) :: u8) = of_nat (byte_of b) \<longleftrightarrow> a = b"
proof
  assume "(of_nat (byte_of a) :: u8) = of_nat (byte_of b)"
  then have "unat (of_nat (byte_of a) :: u8) = unat (of_nat (byte_of b) :: u8)" by simp
  then show "a = b" using byte_of_less [of a] byte_of_less [of b] by (simp add: unat_of_nat)
qed simp

lemma fold_differences:
  "length l = length r \<Longrightarrow>
   foldl (\<lambda>acc (a, b). acc OR (of_nat (byte_of a) XOR of_nat (byte_of b))) (x :: u8) (zip l r) = 0 \<longleftrightarrow> x = 0 \<and> l = r"
  by (induction l r arbitrary: x rule: list_induct2) (auto simp: or_eq_0_iff xor_zero_iff byte_word_inj)

end
