(* ===== verification/Policy.thy ===== *)
theory Policy
  imports Waf Policy_Rate Circuit Forwarding Std_Num
begin

text \<open>
  The policy of a domain (\<open>PolicyEnforcer\<close> of \<open>edge/crates/http-proxy/src/lib.rs\<close>): its state,
  and the decision whether a request is let through. Whether a network contains an address is
  decided by the \<open>ipnet\<close> crate and is an argument.
\<close>

section \<open>Definitions\<close>

record policy_enforcer =
  pe_rate_limiter :: policy_rate_limiter
  pe_circuit_breakers :: circuit_breakers
  pe_in_flight_limits :: "(string, usize) hmap"
  pe_passive_health :: "(string, u32) hmap"
  pe_bot_score_buckets :: "(bot_score_key, bot_score_bucket) hmap"
  pe_digest_secret :: string
  pe_digest_replays :: "(string, instant) hmap"

definition default_policy_enforcer :: "string \<Rightarrow> string \<Rightarrow> policy_enforcer" where
  "default_policy_enforcer uuid1 uuid2 =
     \<lparr>pe_rate_limiter = \<lparr>pl_buckets = []\<rparr>, pe_circuit_breakers = [], pe_in_flight_limits = [], pe_passive_health = [],
      pe_bot_score_buckets = [], pe_digest_secret = uuid1 @ '':'' @ uuid2, pe_digest_replays = []\<rparr>"

record policy_rejection =
  pj_status :: u16
  pj_message :: string
  pj_metric_reason :: string
  pj_retry_after :: "nat option"
  pj_location :: "string option"

definition mk_policy_rejection :: "u16 \<Rightarrow> string \<Rightarrow> string \<Rightarrow> policy_rejection" where
  "mk_policy_rejection status msg metric_reason =
     \<lparr>pj_status = status, pj_message = msg, pj_metric_reason = metric_reason, pj_retry_after = None, pj_location = None\<rparr>"

subsection \<open>Helpers\<close>

definition location_code_matches :: "string option \<Rightarrow> string list \<Rightarrow> bool" where
  "location_code_matches actual configured =
     (case actual of None \<Rightarrow> False
      | Some code \<Rightarrow> list_ex (\<lambda>c. c = ''*'' \<or> eq_ignore_ascii_case c code) configured)"

definition content_length :: "http_crate \<Rightarrow> headers \<Rightarrow> u64 option" where
  "content_length hc h = Option.bind (hdr_str hc h ''content-length'') parse_u64"

definition request_can_have_body :: "string \<Rightarrow> bool" where
  "request_can_have_body method \<longleftrightarrow> method \<in> {''POST'', ''PUT'', ''PATCH'', ''DELETE''}"

definition content_type_matches :: "string \<Rightarrow> string \<Rightarrow> bool" where
  "content_type_matches actual expected =
     eq_ignore_ascii_case (trim (case split_on CHR '';'' actual of x # _ \<Rightarrow> x | [] \<Rightarrow> actual)) (trim expected)"

definition header_present :: "http_crate \<Rightarrow> headers \<Rightarrow> string \<Rightarrow> bool" where
  "header_present hc h name = (case hc_header_name hc name of Some n \<Rightarrow> hdr_contains h n | None \<Rightarrow> False)"

definition header_value :: "http_crate \<Rightarrow> headers \<Rightarrow> string \<Rightarrow> string option" where
  "header_value hc h name = Option.bind (hc_header_name hc name) (hdr_str hc h)"

definition is_cors_preflight :: "http_request \<Rightarrow> domain_rules \<Rightarrow> bool" where
  "is_cors_preflight req rules \<longleftrightarrow>
     dr_cors_preflight_enabled rules \<and> dr_cors_allowed_origins rules \<noteq> [] \<and> rq_method req = ''OPTIONS'' \<and>
     hdr_contains (rq_headers req) ''origin'' \<and> hdr_contains (rq_headers req) ''access-control-request-method''"

subsection \<open>The decision\<close>

definition reject_if :: "bool \<Rightarrow> policy_rejection \<Rightarrow> policy_rejection option" where
  "reject_if bad r = (if bad then Some r else None)"

definition maintenance_status :: "http_crate \<Rightarrow> domain_rules \<Rightarrow> u16" where
  "maintenance_status hc rules =
     (case dr_maintenance_status_code rules of
        None \<Rightarrow> 503
      | Some v \<Rightarrow> if hc_status_ok hc v \<and> (is_server_error v \<or> is_client_error v) then v else 503)"

definition scheme_checks :: "http_crate \<Rightarrow> domain_rules \<Rightarrow> proxy_request_context \<Rightarrow> policy_rejection option list" where
  "scheme_checks hc rules ctx =
     [reject_if (dr_maintenance_mode rules)
        (mk_policy_rejection (maintenance_status hc rules) ''domain is in maintenance mode'' ''maintenance_mode''),
      reject_if (rc_scheme ctx = Http \<and> dr_redirect_http_to_https rules)
        \<lparr>pj_status = 308, pj_message = ''https required'', pj_metric_reason = ''https_redirect'',
         pj_retry_after = None, pj_location = Some (''https://'' @ rc_domain ctx @ rc_path ctx)\<rparr>,
      reject_if (rc_scheme ctx = Http \<and> dr_require_https rules)
        (mk_policy_rejection 426 ''https is required for this domain'' ''https_required'')]"

definition address_checks ::
    "(ip_net \<Rightarrow> ip_addr \<Rightarrow> bool) \<Rightarrow> domain_rules \<Rightarrow> proxy_request_context \<Rightarrow> policy_rejection option list" where
  "address_checks contains rules ctx =
     (case rc_remote_ip ctx of
        None \<Rightarrow> []
      | Some ip \<Rightarrow>
          [reject_if (dr_ip_allowlist rules \<noteq> [] \<and> \<not> list_ex (\<lambda>n. contains n ip) (dr_ip_allowlist rules))
             (mk_policy_rejection 403 ''ip is not allowed for this domain'' ''ip_not_allowlisted''),
           reject_if (list_ex (\<lambda>n. contains n ip) (dr_ip_blocklist rules))
             (mk_policy_rejection 403 ''ip is blocked for this domain'' ''ip_blocklisted'')])"

definition location_checks :: "domain_rules \<Rightarrow> proxy_request_context \<Rightarrow> policy_rejection option list" where
  "location_checks rules ctx =
     (let country = geo_country_code (rc_location ctx); continent = geo_continent_code (rc_location ctx) in
      [reject_if (dr_country_allowlist rules \<noteq> [] \<and> \<not> location_code_matches country (dr_country_allowlist rules))
         (mk_policy_rejection 403 ''country is not allowed for this domain'' ''country_not_allowlisted''),
       reject_if (location_code_matches country (dr_country_blocklist rules))
         (mk_policy_rejection 403 ''country is blocked for this domain'' ''country_blocklisted''),
       reject_if (dr_continent_allowlist rules \<noteq> [] \<and> \<not> location_code_matches continent (dr_continent_allowlist rules))
         (mk_policy_rejection 403 ''continent is not allowed for this domain'' ''continent_not_allowlisted''),
       reject_if (location_code_matches continent (dr_continent_blocklist rules))
         (mk_policy_rejection 403 ''continent is blocked for this domain'' ''continent_blocklisted'')])"

definition method_listed :: "http_request \<Rightarrow> string list \<Rightarrow> bool" where
  "method_listed req methods = list_ex (\<lambda>m. eq_ignore_ascii_case m (rq_method req)) methods"

definition shape_checks :: "http_crate \<Rightarrow> http_request \<Rightarrow> domain_rules \<Rightarrow> policy_rejection option list" where
  "shape_checks hc req rules =
     [reject_if (method_listed req (dr_blocked_methods rules))
        (mk_policy_rejection 405 ''method is blocked for this domain'' ''method_blocked''),
      reject_if (dr_allowed_methods rules \<noteq> [] \<and> \<not> method_listed req (dr_allowed_methods rules))
        (mk_policy_rejection 405 ''method is not allowed for this domain'' ''method_not_allowed''),
      reject_if (\<not> dr_allow_websocket rules \<and> is_websocket_upgrade hc (rq_headers req))
        (mk_policy_rejection 403 ''websocket upgrades are disabled for this domain'' ''websocket_disabled''),
      reject_if (case dr_max_uri_length rules of Some limit \<Rightarrow> unat limit < length (uri_text (rq_uri req)) | None \<Rightarrow> False)
        (mk_policy_rejection 414 ''request uri is too long'' ''uri_too_long''),
      reject_if (case dr_max_body_bytes rules of
                   Some limit \<Rightarrow> (case content_length hc (rq_headers req) of Some n \<Rightarrow> limit < n | None \<Rightarrow> False)
                 | None \<Rightarrow> False)
        (mk_policy_rejection 413 ''request body is too large'' ''body_too_large'')]"

definition content_type_allowed :: "http_crate \<Rightarrow> http_request \<Rightarrow> domain_rules \<Rightarrow> bool" where
  "content_type_allowed hc req rules =
     (case hdr_str hc (rq_headers req) ''content-type'' of
        Some ct \<Rightarrow> list_ex (\<lambda>allowed. content_type_matches ct allowed) (dr_allowed_content_types rules)
      | None \<Rightarrow> False)"

definition required_header_check :: "http_crate \<Rightarrow> http_request \<Rightarrow> required_header_rule \<Rightarrow> policy_rejection option" where
  "required_header_check hc req required =
     (case header_value hc (rq_headers req) (rh_name required) of
        None \<Rightarrow> Some (mk_policy_rejection 400 ''request is missing a required header'' ''header_required'')
      | Some v \<Rightarrow>
          reject_if (case rh_value required of Some expected \<Rightarrow> expected \<noteq> v | None \<Rightarrow> False)
            (mk_policy_rejection 400 ''request header has an invalid value'' ''header_required_value''))"

definition header_checks :: "http_crate \<Rightarrow> http_request \<Rightarrow> domain_rules \<Rightarrow> policy_rejection option list" where
  "header_checks hc req rules =
     reject_if (dr_allowed_content_types rules \<noteq> [] \<and> request_can_have_body (rq_method req) \<and>
                \<not> content_type_allowed hc req rules)
       (mk_policy_rejection 415 ''content-type is not allowed for this domain'' ''content_type_not_allowed'') #
     map (\<lambda>blocked. reject_if (header_present hc (rq_headers req) blocked)
            (mk_policy_rejection 403 ''request contains a blocked header'' ''header_blocked'')) (dr_blocked_headers rules) @
     (if dr_allowed_headers rules = [] then []
      else map (\<lambda>name. reject_if (\<not> list_ex (\<lambda>allowed. eq_ignore_ascii_case allowed name) (dr_allowed_headers rules))
             (mk_policy_rejection 403 ''request contains a header that is not allowed'' ''header_not_allowed''))
           (remdups (map fst (rq_headers req)))) @
     map (required_header_check hc req) (dr_required_headers rules)"

definition rate_check ::
    "http_crate \<Rightarrow> instant \<Rightarrow> domain_rules \<Rightarrow> proxy_request_context \<Rightarrow> policy_enforcer \<Rightarrow>
     policy_rejection option \<times> policy_enforcer" where
  "rate_check hc now rules ctx pe =
     (case dr_rate_limit rules of
        None \<Rightarrow> (None, pe)
      | Some limit \<Rightarrow>
          (let (wait, l) = retry_after now limit (rc_domain ctx) (rc_path ctx) (rc_remote_ip ctx) (pe_rate_limiter pe);
               pe = pe\<lparr>pe_rate_limiter := l\<rparr>
           in case wait of
                None \<Rightarrow> (None, pe)
              | Some d \<Rightarrow>
                  (Some \<lparr>pj_status = (if hc_status_ok hc (drl_status_code limit) then drl_status_code limit else 429),
                         pj_message = ''rate limited by domain rules'', pj_metric_reason = ''domain_rate_limited'',
                         pj_retry_after = Some d, pj_location = None\<rparr>, pe)))"

definition evaluate ::
    "http_crate \<Rightarrow> (ip_net \<Rightarrow> ip_addr \<Rightarrow> bool) \<Rightarrow> (f64 \<Rightarrow> f64) \<Rightarrow> instant \<Rightarrow> http_request \<Rightarrow> domain_rules \<Rightarrow>
     proxy_request_context \<Rightarrow> policy_enforcer \<Rightarrow> policy_rejection option \<times> policy_enforcer" where
  "evaluate hc contains log2 now req rules ctx pe =
     (case find_map id (scheme_checks hc rules ctx @ address_checks contains rules ctx @ location_checks rules ctx @
             shape_checks hc req rules) of
        Some r \<Rightarrow> (Some r, pe)
      | None \<Rightarrow>
          (let (waf, buckets) = waf_rejection_reason hc log2 now req rules ctx (pe_bot_score_buckets pe);
               pe = pe\<lparr>pe_bot_score_buckets := buckets\<rparr>
           in case waf of
                Some reason \<Rightarrow> (Some (mk_policy_rejection 403 ''request blocked by waf rules'' reason), pe)
              | None \<Rightarrow>
                  (case find_map id (header_checks hc req rules) of
                     Some r \<Rightarrow> (Some r, pe)
                   | None \<Rightarrow>
                       (let (limited, pe) = rate_check hc now rules ctx pe
                        in case limited of
                             Some r \<Rightarrow> (Some r, pe)
                           | None \<Rightarrow>
                               (reject_if (is_cors_preflight req rules)
                                  (mk_policy_rejection 204 ''cors preflight accepted'' ''cors_preflight''), pe)))))"

subsection \<open>Locations\<close>

definition location_matches :: "string list \<Rightarrow> string list \<Rightarrow> geo_location \<Rightarrow> bool" where
  "location_matches countries continents l \<longleftrightarrow>
     (countries = [] \<or> location_code_matches (geo_country_code l) countries) \<and>
     (continents = [] \<or> location_code_matches (geo_continent_code l) continents)"

definition location_rule_matches :: "traffic_split_rule \<Rightarrow> geo_location \<Rightarrow> bool" where
  "location_rule_matches rule l = location_matches (ts_countries rule) (ts_continents rule) l"

definition location_upstreams :: "domain_rules \<Rightarrow> geo_location \<Rightarrow> (string \<times> upstream list) option" where
  "location_upstreams rules l =
     find_map (\<lambda>rule.
       if lr_upstreams rule = [] then None
       else if location_matches (lr_countries rule) (lr_continents rule) l
       then Some (case lr_name rule of
                    Some n \<Rightarrow> n
                  | None \<Rightarrow> ''geo:'' @ join_with ''_'' (lr_countries rule) @ '':'' @ join_with ''_'' (lr_continents rule),
                  lr_upstreams rule)
       else None) (dr_location_routes rules)"

definition matching_traffic_splits :: "domain_rules \<Rightarrow> geo_location \<Rightarrow> traffic_split_rule list" where
  "matching_traffic_splits rules l =
     filter (\<lambda>rule. ts_upstreams rule \<noteq> [] \<and> location_rule_matches rule l) (dr_traffic_splits rules)"

section \<open>What is let through\<close>

lemma reject_if_None [simp]: "reject_if bad r = None \<longleftrightarrow> \<not> bad"
  by (simp add: reject_if_def)

text \<open>The rules of a domain, as conditions on a request that do not depend on their order.\<close>

definition origin_admitted :: "(ip_net \<Rightarrow> ip_addr \<Rightarrow> bool) \<Rightarrow> domain_rules \<Rightarrow> proxy_request_context \<Rightarrow> bool" where
  "origin_admitted contains rules ctx \<longleftrightarrow>
     \<not> dr_maintenance_mode rules \<and>
     (rc_scheme ctx = Https \<or> \<not> dr_redirect_http_to_https rules \<and> \<not> dr_require_https rules) \<and>
     (\<forall>ip. rc_remote_ip ctx = Some ip \<longrightarrow>
        (dr_ip_allowlist rules = [] \<or> (\<exists>n\<in>set (dr_ip_allowlist rules). contains n ip)) \<and>
        (\<forall>n\<in>set (dr_ip_blocklist rules). \<not> contains n ip)) \<and>
     (\<forall>(code, allow, block) \<in>
        {(geo_country_code (rc_location ctx), dr_country_allowlist rules, dr_country_blocklist rules),
         (geo_continent_code (rc_location ctx), dr_continent_allowlist rules, dr_continent_blocklist rules)}.
        (allow = [] \<or> location_code_matches code allow) \<and> \<not> location_code_matches code block)"

definition shape_admitted :: "http_crate \<Rightarrow> http_request \<Rightarrow> domain_rules \<Rightarrow> bool" where
  "shape_admitted hc req rules \<longleftrightarrow>
     \<not> method_listed req (dr_blocked_methods rules) \<and>
     (dr_allowed_methods rules = [] \<or> method_listed req (dr_allowed_methods rules)) \<and>
     (dr_allow_websocket rules \<or> \<not> is_websocket_upgrade hc (rq_headers req)) \<and>
     (\<forall>limit. dr_max_uri_length rules = Some limit \<longrightarrow> length (uri_text (rq_uri req)) \<le> unat limit) \<and>
     (\<forall>limit n. dr_max_body_bytes rules = Some limit \<and> content_length hc (rq_headers req) = Some n \<longrightarrow> n \<le> limit)"

definition headers_admitted :: "http_crate \<Rightarrow> http_request \<Rightarrow> domain_rules \<Rightarrow> bool" where
  "headers_admitted hc req rules \<longleftrightarrow>
     (dr_allowed_content_types rules = [] \<or> \<not> request_can_have_body (rq_method req) \<or> content_type_allowed hc req rules) \<and>
     (\<forall>name\<in>set (dr_blocked_headers rules). \<not> header_present hc (rq_headers req) name) \<and>
     (dr_allowed_headers rules = [] \<or>
        (\<forall>name\<in>fst ` set (rq_headers req). \<exists>allowed\<in>set (dr_allowed_headers rules). eq_ignore_ascii_case allowed name)) \<and>
     (\<forall>required\<in>set (dr_required_headers rules). \<exists>v. header_value hc (rq_headers req) (rh_name required) = Some v \<and>
        (rh_value required = None \<or> rh_value required = Some v))"

lemma find_id_None: "find_map id xs = None \<longleftrightarrow> (\<forall>x\<in>set xs. x = None)"
  by (simp add: find_map_None_iff)

lemma scheme_checks_None:
  "(\<forall>x\<in>set (scheme_checks hc rules ctx). x = None) \<longleftrightarrow> \<not> dr_maintenance_mode rules \<and>
     (rc_scheme ctx = Https \<or> \<not> dr_redirect_http_to_https rules \<and> \<not> dr_require_https rules)"
  by (cases "rc_scheme ctx") (simp_all add: scheme_checks_def conj_ac)

lemma address_checks_None:
  "(\<forall>x\<in>set (address_checks contains rules ctx). x = None) \<longleftrightarrow>
     (\<forall>ip. rc_remote_ip ctx = Some ip \<longrightarrow>
        (dr_ip_allowlist rules = [] \<or> (\<exists>n\<in>set (dr_ip_allowlist rules). contains n ip)) \<and>
        (\<forall>n\<in>set (dr_ip_blocklist rules). \<not> contains n ip))"
  by (cases "rc_remote_ip ctx") (simp_all add: address_checks_def list_ex_iff)

lemma location_checks_None:
  "(\<forall>x\<in>set (location_checks rules ctx). x = None) \<longleftrightarrow>
     (\<forall>(code, allow, block) \<in>
        {(geo_country_code (rc_location ctx), dr_country_allowlist rules, dr_country_blocklist rules),
         (geo_continent_code (rc_location ctx), dr_continent_allowlist rules, dr_continent_blocklist rules)}.
        (allow = [] \<or> location_code_matches code allow) \<and> \<not> location_code_matches code block)"
  by (simp add: location_checks_def Let_def)

lemma origin_checks_None:
  "find_map id (scheme_checks hc rules ctx @ address_checks contains rules ctx @ location_checks rules ctx) = None \<longleftrightarrow>
     origin_admitted contains rules ctx"
  unfolding find_id_None set_append ball_Un scheme_checks_None address_checks_None location_checks_None origin_admitted_def
  by (rule refl | simp only: conj_assoc)+

lemma shape_checks_None: "find_map id (shape_checks hc req rules) = None \<longleftrightarrow> shape_admitted hc req rules"
  unfolding find_id_None shape_checks_def shape_admitted_def by (simp add: not_less split: option.split) 

lemma required_header_None:
  "required_header_check hc req required = None \<longleftrightarrow> (\<exists>v. header_value hc (rq_headers req) (rh_name required) = Some v \<and>
     (rh_value required = None \<or> rh_value required = Some v))"
  by (auto simp: required_header_check_def split: option.split)

lemma header_checks_None: "find_map id (header_checks hc req rules) = None \<longleftrightarrow> headers_admitted hc req rules"
  unfolding find_id_None header_checks_def headers_admitted_def
  by (simp add: required_header_None list_ex_iff ball_Un)

lemma find_map_append: "find_map f (xs @ ys) = (case find_map f xs of None \<Rightarrow> find_map f ys | Some y \<Rightarrow> Some y)"
  by (induction xs) (auto split: option.split)

lemma early_checks_None:
  "find_map id (scheme_checks hc rules ctx @ address_checks contains rules ctx @ location_checks rules ctx @
     shape_checks hc req rules) = None \<longleftrightarrow> origin_admitted contains rules ctx \<and> shape_admitted hc req rules"
  using origin_checks_None [of hc rules ctx contains] shape_checks_None [of hc req rules]
  by (auto simp: find_map_append split: option.splits)

section \<open>Properties\<close>

text \<open>C4. A domain's policy is enforced in full: a request is let through exactly when every rule
  admits it (maintenance, scheme, address, country and continent lists, methods, WebSocket,
  URI and body size, content type, blocked, allowed and required headers), the firewall finds
  no reason against it, the rate limit has a token for it, and it is not a preflight request
  that is answered directly. The order of the checks hides none of them, and a request that
  the rules or the firewall refuse costs no token of the rate limit.\<close>

theorem policy_admits_iff:
  assumes "evaluate hc contains log2 now req rules ctx pe = (r, pe')"
    and "waf_rejection_reason hc log2 now req rules ctx (pe_bot_score_buckets pe) = (reason, buckets)"
    and "rate_check hc now rules ctx (pe\<lparr>pe_bot_score_buckets := buckets\<rparr>) = (limited, pe2)"
    and "admitted \<longleftrightarrow> origin_admitted contains rules ctx \<and> shape_admitted hc req rules \<and> headers_admitted hc req rules \<and> reason = None"
  shows "(r = None \<longleftrightarrow> admitted \<and> limited = None \<and> \<not> is_cors_preflight req rules) \<and>
    (\<not> admitted \<longrightarrow> pe_rate_limiter pe' = pe_rate_limiter pe)"
proof -
  define early late where "early = find_map id (scheme_checks hc rules ctx @ address_checks contains rules ctx @
      location_checks rules ctx @ shape_checks hc req rules)" and "late = find_map id (header_checks hc req rules)"
  have "evaluate hc contains log2 now req rules ctx pe =
      (case early of Some r \<Rightarrow> (Some r, pe)
       | None \<Rightarrow> case reason of
           Some x \<Rightarrow> (Some (mk_policy_rejection 403 ''request blocked by waf rules'' x), pe\<lparr>pe_bot_score_buckets := buckets\<rparr>)
         | None \<Rightarrow> case late of
             Some r \<Rightarrow> (Some r, pe\<lparr>pe_bot_score_buckets := buckets\<rparr>)
           | None \<Rightarrow> case limited of
               Some r \<Rightarrow> (Some r, pe2)
             | None \<Rightarrow> (reject_if (is_cors_preflight req rules)
                 (mk_policy_rejection 204 ''cors preflight accepted'' ''cors_preflight''), pe2))"
    unfolding evaluate_def assms(2) Let_def prod.case assms(3) early_def late_def by (rule refl)
  moreover have "admitted \<longleftrightarrow> early = None \<and> reason = None \<and> late = None"
    unfolding assms(4) early_def late_def early_checks_None header_checks_None by auto
  ultimately show ?thesis using assms(1) by (cases early; cases reason; cases late; cases limited; auto)
qed

definition browser_request :: http_request where
  "browser_request = \<lparr>rq_method = ''GET'', rq_uri = plain_uri ''/'', rq_headers = [], rq_body = []\<rparr>"

definition closed_rules :: domain_rules where
  "closed_rules = default_domain_rules\<lparr>dr_blocked_methods := [''trace'', ''get'']\<rparr>"

theorem policy_admits_iff_witness:
  "fst (evaluate plain_http (\<lambda>_ _. False) (\<lambda>_. 0) 0 browser_request closed_rules scanner_context
     (default_policy_enforcer ''a'' ''b'')) \<noteq> None"
proof -
  let ?pe = "default_policy_enforcer ''a'' ''b''"
  obtain r pe' where e: "evaluate plain_http (\<lambda>_ _. False) (\<lambda>_. 0) 0 browser_request closed_rules scanner_context ?pe = (r, pe')"
    by fastforce
  obtain reason bs where w: "waf_rejection_reason plain_http (\<lambda>_. 0) 0 browser_request closed_rules scanner_context
      (pe_bot_score_buckets ?pe) = (reason, bs)" by fastforce
  obtain limited pe2 where l: "rate_check plain_http 0 closed_rules scanner_context (?pe\<lparr>pe_bot_score_buckets := bs\<rparr>) = (limited, pe2)"
    by fastforce
  have "method_listed browser_request (dr_blocked_methods closed_rules)"
    by (simp add: closed_rules_def method_listed_def browser_request_def) code_simp
  then have "\<not> shape_admitted plain_http browser_request closed_rules" by (simp add: shape_admitted_def)
  then show ?thesis using policy_admits_iff [OF e w l refl] e by simp
qed

text \<open>The redirect to https loses the query: it is built from the canonical path alone.\<close>

lemma https_redirect_drops_query:
  assumes "\<not> dr_maintenance_mode rules" and "rc_scheme ctx = Http" and "dr_redirect_http_to_https rules"
  shows "\<exists>r. fst (evaluate hc contains log2 now req rules ctx pe) = Some r \<and> pj_status r = 308 \<and>
    pj_location r = Some (''https://'' @ rc_domain ctx @ rc_path ctx)"
  using assms by (simp add: evaluate_def scheme_checks_def reject_if_def)

end
