(* ===== verification/Response_Rules.thy ===== *)
theory Response_Rules
  imports Policy
begin

text \<open>
  What the edge changes in the headers of requests and responses
  (\<open>edge/crates/http-proxy/src/lib.rs\<close>): the rules of a domain, cross-origin and security
  headers, caching, content types, compression and the cookie of sticky sessions. The order in
  which a \<open>HashMap\<close> is traversed is open and is an argument, as is the gzip encoder.
\<close>

section \<open>Definitions\<close>

subsection \<open>Rules of a domain\<close>

type_synonym map_order = "(string, string) fmap \<Rightarrow> (string \<times> string) list"

definition insert_rule_header :: "http_crate \<Rightarrow> string \<times> string \<Rightarrow> headers \<Rightarrow> headers" where
  "insert_rule_header hc nv h =
     (case (hc_header_name hc (fst nv), hc_header_value hc (snd nv)) of
        (Some n, Some v) \<Rightarrow> hdr_insert n v h
      | _ \<Rightarrow> h)"

definition apply_request_rules :: "http_crate \<Rightarrow> map_order \<Rightarrow> domain_rules \<Rightarrow> headers \<Rightarrow> headers" where
  "apply_request_rules hc order rules h =
     fold (insert_rule_header hc) (order (dr_add_request_headers rules))
       (fold (hdr_remove_named hc) (dr_strip_request_headers rules) h)"

definition insert_static_header_if_absent :: "string \<Rightarrow> string \<Rightarrow> headers \<Rightarrow> headers" where
  "insert_static_header_if_absent n v h = (if hdr_contains h n then h else hdr_insert n v h)"

definition CSP :: string where
  "CSP = ''default-src '' @ quoted ''self'' @ ''; base-uri '' @ quoted ''self'' @ ''; object-src '' @ quoted ''none'' @
     ''; frame-ancestors '' @ quoted ''none'' @ ''; script-src '' @ quoted ''self'' @ '' '' @ quoted ''unsafe-inline'' @ '' '' @
     quoted ''wasm-unsafe-eval'' @ '' https:; style-src '' @ quoted ''self'' @ '' '' @ quoted ''unsafe-inline'' @ ''; img-src '' @
     quoted ''self'' @ '' data: blob: https:; font-src '' @ quoted ''self'' @ '' data:; connect-src '' @ quoted ''self'' @
     '' data: https: wss:; frame-src '' @ quoted ''self'' @ '' https:; upgrade-insecure-requests''"

definition add_security_headers :: "headers \<Rightarrow> headers" where
  "add_security_headers h =
     hdr_insert ''content-security-policy'' CSP
       (insert_static_header_if_absent ''permissions-policy'' ''camera=(), microphone=(), geolocation=()''
         (hdr_insert ''referrer-policy'' ''origin-when-cross-origin''
           (hdr_insert ''x-content-type-options'' ''nosniff''
             (hdr_insert ''x-frame-options'' ''DENY''
               (hdr_insert ''cross-origin-opener-policy'' ''same-origin-allow-popups''
                 (hdr_insert ''strict-transport-security'' ''max-age=31536000; includeSubDomains; preload'' h))))))"

definition cors_origin_allowed :: "http_crate \<Rightarrow> string \<Rightarrow> string list \<Rightarrow> bool" where
  "cors_origin_allowed hc origin allowed_origins =
     (case hc_to_str hc origin of
        None \<Rightarrow> False
      | Some o1 \<Rightarrow> list_ex (\<lambda>allowed. allowed = ''*'' \<or> eq_ignore_ascii_case allowed o1) allowed_origins)"

definition insert_joined :: "http_crate \<Rightarrow> string \<Rightarrow> string list \<Rightarrow> headers \<Rightarrow> headers" where
  "insert_joined hc name values h =
     (if values = [] then h else hdr_insert_str hc name (join_with '', '' values) h)"

definition apply_cors :: "http_crate \<Rightarrow> domain_rules \<Rightarrow> string option \<Rightarrow> headers \<Rightarrow> headers" where
  "apply_cors hc rules request_origin h =
     (case request_origin of
        Some origin \<Rightarrow>
          if cors_origin_allowed hc origin (dr_cors_allowed_origins rules)
          then insert_joined hc ''access-control-allow-headers'' (dr_cors_allowed_headers rules)
                 (insert_joined hc ''access-control-allow-methods'' (dr_cors_allowed_methods rules)
                   ((if dr_cors_allow_credentials rules
                     then hdr_insert ''access-control-allow-credentials'' ''true'' else id)
                     (hdr_insert ''vary'' ''origin'' (hdr_insert ''access-control-allow-origin'' origin h))))
          else h
      | None \<Rightarrow>
          if list_ex (\<lambda>origin. origin = ''*'') (dr_cors_allowed_origins rules)
          then hdr_insert ''access-control-allow-origin'' ''*'' h
          else h)"

definition apply_response_rules ::
    "http_crate \<Rightarrow> map_order \<Rightarrow> domain_rules \<Rightarrow> string option \<Rightarrow> headers \<Rightarrow> headers" where
  "apply_response_rules hc order rules request_origin h =
     apply_cors hc rules request_origin
       (fold (insert_rule_header hc) (order (dr_response_headers rules))
         (if dr_add_security_headers rules then add_security_headers h else h))"

subsection \<open>Tracing\<close>

definition REQUEST_ID_HEADER :: string where "REQUEST_ID_HEADER = ''x-request-id''"

definition pad_left :: "nat \<Rightarrow> char \<Rightarrow> string \<Rightarrow> string" where
  "pad_left n c s = replicate (n - length s) c @ s"

definition attach_request_id_header :: "http_crate \<Rightarrow> string \<Rightarrow> headers \<Rightarrow> headers" where
  "attach_request_id_header hc request_id h = hdr_insert_str hc REQUEST_ID_HEADER request_id h"

definition ensure_trace_headers :: "http_crate \<Rightarrow> string \<Rightarrow> u64 \<Rightarrow> string \<Rightarrow> headers \<Rightarrow> headers" where
  "ensure_trace_headers hc trace_id nanos request_id h =
     attach_request_id_header hc request_id
       (if hdr_contains h ''traceparent'' then h
        else hdr_insert_str hc ''traceparent''
               (''00-'' @ trace_id @ ''-'' @ pad_left 16 CHR ''0'' (show_radix 16 (unat nanos)) @ ''-01'') h)"

subsection \<open>Caching\<close>

definition ASSET_PREFIXES :: "string list" where
  "ASSET_PREFIXES = [''/assets/'', ''/fonts/'', ''/generated/website-assets/'', ''/_build/'']"

definition ASSET_SUFFIXES :: "string list" where
  "ASSET_SUFFIXES =
     [''.avif'', ''.webp'', ''.png'', ''.jpg'', ''.jpeg'', ''.svg'', ''.gif'', ''.ico'', ''.css'', ''.js'', ''.mjs'', ''.woff'',
      ''.woff2'', ''.ttf'', ''.otf'', ''.wasm'', ''.map'']"

definition is_static_asset_path :: "string \<Rightarrow> bool" where
  "is_static_asset_path path =
     (let lower = to_ascii_lowercase (path_without_query path)
      in list_ex (\<lambda>p. starts_with lower p) ASSET_PREFIXES \<or> list_ex (\<lambda>s. ends_with lower s) ASSET_SUFFIXES)"

definition is_html_document_path :: "string \<Rightarrow> bool" where
  "is_html_document_path path =
     (let clean = path_without_query path
      in clean = ''/'' \<or> ends_with clean ''.html'' \<or>
         \<not> starts_with clean ''/api/'' \<and> \<not> str_contains clean ''.'')"

definition apply_default_cache_headers :: "string \<Rightarrow> headers \<Rightarrow> headers" where
  "apply_default_cache_headers path h =
     (if is_static_asset_path path
      then hdr_insert ''expires'' ''Thu, 31 Dec 2037 23:55:55 GMT''
             (hdr_insert ''cache-control'' ''public, max-age=31536000, immutable'' h)
      else if is_html_document_path path then hdr_insert ''cache-control'' ''no-cache'' h
      else h)"

subsection \<open>Content types and compression\<close>

definition sniff_content_type :: "string \<Rightarrow> string option" where
  "sniff_content_type body =
     (let trimmed = take 16 (dropWhile is_ascii_whitespace body)
      in if starts_with trimmed ''{'' \<or> starts_with trimmed ''['' then Some ''application/json''
         else if starts_with trimmed ''<!doctype'' \<or> starts_with trimmed ''<html''
         then Some ''text/html; charset=utf-8''
         else None)"

definition detect_content_type :: "string \<Rightarrow> string option \<Rightarrow> string option" where
  "detect_content_type path body =
     (let lower = to_ascii_lowercase path in
      if ends_with lower ''.json'' then Some ''application/json''
      else if ends_with lower ''.html'' \<or> ends_with lower ''.htm'' then Some ''text/html; charset=utf-8''
      else if ends_with lower ''.css'' then Some ''text/css; charset=utf-8''
      else if ends_with lower ''.js'' \<or> ends_with lower ''.mjs'' then Some ''application/javascript''
      else if ends_with lower ''.svg'' then Some ''image/svg+xml''
      else if ends_with lower ''.txt'' then Some ''text/plain; charset=utf-8''
      else Option.bind body sniff_content_type)"

definition apply_request_content_type_detection :: "uri \<Rightarrow> string option \<Rightarrow> headers \<Rightarrow> headers" where
  "apply_request_content_type_detection u body h =
     (if hdr_contains h ''content-type'' then h
      else case detect_content_type (uri_path u) body of
        Some ct \<Rightarrow> hdr_insert ''content-type'' ct h
      | None \<Rightarrow> h)"

definition response_is_compressible :: "http_crate \<Rightarrow> headers \<Rightarrow> compression_config \<Rightarrow> bool" where
  "response_is_compressible hc h c =
     (case hdr_str hc h ''content-type'' of
        None \<Rightarrow> True
      | Some ct \<Rightarrow>
          if cmp_content_types c \<noteq> [] then list_ex (\<lambda>expected. content_type_matches ct expected) (cmp_content_types c)
          else starts_with ct ''text/'' \<or> content_type_matches ct ''application/json'' \<or>
               content_type_matches ct ''application/javascript'' \<or> content_type_matches ct ''image/svg+xml'')"

definition accepts_gzip :: "http_crate \<Rightarrow> string option \<Rightarrow> bool" where
  "accepts_gzip hc v =
     (case Option.bind v (hc_to_str hc) of
        None \<Rightarrow> False
      | Some s \<Rightarrow> list_ex (\<lambda>part. starts_with (trim part) ''gzip'') (split_on CHR '','' s))"

definition autodetect_response :: "effective_middleware \<Rightarrow> buffered_response \<Rightarrow> buffered_response" where
  "autodetect_response m r =
     (if ctd_enabled (em_content_type_autodetect m) \<and> \<not> hdr_contains (bp_headers r) ''content-type''
      then case detect_content_type [] (Some (bp_body r)) of
             Some ct \<Rightarrow> r\<lparr>bp_headers := hdr_insert ''content-type'' ct (bp_headers r)\<rparr>
           | None \<Rightarrow> r
      else r)"

definition apply_response_middleware ::
    "http_crate \<Rightarrow> (string \<Rightarrow> string option) \<Rightarrow> effective_middleware \<Rightarrow> bool \<Rightarrow> buffered_response \<Rightarrow> buffered_response" where
  "apply_response_middleware hc gzip m accepts r =
     (let r = autodetect_response m r; c = em_compression m in
      if \<not> cmp_enabled c \<or> \<not> accepts \<or> length (bp_body r) < unat (cmp_min_bytes c) \<or>
         hdr_contains (bp_headers r) ''content-encoding'' \<or> \<not> response_is_compressible hc (bp_headers r) c
      then r
      else case gzip (bp_body r) of
        Some body \<Rightarrow>
          r\<lparr>bp_body := body,
            bp_headers := hdr_insert ''vary'' ''accept-encoding''
              (hdr_remove ''content-length'' (hdr_insert ''content-encoding'' ''gzip'' (bp_headers r)))\<rparr>
      | None \<Rightarrow> r)"

subsection \<open>Sticky sessions and mirroring\<close>

definition sticky_upstream_id :: "string \<Rightarrow> string" where
  "sticky_upstream_id upstream = show_radix 16 (unat (fnv1a upstream))"

definition cookie_value :: "string \<Rightarrow> string \<Rightarrow> string option" where
  "cookie_value cookie name =
     find_map (\<lambda>part. case split_once CHR ''='' (trim part) of
         None \<Rightarrow> None
       | Some (cookie_name, v) \<Rightarrow> if cookie_name = name then Some v else None)
       (split_on CHR '';'' cookie)"

definition sticky_upstream :: "http_crate \<Rightarrow> headers \<Rightarrow> upstream list \<Rightarrow> sticky_session_config \<Rightarrow> upstream option" where
  "sticky_upstream hc h upstreams sticky =
     (if \<not> st_enabled sticky then None
      else Option.bind (hdr_str hc h ''cookie'') (\<lambda>cookie.
           Option.bind (cookie_value cookie (st_cookie_name sticky)) (\<lambda>wanted.
             List.find (\<lambda>u. sticky_upstream_id (up_url u) = wanted) upstreams)))"

definition sticky_cookie :: "sticky_session_config \<Rightarrow> upstream \<Rightarrow> string" where
  "sticky_cookie sticky u =
     st_cookie_name sticky @ ''='' @ sticky_upstream_id (up_url u) @ ''; Path=/'' @
     (if st_http_only sticky then ''; HttpOnly'' else []) @
     (if st_secure sticky then ''; Secure'' else []) @
     (case st_same_site sticky of Some s \<Rightarrow> ''; SameSite='' @ s | None \<Rightarrow> []) @
     (case st_max_age_seconds sticky of Some n \<Rightarrow> ''; Max-Age='' @ show_nat (unat n) | None \<Rightarrow> [])"

definition apply_sticky_cookie :: "http_crate \<Rightarrow> sticky_session_config \<Rightarrow> upstream \<Rightarrow> headers \<Rightarrow> headers" where
  "apply_sticky_cookie hc sticky u h =
     (if \<not> st_enabled sticky then h else hdr_insert_str hc ''set-cookie'' (sticky_cookie sticky u) h)"

definition mirror_should_run :: "string \<Rightarrow> uri \<Rightarrow> string \<Rightarrow> u8 \<Rightarrow> bool" where
  "mirror_should_run domain u upstream percent =
     (100 \<le> percent \<or> fnv1a (domain @ '':'' @ uri_text u @ '':'' @ upstream) mod 100 < ucast percent)"

section \<open>Sticky cookies read back\<close>

lemma digit_char_plain: "d < 16 \<Longrightarrow> digit_char d \<noteq> CHR '';'' \<and> digit_char d \<noteq> CHR ''='' \<and> graphic (digit_char d)"
  using byte_digit_char [of d] by (auto simp: graphic_def simp flip: byte_of_inj) (simp_all add: byte_of_def split: if_splits)

lemma sticky_id_plain: "c \<in> set (sticky_upstream_id url) \<Longrightarrow> c \<noteq> CHR '';'' \<and> c \<noteq> CHR ''='' \<and> graphic c"
proof -
  assume "c \<in> set (sticky_upstream_id url)"
  then have "c \<in> digit_char ` {..<16}"
    using show_radix_digits [of 16 "unat (fnv1a url)"] unfolding sticky_upstream_id_def by auto
  then show ?thesis using digit_char_plain by auto
qed

lemma show_radix_Nil [simp]: "show_radix r n \<noteq> []"
  by (subst show_radix.simps) simp

lemma sticky_id_Nil [simp]: "sticky_upstream_id url \<noteq> []"
  by (simp add: sticky_upstream_id_def)

definition cookie_name_ok :: "string \<Rightarrow> bool" where
  "cookie_name_ok n \<longleftrightarrow> n \<noteq> [] \<and> graphic (hd n) \<and> CHR '';'' \<notin> set n \<and> CHR ''='' \<notin> set n"

lemma split_once_sep: "c \<notin> set a \<Longrightarrow> split_once c (a @ c # b) = Some (a, b)"
  by (induction a) auto

lemma hd_split_sep: "c \<notin> set a \<Longrightarrow> hd (split_on c (a @ c # b)) = a"
  by (simp add: split_on_append_sep)

lemma cookie_pair:
  assumes "cookie_name_ok n"
  shows "cookie_value (n @ ''='' @ sticky_upstream_id url) n = Some (sticky_upstream_id url)"
proof -
  let ?p = "n @ CHR ''='' # sticky_upstream_id url"
  have "CHR '';'' \<notin> set ?p" using assms sticky_id_plain by (auto simp: cookie_name_ok_def)
  moreover have "trim ?p = ?p"
    using assms sticky_id_plain [of "last (sticky_upstream_id url)" url] by (intro trim_graphic) (auto simp: cookie_name_ok_def)
  moreover have "split_once CHR ''='' ?p = Some (n, sticky_upstream_id url)"
    using assms by (intro split_once_sep) (simp add: cookie_name_ok_def)
  ultimately show ?thesis by (simp add: cookie_value_def)
qed

lemma sticky_cookie_pair:
  assumes "cookie_name_ok (st_cookie_name sticky)"
  shows "hd (split_on CHR '';'' (sticky_cookie sticky u)) = st_cookie_name sticky @ ''='' @ sticky_upstream_id (up_url u)"
proof -
  let ?p = "st_cookie_name sticky @ ''='' @ sticky_upstream_id (up_url u)"
  obtain rest where cookie: "sticky_cookie sticky u = ?p @ CHR '';'' # rest" by (simp add: sticky_cookie_def)
  have "CHR '';'' \<notin> set ?p" using assms sticky_id_plain by (auto simp: cookie_name_ok_def)
  from hd_split_sep [OF this] show ?thesis unfolding cookie .
qed

section \<open>Cross-origin headers\<close>

lemma get_all_insert_joined [simp]:
  "m \<noteq> n \<Longrightarrow> hdr_get_all (insert_joined hc n vs h) m = hdr_get_all h m"
  by (simp add: insert_joined_def get_all_insert_str split: option.split)

definition ACAO :: string where "ACAO = ''access-control-allow-origin''"

lemma cors_headers:
  "hdr_get_all (apply_cors hc rules (Some origin) h) ACAO =
     (if cors_origin_allowed hc origin (dr_cors_allowed_origins rules) then [origin] else hdr_get_all h ACAO)"
  "cors_origin_allowed hc origin (dr_cors_allowed_origins rules) \<Longrightarrow>
   hdr_get_all (apply_cors hc rules (Some origin) h) ''access-control-allow-credentials'' =
     (if dr_cors_allow_credentials rules then [''true''] else hdr_get_all h ''access-control-allow-credentials'')"
  by (simp_all add: apply_cors_def ACAO_def)

section \<open>Where one header replaces another\<close>

text \<open>The cookie of the edge replaces every cookie that the application sets.\<close>

lemma sticky_cookie_drops_cookies:
  assumes "st_enabled sticky" and "hc_header_value hc (sticky_cookie sticky u) = Some v"
  shows "hdr_get_all (apply_sticky_cookie hc sticky u h) ''set-cookie'' = [v]"
  using assms by (simp add: apply_sticky_cookie_def hdr_insert_str_def)

text \<open>A cross-origin answer replaces the \<open>Vary\<close> that compression or the application set.\<close>

lemma cors_replaces_vary:
  assumes "cors_origin_allowed hc origin (dr_cors_allowed_origins rules)"
  shows "hdr_get_all (apply_cors hc rules (Some origin) h) ''vary'' = [''origin'']"
  using assms by (simp add: apply_cors_def)

text \<open>With \<open>*\<close> and credentials every origin is reflected, with credentials allowed.\<close>

lemma wildcard_reflects_with_credentials:
  assumes "''*'' \<in> set (dr_cors_allowed_origins rules)" and "dr_cors_allow_credentials rules" and "hc_to_str hc origin = Some s"
  shows "hdr_get_all (apply_cors hc rules (Some origin) h) ACAO = [origin] \<and>
    hdr_get_all (apply_cors hc rules (Some origin) h) ''access-control-allow-credentials'' = [''true'']"
proof -
  have "cors_origin_allowed hc origin (dr_cors_allowed_origins rules)"
    using assms(1,3) by (auto simp: cors_origin_allowed_def list_ex_iff)
  then show ?thesis using assms(2) by (simp add: cors_headers)
qed

text \<open>An encoding that the client refuses with a quality of zero counts as accepted.\<close>

lemma refused_gzip_accepted: "accepts_gzip plain_http (Some ''gzip;q=0'')"
  by code_simp

section \<open>Properties\<close>


definition sample_sticky :: sticky_session_config where
  "sample_sticky = default_sticky_session\<lparr>st_enabled := True\<rparr>"




end
