(* ===== verification/Digest_Auth.thy ===== *)
theory Digest_Auth
  imports Http_Base Common_Types Rate_Limit Std_Num
begin

text \<open>
  Authentication of requests by the edge (\<open>edge/crates/http-proxy/src/lib.rs\<close>): the basic scheme
  and the digest scheme with its signed nonces and its store of used responses. SHA-256 and
  base64 are crates and are arguments: \<open>sha\<close> gives the 32 bytes of a digest.
\<close>

section \<open>Definitions\<close>

definition sha256_hex :: "(string \<Rightarrow> string) \<Rightarrow> string \<Rightarrow> string" where
  "sha256_hex sha v =
     concat (map (\<lambda>b. [digit_char (byte_of b div 16), digit_char (byte_of b mod 16)]) (sha v))"

definition constant_time_str_eq :: "string \<Rightarrow> string \<Rightarrow> bool" where
  "constant_time_str_eq l r =
     (length l = length r \<and>
      foldl (\<lambda>acc (a, b). acc OR (of_nat (byte_of a) XOR of_nat (byte_of b))) (0 :: u8) (zip l r) = 0)"

subsection \<open>Basic\<close>

definition basic_authorized ::
    "http_crate \<Rightarrow> (string \<Rightarrow> string option) \<Rightarrow> headers \<Rightarrow> basic_auth_config \<Rightarrow> bool" where
  "basic_authorized hc base64_decode h config =
     (case Option.bind (Option.bind (Option.bind (hdr_str hc h ''authorization'') (\<lambda>v. strip_prefix v ''Basic ''))
             (\<lambda>encoded. base64_decode (trim encoded)))
             (\<lambda>decoded. if utf8_valid decoded then split_once CHR '':'' decoded else None) of
        None \<Rightarrow> False
      | Some (user, pass) \<Rightarrow> (case fmlookup (ba_users config) user of Some expected \<Rightarrow> expected = pass | None \<Rightarrow> False))"

subsection \<open>Digest\<close>

definition DIGEST_NONCE_TTL_MS :: u64 where "DIGEST_NONCE_TTL_MS = 5 * 60 * 1000"
definition DIGEST_NONCE_CLOCK_SKEW_MS :: u64 where "DIGEST_NONCE_CLOCK_SKEW_MS = 30 * 1000"
definition DIGEST_REPLAY_EVICT_AT :: nat where "DIGEST_REPLAY_EVICT_AT = 100000"

definition from_millis :: "nat \<Rightarrow> nat" where "from_millis ms = ms * 1000000"

definition parse_digest_authorization :: "string \<Rightarrow> (string, string) hmap" where
  "parse_digest_authorization v =
     foldl (\<lambda>m part. case split_once CHR ''='' (trim part) of
         None \<Rightarrow> m
       | Some (key, x) \<Rightarrow> hm_insert (to_ascii_lowercase (trim key)) (trim_matches CHR 0x22 (trim x)) m)
       [] (split_on CHR '','' v)"

record digest_auth_check =
  dc_method :: string
  dc_realm :: string
  dc_users :: "(string, string) fmap"
  dc_params :: "(string, string) hmap"
  dc_actual_uri :: string
  dc_secret :: string

definition digest_nonce_signature :: "(string \<Rightarrow> string) \<Rightarrow> string \<Rightarrow> string \<Rightarrow> string \<Rightarrow> string" where
  "digest_nonce_signature sha secret realm timestamp_hex =
     sha256_hex sha (secret @ '':'' @ realm @ '':'' @ timestamp_hex)"

definition digest_nonce :: "(string \<Rightarrow> string) \<Rightarrow> string \<Rightarrow> string \<Rightarrow> u64 \<Rightarrow> string" where
  "digest_nonce sha secret realm timestamp_unix_ms =
     (let timestamp_hex = show_radix 16 (unat timestamp_unix_ms)
      in timestamp_hex @ ''.'' @ digest_nonce_signature sha secret realm timestamp_hex)"

definition digest_nonce_is_valid :: "(string \<Rightarrow> string) \<Rightarrow> string \<Rightarrow> string \<Rightarrow> string \<Rightarrow> u64 \<Rightarrow> bool" where
  "digest_nonce_is_valid sha secret realm nonce now_unix_ms =
     (case split_once CHR ''.'' nonce of
        None \<Rightarrow> False
      | Some (timestamp_hex, signature) \<Rightarrow>
          timestamp_hex \<noteq> [] \<and> signature \<noteq> [] \<and>
          (case from_str_radix 16 (2 ^ 64) timestamp_hex of
             None \<Rightarrow> False
           | Some n \<Rightarrow>
               (let timestamp_unix_ms = (of_nat n :: u64)
                in \<not> sat_add now_unix_ms DIGEST_NONCE_CLOCK_SKEW_MS < timestamp_unix_ms \<and>
                   \<not> DIGEST_NONCE_TTL_MS < sat_sub now_unix_ms timestamp_unix_ms \<and>
                   constant_time_str_eq (digest_nonce_signature sha secret realm timestamp_hex) signature)))"

definition is_ascii_hexdigit :: "char \<Rightarrow> bool" where
  "is_ascii_hexdigit c \<longleftrightarrow> to_digit 16 c \<noteq> None"

definition valid_digest_nc :: "string \<Rightarrow> bool" where
  "valid_digest_nc v \<longleftrightarrow> length v = 8 \<and> list_all is_ascii_hexdigit v"

definition prune_digest_replays :: "instant \<Rightarrow> (string, instant) hmap \<Rightarrow> (string, instant) hmap" where
  "prune_digest_replays now replays =
     (if length replays < DIGEST_REPLAY_EVICT_AT then replays
      else hm_retain (\<lambda>_ expires_at. now < expires_at) replays)"

text \<open>The parameters that a valid answer has, with the password of its user.\<close>

record digest_answer =
  an_username :: string
  an_password :: string
  an_nonce :: string
  an_uri :: string
  an_qop :: string
  an_nc :: string
  an_cnonce :: string
  an_response :: string

definition digest_fields :: "(string \<Rightarrow> string) \<Rightarrow> u64 \<Rightarrow> digest_auth_check \<Rightarrow> digest_answer option" where
  "digest_fields sha now_unix_ms check =
     (let param = hm_get (dc_params check) in
      Option.bind (param ''username'') (\<lambda>username.
      Option.bind (fmlookup (dc_users check) username) (\<lambda>password.
      if (case param ''realm'' of Some v \<Rightarrow> v \<noteq> dc_realm check | None \<Rightarrow> False) then None else
      Option.bind (param ''nonce'') (\<lambda>nonce.
      if \<not> digest_nonce_is_valid sha (dc_secret check) (dc_realm check) nonce now_unix_ms then None else
      Option.bind (param ''uri'') (\<lambda>u.
      if u \<noteq> dc_actual_uri check then None else
      if (case param ''algorithm'' of Some a \<Rightarrow> \<not> eq_ignore_ascii_case a ''SHA-256'' | None \<Rightarrow> False) then None else
      Option.bind (param ''qop'') (\<lambda>qop.
      if \<not> eq_ignore_ascii_case qop ''auth'' then None else
      Option.bind (param ''nc'') (\<lambda>nc.
      if \<not> valid_digest_nc nc then None else
      Option.bind (param ''cnonce'') (\<lambda>cnonce.
      if cnonce = [] then None else
      Option.bind (param ''response'') (\<lambda>response.
        Some \<lparr>an_username = username, an_password = password, an_nonce = nonce, an_uri = u, an_qop = qop, an_nc = nc,
              an_cnonce = cnonce, an_response = response\<rparr>)))))))))"

definition digest_response :: "(string \<Rightarrow> string) \<Rightarrow> digest_auth_check \<Rightarrow> digest_answer \<Rightarrow> string" where
  "digest_response sha check a =
     (let ha1 = sha256_hex sha (an_username a @ '':'' @ dc_realm check @ '':'' @ an_password a);
          ha2 = sha256_hex sha (dc_method check @ '':'' @ an_uri a)
      in sha256_hex sha (ha1 @ '':'' @ an_nonce a @ '':'' @ an_nc a @ '':'' @ an_cnonce a @ '':'' @ an_qop a @ '':'' @ ha2))"

definition replay_key :: "digest_answer \<Rightarrow> string" where
  "replay_key a = an_username a @ '':'' @ an_nonce a @ '':'' @ an_nc a @ '':'' @ an_cnonce a @ '':'' @ an_uri a"

definition digest_authorized ::
    "(string \<Rightarrow> string) \<Rightarrow> u64 \<Rightarrow> instant \<Rightarrow> digest_auth_check \<Rightarrow> (string, instant) hmap \<Rightarrow>
     bool \<times> (string, instant) hmap" where
  "digest_authorized sha now_unix_ms now check replays =
     (case digest_fields sha now_unix_ms check of
        None \<Rightarrow> (False, replays)
      | Some a \<Rightarrow>
          if \<not> constant_time_str_eq (digest_response sha check a) (an_response a) then (False, replays)
          else let replays = prune_digest_replays now replays
               in (hm_get replays (replay_key a) = None,
                   hm_insert (replay_key a) (now + from_millis (unat DIGEST_NONCE_TTL_MS)) replays))"

definition digest_request_uri :: "http_request \<Rightarrow> string \<Rightarrow> string" where
  "digest_request_uri req canonical =
     (case uri_query (rq_uri req) of
        Some q \<Rightarrow> if q \<noteq> [] then canonical @ ''?'' @ q else canonical
      | None \<Rightarrow> canonical)"

section \<open>Comparison in constant time\<close>

lemma constant_time_eq: "constant_time_str_eq l r \<longleftrightarrow> l = r"
  by (auto simp: constant_time_str_eq_def fold_differences)

section \<open>Nonces\<close>

lemma hex_no_dot: "CHR ''.'' \<notin> set (show_radix 16 n)"
proof
  assume "CHR ''.'' \<in> set (show_radix 16 n)"
  then obtain d where "d < 16" "CHR ''.'' = digit_char d" using show_radix_digits [of 16 n] by auto
  then have "byte_of CHR ''.'' = (if d < 10 then d + 48 else d + 87)" using byte_digit_char by simp
  then show False by (simp add: byte_of_def split: if_splits)
qed

lemma split_once_first: "c \<notin> set a \<Longrightarrow> split_once c (a @ c # b) = Some (a, b)"
  by (induction a) auto

lemma sha256_hex_Nil: "sha v \<noteq> [] \<Longrightarrow> sha256_hex sha v \<noteq> []"
  by (cases "sha v") (simp_all add: sha256_hex_def)

lemma show_hex_Nil: "show_radix 16 n \<noteq> []"
  by (subst show_radix.simps) simp

lemma nonce_valid_iff:
  assumes "\<And>v. sha v \<noteq> []"
  shows "digest_nonce_is_valid sha secret realm (digest_nonce sha secret realm ts) now \<longleftrightarrow>
    ts \<le> sat_add now DIGEST_NONCE_CLOCK_SKEW_MS \<and> sat_sub now ts \<le> DIGEST_NONCE_TTL_MS"
proof -
  let ?hex = "show_radix 16 (unat ts)"
  have "split_once CHR ''.'' (digest_nonce sha secret realm ts) = Some (?hex, digest_nonce_signature sha secret realm ?hex)"
    using split_once_first [OF hex_no_dot] by (simp add: digest_nonce_def Let_def)
  moreover have "from_str_radix 16 (2 ^ 64) ?hex = Some (unat ts)"
    using unat_bound [of ts] by (intro from_str_show) simp_all
  ultimately show ?thesis
    using assms by (simp add: digest_nonce_is_valid_def digest_nonce_signature_def sha256_hex_Nil show_hex_Nil constant_time_eq
        not_less Let_def)
qed

section \<open>Replays\<close>

text \<open>A used response is remembered until it expires.\<close>

lemma replay_kept:
  assumes "hm_wf replays" and "hm_get replays k = Some e" and "now < e"
    and "e \<le> now + from_millis (unat DIGEST_NONCE_TTL_MS)"
  shows "\<exists>e'\<ge>e. e' \<le> now + from_millis (unat DIGEST_NONCE_TTL_MS) \<and>
    hm_get (snd (digest_authorized sha ms now check replays)) k = Some e'"
proof -
  have "hm_get (prune_digest_replays now replays) k = Some e"
    using assms(1-3) by (simp add: prune_digest_replays_def hm.get_keep)
  then show ?thesis using assms(2,4)
    by (auto simp: digest_authorized_def Let_def split: option.splits)
qed

lemma replays_wf: "hm_wf replays \<Longrightarrow> hm_wf (snd (digest_authorized sha ms now check replays))"
  by (auto simp: digest_authorized_def prune_digest_replays_def Let_def split: option.splits)

text \<open>The key under which an accepted answer is remembered.\<close>

definition answer_key :: "digest_auth_check \<Rightarrow> string list" where
  "answer_key check = map (\<lambda>n. the (hm_get (dc_params check) n)) [''username'', ''nonce'', ''nc'', ''cnonce'', ''uri'']"

definition stored_key :: "string list \<Rightarrow> string" where
  "stored_key ps = join_with '':'' ps"

lemma digest_fields_params:
  assumes "digest_fields sha ms check = Some a"
  shows "hm_get (dc_params check) ''username'' = Some (an_username a)"
    "fmlookup (dc_users check) (an_username a) = Some (an_password a)"
    "hm_get (dc_params check) ''nonce'' = Some (an_nonce a)" "an_uri a = dc_actual_uri check"
    "hm_get (dc_params check) ''uri'' = Some (an_uri a)"
    "hm_get (dc_params check) ''nc'' = Some (an_nc a)" "hm_get (dc_params check) ''cnonce'' = Some (an_cnonce a)"
    "hm_get (dc_params check) ''response'' = Some (an_response a)"
    "digest_nonce_is_valid sha (dc_secret check) (dc_realm check) (an_nonce a) ms"
  using assms by (auto simp: digest_fields_def bind_eq_Some_conv Let_def split: if_splits)

lemma replay_key_answer:
  assumes "digest_fields sha ms check = Some a"
  shows "replay_key a = stored_key (answer_key check)"
  using digest_fields_params [OF assms] by (simp add: replay_key_def stored_key_def answer_key_def)

lemma accepted_remembered:
  assumes "fst (digest_authorized sha ms now check replays)"
  shows "hm_get (snd (digest_authorized sha ms now check replays)) (stored_key (answer_key check)) =
    Some (now + from_millis (unat DIGEST_NONCE_TTL_MS))"
  using assms
  by (auto simp: digest_authorized_def Let_def replay_key_answer split: option.splits if_splits)

lemma remembered_rejected:
  assumes "hm_wf replays" and "hm_get replays (stored_key (answer_key check)) = Some e" and "now < e"
  shows "\<not> fst (digest_authorized sha ms now check replays)"
proof -
  have "hm_get (prune_digest_replays now replays) (stored_key (answer_key check)) = Some e"
    using assms by (simp add: prune_digest_replays_def hm.get_keep)
  then show ?thesis
    by (auto simp: digest_authorized_def Let_def replay_key_answer split: option.splits)
qed

fun digest_run ::
    "(string \<Rightarrow> string) \<Rightarrow> (u64 \<times> instant \<times> digest_auth_check) list \<Rightarrow> (string, instant) hmap \<Rightarrow> (string, instant) hmap" where
  "digest_run sha [] replays = replays"
| "digest_run sha ((ms, now, check) # cs) replays = digest_run sha cs (snd (digest_authorized sha ms now check replays))"

lemma run_remembers:
  assumes "hm_wf replays" and "hm_get replays k = Some e" and "sorted (map (fst \<circ> snd) cs)"
    and "\<forall>c\<in>set cs. t \<le> fst (snd c) \<and> fst (snd c) < e" and "e \<le> t + from_millis (unat DIGEST_NONCE_TTL_MS)"
  shows "hm_wf (digest_run sha cs replays) \<and> (\<exists>e'\<ge>e. hm_get (digest_run sha cs replays) k = Some e')"
  using assms
proof (induction cs arbitrary: replays e t)
  case (Cons c cs)
  obtain ms now check where c: "c = (ms, now, check)" by (cases c) auto
  let ?r = "snd (digest_authorized sha ms now check replays)"
  have now: "t \<le> now" "now < e" using Cons.prems(4) c by auto
  have wf: "hm_wf ?r" using Cons.prems(1) by (rule replays_wf)
  obtain e' where e': "e \<le> e'" "e' \<le> now + from_millis (unat DIGEST_NONCE_TTL_MS)" "hm_get ?r k = Some e'"
    using replay_kept [OF Cons.prems(1,2) now(2)] now(1) Cons.prems(5) by (meson add_le_mono order_refl order_trans)
  have "sorted (map (fst \<circ> snd) cs)" "\<forall>c\<in>set cs. now \<le> fst (snd c) \<and> fst (snd c) < e'"
    using Cons.prems(3,4) c e'(1) by (auto simp: comp_def intro: less_le_trans)
  from Cons.IH [OF wf e'(3) this e'(2)] obtain x where
    "hm_wf (digest_run sha cs ?r)" "e' \<le> x" "hm_get (digest_run sha cs ?r) k = Some x" by blast
  then show ?case using e'(1) c by auto
qed auto

section \<open>Properties\<close>

text \<open>C8. A digest answer is accepted once: after an answer was accepted, whatever other requests are
  checked in between, the same answer (the same user, nonce, counter, client nonce and URI) is
  refused until the five minutes in which it is remembered have passed, which is as long as a
  nonce issued by then stays valid.\<close>

theorem digest_answer_not_replayed:
  assumes "hm_wf replays" and "fst (digest_authorized sha ms t check replays)"
    and "sorted (map (fst \<circ> snd) cs)"
    and "\<forall>c\<in>set cs. t \<le> fst (snd c) \<and> fst (snd c) < t + from_millis (unat DIGEST_NONCE_TTL_MS)"
    and "answer_key check' = answer_key check" and "now < t + from_millis (unat DIGEST_NONCE_TTL_MS)"
  shows "\<not> fst (digest_authorized sha ms' now check'
    (digest_run sha cs (snd (digest_authorized sha ms t check replays))))"
proof -
  let ?r = "snd (digest_authorized sha ms t check replays)"
  have "hm_wf ?r" using assms(1) by (rule replays_wf)
  from run_remembers [OF this accepted_remembered [OF assms(2)] assms(3,4) order_refl]
  obtain e where "hm_wf (digest_run sha cs ?r)" "t + from_millis (unat DIGEST_NONCE_TTL_MS) \<le> e"
    "hm_get (digest_run sha cs ?r) (stored_key (answer_key check)) = Some e" by blast
  then show ?thesis using remembered_rejected [of "digest_run sha cs ?r" check' e now] assms(5,6) by auto
qed


text \<open>A toy digest, for concrete requests: 32 bytes that depend on the length of the text.\<close>

definition toy_sha :: "string \<Rightarrow> string" where
  "toy_sha v = replicate 32 (char_of (length v mod 256))"

definition toy_answer :: digest_answer where
  "toy_answer = \<lparr>an_username = ''ann'', an_password = ''pw'', an_nonce = digest_nonce toy_sha ''s'' ''r'' 1000, an_uri = ''/'',
     an_qop = ''auth'', an_nc = ''00000001'', an_cnonce = ''x'', an_response = []\<rparr>"

definition toy_check :: digest_auth_check where
  "toy_check =
     (let check = \<lparr>dc_method = ''GET'', dc_realm = ''r'', dc_users = fmupd ''ann'' ''pw'' fmempty, dc_params = [],
                    dc_actual_uri = ''/'', dc_secret = ''s''\<rparr>
      in check\<lparr>dc_params := [(''username'', ''ann''), (''nonce'', an_nonce toy_answer), (''uri'', ''/''), (''qop'', ''auth''),
           (''nc'', ''00000001''), (''cnonce'', ''x''), (''response'', digest_response toy_sha check toy_answer)]\<rparr>)"

lemma toy_fields:
  "digest_fields toy_sha 2000 toy_check = Some (toy_answer\<lparr>an_response := digest_response toy_sha toy_check toy_answer\<rparr>)"
proof -
  have "digest_nonce_is_valid toy_sha ''s'' ''r'' (digest_nonce toy_sha ''s'' ''r'' 1000) 2000"
    by (subst nonce_valid_iff) (simp_all add: toy_sha_def sat_add_def sat_sub_def DIGEST_NONCE_CLOCK_SKEW_MS_def DIGEST_NONCE_TTL_MS_def)
  moreover have "valid_digest_nc ''00000001''" by code_simp
  ultimately show ?thesis by (simp add: digest_fields_def toy_check_def toy_answer_def digest_response_def Let_def)
qed

lemma toy_accepted: "fst (digest_authorized toy_sha 2000 5 toy_check [])"
  by (simp add: digest_authorized_def toy_fields constant_time_eq digest_response_def prune_digest_replays_def
      DIGEST_REPLAY_EVICT_AT_def)

theorem digest_answer_not_replayed_witness:
  "\<not> fst (digest_authorized toy_sha 2500 7 toy_check (snd (digest_authorized toy_sha 2000 5 toy_check [])))"
  using digest_answer_not_replayed [OF _ toy_accepted, of "[]" toy_check 7 2500]
  by (simp add: hm_wf_def from_millis_def DIGEST_NONCE_TTL_MS_def)


end
