(* ===== verification/Error_Pages.thy ===== *)
theory Error_Pages
  imports Http_Base Std_Num F64
begin

text \<open>
  The answers the proxy writes itself (\<open>edge/crates/http-proxy/src/lib.rs\<close>): the reasons an
  upstream can be missing for, the error-page renderer with the templates it loads from a directory,
  the bandwidth page, the runtime diagnostics that refine a reason, and the ACME challenge files.
  The built-in template (\<open>config/error-pages/default.html\<close>) is the argument \<open>template\<close>; the
  \<open>url\<close>, \<open>http\<close> and \<open>serde_json\<close> crates are arguments too.
\<close>

section \<open>Definitions\<close>

subsection \<open>The standard library's replacing and formatting\<close>

text \<open>\<open>str::replace\<close> with a non-empty pattern: matches from the left that do not overlap.\<close>

function str_replace :: "string \<Rightarrow> string \<Rightarrow> string \<Rightarrow> string" where
  "str_replace pat by_str [] = []"
| "str_replace pat by_str (c # s) =
     (if pat \<noteq> [] \<and> prefix pat (c # s) then by_str @ str_replace pat by_str (drop (length pat - 1) s)
      else c # str_replace pat by_str s)"
  by pat_completeness auto
termination by (relation "measure (\<lambda>(_, _, s). length s)") auto

text \<open>\<open>{:02}\<close> and \<open>{:.d}\<close>: the exact value of the number, rounded half to even.\<close>

definition show_padded :: "nat \<Rightarrow> nat \<Rightarrow> string" where
  "show_padded w n = replicate (w - length (show_nat n)) CHR ''0'' @ show_nat n"

definition show_fixed :: "nat \<Rightarrow> f64 \<Rightarrow> string" where
  "show_fixed d x = (let n = nat (half_even (x * 10 ^ d)) in
     show_nat (n div 10 ^ d) @ ''.'' @ show_padded d (n mod 10 ^ d))"

text \<open>\<open>PathBuf::join\<close>.\<close>

definition path_join :: "string \<Rightarrow> string \<Rightarrow> string" where
  "path_join dir p = (if starts_with p ''/'' then p
     else if dir = [] \<or> ends_with dir ''/'' then dir @ p else dir @ ''/'' @ p)"

subsection \<open>Reasons\<close>

datatype proxy_error_reason =
    RouteNotRegistered | RouteHasNoUpstreams | AllUpstreamsUnhealthy | CircuitBreakerOpen
  | UpstreamDnsResolutionFailed | UpstreamConnectionRefused | UpstreamConnectionTimeout
  | UpstreamPortIncorrect | UpstreamPortNotListening | UpstreamConfigurationInvalid
  | UpstreamConnectionFailed | ProxyInternal

fun reason_code :: "proxy_error_reason \<Rightarrow> string" where
  "reason_code RouteNotRegistered = ''route_not_registered''"
| "reason_code RouteHasNoUpstreams = ''route_has_no_upstreams''"
| "reason_code AllUpstreamsUnhealthy = ''all_upstreams_unhealthy''"
| "reason_code CircuitBreakerOpen = ''circuit_breaker_open''"
| "reason_code UpstreamDnsResolutionFailed = ''upstream_dns_resolution_failed''"
| "reason_code UpstreamConnectionRefused = ''upstream_connection_refused''"
| "reason_code UpstreamConnectionTimeout = ''upstream_connection_timeout''"
| "reason_code UpstreamPortIncorrect = ''upstream_port_incorrect''"
| "reason_code UpstreamPortNotListening = ''upstream_port_not_listening''"
| "reason_code UpstreamConfigurationInvalid = ''upstream_configuration_invalid''"
| "reason_code UpstreamConnectionFailed = ''upstream_connection_failed''"
| "reason_code ProxyInternal = ''proxy_internal_error''"

fun public_message :: "proxy_error_reason \<Rightarrow> string" where
  "public_message RouteNotRegistered =
     ''No route is registered for this domain yet. The deployment may still be connecting to the proxy.''"
| "public_message RouteHasNoUpstreams =
     ''This domain is registered, but it does not have a runtime container target yet.''"
| "public_message AllUpstreamsUnhealthy =
     ''The deployment and route exist, but no registered runtime replica is currently healthy. '' @
     ''Pxxl will resume traffic when a healthy replica is available.''"
| "public_message CircuitBreakerOpen =
     ''The app route exists, but recent upstream failures temporarily opened the protection circuit.''"
| "public_message UpstreamDnsResolutionFailed =
     ''The route exists, but its runtime service name could not be resolved. '' @
     ''Pxxl is retrying service discovery.''"
| "public_message UpstreamConnectionRefused =
     ''The route exists, but the runtime refused the connection. '' @
     ''The app may still be starting or may only be bound to localhost.''"
| "public_message UpstreamConnectionTimeout =
     ''The route exists, but the runtime did not accept a connection before the timeout. '' @
     ''The app or runtime network may be unavailable.''"
| "public_message UpstreamPortIncorrect =
     ''The deployment exists, but its registered runtime port does not match the route. '' @
     ''Configure the app to listen on the PORT value supplied by Pxxl and bind to 0.0.0.0.''"
| "public_message UpstreamPortNotListening =
     ''The deployment exists, but nothing is listening on its registered runtime port. '' @
     ''Make sure the app uses the PORT value supplied by Pxxl and binds to 0.0.0.0.''"
| "public_message UpstreamConfigurationInvalid =
     ''The route exists, but its runtime target is invalid. '' @
     ''Review the deployment port and protocol, then redeploy the service.''"
| "public_message UpstreamConnectionFailed =
     ''The route exists, but Pxxl could not establish a connection to the runtime. '' @
     ''The runtime may be restarting or temporarily unreachable.''"
| "public_message ProxyInternal =
     ''The proxy hit an internal routing error while serving this request.''"

definition DIAGNOSTIC_CODES :: "(string list \<times> proxy_error_reason) list" where
  "DIAGNOSTIC_CODES =
     [([''route_not_registered'', ''route_missing'', ''global_route_missing'',
        ''domain_mapping_missing''], RouteNotRegistered),
      ([''route_has_no_upstreams'', ''deployment_mapping_issue'', ''container_missing'',
        ''allocated_port_missing'', ''published_port_missing''], RouteHasNoUpstreams),
      ([''all_upstreams_unhealthy'', ''service_unhealthy'', ''deployment_unhealthy'',
        ''app_crashed''], AllUpstreamsUnhealthy),
      ([''circuit_breaker_open''], CircuitBreakerOpen),
      ([''upstream_dns_resolution_failed'', ''dns_resolution_failed'', ''dns_error''],
        UpstreamDnsResolutionFailed),
      ([''upstream_connection_refused'', ''connection_refused''], UpstreamConnectionRefused),
      ([''upstream_connection_timeout'', ''connection_timeout'', ''upstream_timeout''],
        UpstreamConnectionTimeout),
      ([''upstream_port_incorrect'', ''incorrect_port'', ''wrong_port'', ''port_mismatch'',
        ''allocated_port_wrong''], UpstreamPortIncorrect),
      ([''upstream_port_not_listening'', ''no_listener''], UpstreamPortNotListening),
      ([''upstream_configuration_invalid'', ''stale_route_target''], UpstreamConfigurationInvalid),
      ([''upstream_connection_failed'', ''upstream_tcp_unreachable''], UpstreamConnectionFailed)]"

definition runtime_diagnostic_reason :: "string option \<Rightarrow> proxy_error_reason option" where
  "runtime_diagnostic_reason v = Option.bind v (\<lambda>v.
     map_option snd (find (\<lambda>(names, _). to_ascii_lowercase (trim v) \<in> set names) DIAGNOSTIC_CODES))"

subsection \<open>Responses\<close>

definition response_with_body :: "u16 \<Rightarrow> string \<Rightarrow> string \<Rightarrow> http_response" where
  "response_with_body status content_type body =
     \<lparr>rs_status = status,
      rs_headers = [(''content-type'', content_type), (''cache-control'', ''no-store''),
                    (''x-content-type-options'', ''nosniff'')],
      rs_body = body\<rparr>"

definition html_response :: "u16 \<Rightarrow> string \<Rightarrow> http_response" where
  "html_response status body = response_with_body status ''text/html; charset=utf-8'' body"

definition text_response :: "u16 \<Rightarrow> string \<Rightarrow> http_response" where
  "text_response status message = response_with_body status ''text/plain; charset=utf-8'' message"

definition PXXL_ERROR_CODE_HEADER :: string where
  "PXXL_ERROR_CODE_HEADER = ''x-pxxl-error-code''"

definition attach_error_code_header :: "http_crate \<Rightarrow> string \<Rightarrow> headers \<Rightarrow> headers" where
  "attach_error_code_header hc code h = hdr_insert_str hc PXXL_ERROR_CODE_HEADER code h"

subsection \<open>Templates\<close>

definition escape_char :: "char \<Rightarrow> string" where
  "escape_char c =
     (if c = CHR ''&'' then ''&amp;'' else if c = CHR ''<'' then ''&lt;''
      else if c = CHR ''>'' then ''&gt;'' else if c = CHR 0x22 then ''&quot;''
      else if c = CHR 0x27 then ''&#39;'' else [c])"

definition escape_html :: "string \<Rightarrow> string" where
  "escape_html s = concat (map escape_char s)"

record error_render_context =
  ec_status :: u16
  ec_message :: string
  ec_reason_code :: string
  ec_domain :: string
  ec_path :: string
  ec_request_id :: string
  ec_processing_time_ms :: nat

definition template_values :: "http_crate \<Rightarrow> error_render_context \<Rightarrow> (string \<times> string) list" where
  "template_values hc c =
     [(''{{status_code}}'', show_nat (unat (ec_status c))),
      (''{{status_text}}'',
         case hc_canonical_reason hc (ec_status c) of Some t \<Rightarrow> t | None \<Rightarrow> ''Proxy Error''),
      (''{{message}}'', ec_message c),
      (''{{reason_code}}'', ec_reason_code c),
      (''{{domain}}'', if ec_domain c = [] then ''unknown'' else ec_domain c),
      (''{{path}}'', if ec_path c = [] then ''/'' else ec_path c),
      (''{{request_id}}'', ec_request_id c),
      (''{{processing_time_ms}}'', show_nat (ec_processing_time_ms c))]"

definition render_error_template :: "http_crate \<Rightarrow> string \<Rightarrow> error_render_context \<Rightarrow> string" where
  "render_error_template hc template c =
     fold (\<lambda>(pat, v) page. str_replace pat (escape_html v) page) (template_values hc c) template"

definition default_error_html :: "http_crate \<Rightarrow> string \<Rightarrow> error_render_context \<Rightarrow> string" where
  "default_error_html hc template c = render_error_template hc template c"

subsection \<open>The renderer\<close>

record error_page_renderer =
  ep_enabled :: bool
  ep_pages :: "(u16, string) hmap"
  ep_default_page :: "string option"

definition default_renderer :: error_page_renderer where
  "default_renderer = \<lparr>ep_enabled = True, ep_pages = [], ep_default_page = None\<rparr>"

definition disabled_renderer :: error_page_renderer where
  "disabled_renderer = \<lparr>ep_enabled = False, ep_pages = [], ep_default_page = None\<rparr>"

text \<open>
  What \<open>load_from_dir\<close> sees of the file system. An entry that cannot be listed is
  \<open>None\<close>; a file has its stem and extension when those are valid strings, and a content when it
  can be read.
\<close>

record dir_entry =
  de_is_file :: bool
  de_stem :: "string option"
  de_extension :: "string option"
  de_content :: "string option"

datatype dir_state = Missing | NotADirectory | Unreadable | Entries "dir_entry option list"

definition is_html_template :: "dir_entry \<Rightarrow> bool" where
  "is_html_template e \<longleftrightarrow> (case de_extension e of None \<Rightarrow> False
     | Some x \<Rightarrow> eq_ignore_ascii_case x ''html'' \<or> eq_ignore_ascii_case x ''htm'')"

definition add_template :: "http_crate \<Rightarrow> string \<Rightarrow> string \<Rightarrow> error_page_renderer \<Rightarrow> error_page_renderer" where
  "add_template hc stem body r =
     (if eq_ignore_ascii_case stem ''default'' then r\<lparr>ep_default_page := Some body\<rparr>
      else case parse_u16 stem of
             Some code \<Rightarrow> if hc_status_ok hc code then r\<lparr>ep_pages := hm_insert code body (ep_pages r)\<rparr> else r
           | None \<Rightarrow> r)"

fun load_template_entries :: "http_crate \<Rightarrow> dir_entry option list \<Rightarrow> error_page_renderer \<Rightarrow> string + error_page_renderer" where
  "load_template_entries hc [] r = Inr r"
| "load_template_entries hc (None # _) r = Inl ''reading error page entry''"
| "load_template_entries hc (Some e # es) r =
     (if \<not> de_is_file e \<or> \<not> is_html_template e then load_template_entries hc es r
      else case de_content e of
             None \<Rightarrow> Inl ''reading error page template''
           | Some body \<Rightarrow> load_template_entries hc es
               (case de_stem e of None \<Rightarrow> r | Some stem \<Rightarrow> add_template hc stem body r))"

definition load_from_dir :: "http_crate \<Rightarrow> bool \<Rightarrow> dir_state \<Rightarrow> string + error_page_renderer" where
  "load_from_dir hc enabled d =
     (if \<not> enabled then Inr disabled_renderer
      else case d of Missing \<Rightarrow> Inr default_renderer
         | NotADirectory \<Rightarrow> Inl ''error page path is not a directory''
         | Unreadable \<Rightarrow> Inl ''reading error page directory''
         | Entries es \<Rightarrow> load_template_entries hc es default_renderer)"

definition custom_page :: "error_page_renderer \<Rightarrow> u16 \<Rightarrow> string option" where
  "custom_page r status = (case hm_get (ep_pages r) status of Some t \<Rightarrow> Some t | None \<Rightarrow> ep_default_page r)"

definition error_page :: "http_crate \<Rightarrow> string \<Rightarrow> error_page_renderer \<Rightarrow> error_render_context \<Rightarrow> string" where
  "error_page hc template r c =
     (case custom_page r (ec_status c) of
        Some t \<Rightarrow> render_error_template hc t c
      | None \<Rightarrow> default_error_html hc template c)"

definition error_page_response :: "http_crate \<Rightarrow> string \<Rightarrow> error_page_renderer \<Rightarrow> error_render_context \<Rightarrow> http_response" where
  "error_page_response hc template r c =
     (if \<not> ep_enabled r then text_response (ec_status c) (ec_message c)
      else html_response (ec_status c) (error_page hc template r (c\<lparr>ec_reason_code := ''proxy_error''\<rparr>)))"

definition response_with_reason_code :: "http_crate \<Rightarrow> string \<Rightarrow> error_page_renderer \<Rightarrow> error_render_context \<Rightarrow> http_response" where
  "response_with_reason_code hc template r c =
     (let response = (if \<not> ep_enabled r then text_response (ec_status c) (ec_message c)
                      else html_response (ec_status c) (error_page hc template r c))
      in response\<lparr>rs_headers := attach_error_code_header hc (ec_reason_code c) (rs_headers response)\<rparr>)"

subsection \<open>The bandwidth page\<close>

record bandwidth_exceeded_context =
  bx_status :: u16
  bx_domain :: string
  bx_path :: string
  bx_request_id :: string
  bx_processing_time_ms :: nat
  bx_bytes_used :: u64
  bx_bytes_limit :: u64
  bx_reset_day :: u8

definition format_bytes :: "u64 \<Rightarrow> string" where
  "format_bytes bytes = (let show_unit = (\<lambda>u. show_fixed 2 (f64_div (f64_of_nat (unat bytes)) (f64_of_nat u))) in
     if 2 ^ 40 \<le> unat bytes then show_unit (2 ^ 40) @ '' TB''
     else if 2 ^ 30 \<le> unat bytes then show_unit (2 ^ 30) @ '' GB''
     else if 2 ^ 20 \<le> unat bytes then show_unit (2 ^ 20) @ '' MB''
     else if 2 ^ 10 \<le> unat bytes then show_unit (2 ^ 10) @ '' KB''
     else show_nat (unat bytes) @ '' B'')"

definition bandwidth_reset_date :: "nat \<Rightarrow> u8 \<Rightarrow> string" where
  "bandwidth_reset_date now_secs reset_day =
     (let days = (now_secs + 30 * 24 * 3600) div 86400 in
      show_nat (1970 + days div 365) @ ''-'' @ show_padded 2 ((days mod 365) div 30 + 1) @ ''-'' @
      show_padded 2 (unat (min reset_day 28)))"

definition percentage_used :: "u64 \<Rightarrow> u64 \<Rightarrow> f64" where
  "percentage_used used limit =
     (if 0 < limit then min (f64_mul (f64_div (f64_of_nat (unat used)) (f64_of_nat (unat limit))) 100) 100
      else 100)"

definition bandwidth_values :: "http_crate \<Rightarrow> nat \<Rightarrow> bandwidth_exceeded_context \<Rightarrow> (string \<times> string) list" where
  "bandwidth_values hc now_secs c =
     [(''{{domain}}'', bx_domain c),
      (''{{bytes_used}}'', format_bytes (bx_bytes_used c)),
      (''{{bytes_limit}}'', format_bytes (bx_bytes_limit c)),
      (''{{percentage_used}}'', show_fixed 1 (percentage_used (bx_bytes_used c) (bx_bytes_limit c))),
      (''{{reset_date}}'', bandwidth_reset_date now_secs (bx_reset_day c)),
      (''{{request_id}}'', bx_request_id c),
      (''{{processing_time_ms}}'', show_nat (bx_processing_time_ms c)),
      (''{{status_code}}'', show_nat (unat (bx_status c))),
      (''{{status_text}}'',
         case hc_canonical_reason hc (bx_status c) of Some t \<Rightarrow> t | None \<Rightarrow> ''Bandwidth Limit Exceeded''),
      (''{{message}}'', ''Bandwidth limit exceeded''),
      (''{{reason_code}}'', ''bandwidth_limit_exceeded''),
      (''{{path}}'', bx_path c)]"

definition builtin_bandwidth_page :: "nat \<Rightarrow> bandwidth_exceeded_context \<Rightarrow> string" where
  "builtin_bandwidth_page now_secs c =
     ''<!DOCTYPE html><html><head><title>509 Bandwidth Limit Exceeded</title></head>'' @ [CHR 0x0A] @
     ''<body><h1>509 Bandwidth Limit Exceeded</h1>'' @ [CHR 0x0A] @
     ''<p>Domain <strong>'' @ bx_domain c @ ''</strong> has exceeded its bandwidth limit.</p>'' @ [CHR 0x0A] @
     ''<p>Used: '' @ format_bytes (bx_bytes_used c) @ '' / Limit: '' @ format_bytes (bx_bytes_limit c) @
     '' ('' @ show_fixed 1 (percentage_used (bx_bytes_used c) (bx_bytes_limit c)) @ ''%)</p>'' @ [CHR 0x0A] @
     ''<p>Resets: '' @ bandwidth_reset_date now_secs (bx_reset_day c) @ ''</p>'' @ [CHR 0x0A] @
     ''<p>Request ID: '' @ bx_request_id c @ ''</p>'' @ [CHR 0x0A] @
     ''<p>Processing time: '' @ show_nat (bx_processing_time_ms c) @ '' ms</p>'' @ [CHR 0x0A] @
     ''</body></html>''"

definition bandwidth_exceeded_response ::
    "http_crate \<Rightarrow> error_page_renderer \<Rightarrow> nat \<Rightarrow> bandwidth_exceeded_context \<Rightarrow> http_response" where
  "bandwidth_exceeded_response hc r now_secs c =
     html_response (bx_status c)
       (case custom_page r (bx_status c) of
          Some t \<Rightarrow> fold (\<lambda>(pat, v) page. str_replace pat v page) (bandwidth_values hc now_secs c) t
        | None \<Rightarrow> builtin_bandwidth_page now_secs c)"

subsection \<open>ACME challenges\<close>

definition ACME_CHALLENGE_PREFIX :: string where
  "ACME_CHALLENGE_PREFIX = ''/.well-known/acme-challenge/''"

definition acme_token_invalid :: "string \<Rightarrow> bool" where
  "acme_token_invalid token \<longleftrightarrow> token = [] \<or> CHR ''/'' \<in> set token \<or> CHR 0x5C \<in> set token \<or>
     token = ''.'' \<or> token = ''..'' \<or> starts_with token ''.''"

definition serve_acme_http01_challenge ::
    "(string \<Rightarrow> string option) \<Rightarrow> (string \<Rightarrow> string option) \<Rightarrow> string \<Rightarrow> http_response option" where
  "serve_acme_http01_challenge env read_file path =
     map_option (\<lambda>token.
       if acme_token_invalid token then text_response 400 ''invalid acme challenge token''
       else let dir = (case env ''PXXL_ACME_CHALLENGE_DIR'' of Some d \<Rightarrow> d | None \<Rightarrow> ''/data/acme-challenges'');
                certbot_path = path_join (path_join (path_join dir ''.well-known'') ''acme-challenge'') token
            in case (case read_file certbot_path of Some v \<Rightarrow> Some v | None \<Rightarrow> read_file (path_join dir token)) of
                 Some v \<Rightarrow> response_with_body 200 ''text/plain; charset=utf-8'' v
               | None \<Rightarrow> text_response 404 ''acme challenge not found'')
       (strip_prefix path ACME_CHALLENGE_PREFIX)"

subsection \<open>Runtime diagnostics\<close>

record runtime_diagnostics_config =
  dg_endpoint :: "string option"
  dg_token :: "string option"
  dg_timeout :: nat

text \<open>\<open>value.trim().trim_end_matches('/')\<close>, kept when it is not empty.\<close>

definition trimmed_base :: "string \<Rightarrow> string option" where
  "trimmed_base v = (let t = trim_end_matches (CHR ''/'') (trim v) in if t = [] then None else Some t)"

definition first_env :: "(string \<Rightarrow> string option) \<Rightarrow> string list \<Rightarrow> string option" where
  "first_env env keys = Option.bind (find_map env keys) trimmed_base"

definition diagnostics_from_env :: "(string \<Rightarrow> string option) \<Rightarrow> runtime_diagnostics_config" where
  "diagnostics_from_env env =
     \<lparr>dg_endpoint =
        (case Option.bind (find_map env [''PXXL_RUNTIME_DIAGNOSTICS_URL'', ''PXXL_GATEWAY_RUNTIME_DIAGNOSTICS_URL''])
                trimmed_base of
           Some e \<Rightarrow> Some e
         | None \<Rightarrow> map_option
             (\<lambda>base. trim_end_matches (CHR ''/'') (trim base) @ ''/api/v3/internal/proxy-diagnostics'')
             (first_env env [''PXXL_GATEWAY_API_URL'', ''GATEWAY_API_URL'', ''PXXL_API_URL''])),
      dg_token = first_env env [''PXXL_PROXY_DIAGNOSTICS_TOKEN'', ''PXXL_GATEWAY_INTERNAL_TOKEN'', ''INFRA_TOKEN''],
      dg_timeout = 1000000 * (max 100 (min 5000
        (case Option.bind (env ''PXXL_RUNTIME_DIAGNOSTICS_TIMEOUT_MS'') (\<lambda>v. parse_u64 (trim v)) of
           Some n \<Rightarrow> unat n | None \<Rightarrow> 800)))\<rparr>"

definition diagnostics_enabled :: "runtime_diagnostics_config \<Rightarrow> bool" where
  "diagnostics_enabled c \<longleftrightarrow> dg_endpoint c \<noteq> None \<and> dg_token c \<noteq> None"

section \<open>Replacing and escaping\<close>

definition is_markup :: "char \<Rightarrow> bool" where
  "is_markup c \<longleftrightarrow> c \<in> {CHR ''<'', CHR ''>'', CHR 0x22, CHR 0x27}"

lemma escape_char_plain: "filter is_markup (escape_char c) = []"
  by (simp add: escape_char_def is_markup_def)

lemma escape_html_plain [simp]: "filter is_markup (escape_html s) = []"
  by (induction s) (simp_all add: escape_html_def escape_char_plain)

lemma str_replace_markup:
  assumes "filter is_markup pat = []" "filter is_markup by_str = []"
  shows "filter is_markup (str_replace pat by_str s) = filter is_markup s"
  using assms
proof (induction pat by_str s rule: str_replace.induct)
  case (2 pat by_str c s)
  show ?case
  proof (cases "pat \<noteq> [] \<and> prefix pat (c # s)")
    case True
    then obtain rest where rest: "c # s = pat @ rest" by (auto simp: prefix_def)
    with True have "drop (length pat - 1) s = rest"
      by (cases pat) auto
    with True have "str_replace pat by_str (c # s) = by_str @ str_replace pat by_str rest" by simp
    moreover have "filter is_markup (c # s) = filter is_markup rest"
      using 2(3) unfolding rest by simp
    ultimately show ?thesis
      using 2(1) True \<open>drop (length pat - 1) s = rest\<close> 2(3,4) by simp
  qed (use 2 in auto)
qed simp

lemma fold_replace_markup:
  assumes "\<And>pat v. (pat, v) \<in> set vs \<Longrightarrow> filter is_markup pat = []"
  shows "filter is_markup (fold (\<lambda>(pat, v) page. str_replace pat (escape_html v) page) vs t) = filter is_markup t"
  using assms
proof (induction vs arbitrary: t)
  case (Cons pv vs)
  obtain pat v where pv: "pv = (pat, v)" by (cases pv)
  have "filter is_markup pat = []" using Cons.prems [of pat v] pv by simp
  moreover have "filter is_markup (fold (\<lambda>(pat, v) page. str_replace pat (escape_html v) page) vs t') =
      filter is_markup t'" for t'
    using Cons.prems by (intro Cons.IH) (meson list.set_intros(2))
  ultimately show ?case using pv by (simp add: str_replace_markup)
qed simp

lemma template_patterns_plain: "(pat, v) \<in> set (template_values hc c) \<Longrightarrow> filter is_markup pat = []"
  unfolding template_values_def by (auto simp: is_markup_def)

lemma render_markup [simp]: "filter is_markup (render_error_template hc t c) = filter is_markup t"
  unfolding render_error_template_def by (rule fold_replace_markup) (rule template_patterns_plain)

text \<open>Reading the entities back.\<close>

definition ENTITIES :: "(string \<times> char) list" where
  "ENTITIES = [(''&amp;'', CHR ''&''), (''&lt;'', CHR ''<''), (''&gt;'', CHR ''>''),
     (''&quot;'', CHR 0x22), (''&#39;'', CHR 0x27)]"

function unescape_html :: "string \<Rightarrow> string" where
  "unescape_html [] = []"
| "unescape_html (x # s) = (case find (\<lambda>(e, _). prefix e (x # s)) ENTITIES of
     Some (e, c) \<Rightarrow> c # unescape_html (drop (length e - 1) s)
   | None \<Rightarrow> x # unescape_html s)"
  by pat_completeness auto
termination by (relation "measure length") auto

lemma unescape_escape_char: "unescape_html (escape_char c @ s) = c # unescape_html s"
  by (auto simp: escape_char_def ENTITIES_def)

lemma unescape_escape: "unescape_html (escape_html s) = s"
  by (induction s) (simp_all add: escape_html_def unescape_escape_char)

section \<open>Pages\<close>

text \<open>Every reason the gateway may name by its own code is understood.\<close>

lemma diagnostic_reason_of_code:
  "runtime_diagnostic_reason (Some (reason_code r)) = (if r = ProxyInternal then None else Some r)"
  by (cases r) (simp_all add: runtime_diagnostic_reason_def DIAGNOSTIC_CODES_def trim_def trim_start_graphic trim_end_graphic graphic_def
      byte_of_def to_ascii_lowercase_def ascii_lower_def is_ascii_upper_def)

lemma error_page_markup:
  "filter is_markup (error_page hc template r c) =
   filter is_markup (case custom_page r (ec_status c) of Some t \<Rightarrow> t | None \<Rightarrow> template)"
  by (simp add: error_page_def default_error_html_def split: option.split)


text \<open>The bandwidth page writes the path and the host as they are.\<close>

definition script_path :: bandwidth_exceeded_context where
  "script_path = \<lparr>bx_status = 509, bx_domain = ''a.test'', bx_path = ''/<script>'', bx_request_id = ''r'',
     bx_processing_time_ms = 1, bx_bytes_used = 1, bx_bytes_limit = 1, bx_reset_day = 1\<rparr>"

lemma bandwidth_page_injects:
  "rs_body (bandwidth_exceeded_response plain_http
     (default_renderer\<lparr>ep_default_page := Some ''{{path}}''\<rparr>) 0 script_path) = ''/<script>''"
  by (simp add: bandwidth_exceeded_response_def default_renderer_def custom_page_def html_response_def
      response_with_body_def bandwidth_values_def script_path_def)

section \<open>ACME challenges\<close>

text \<open>
  A challenge is read from two files of the challenge directory only: two file systems that agree on
  the plain names below it give the same answer.
\<close>

definition acme_dir :: "(string \<Rightarrow> string option) \<Rightarrow> string" where
  "acme_dir env = (case env ''PXXL_ACME_CHALLENGE_DIR'' of Some d \<Rightarrow> d | None \<Rightarrow> ''/data/acme-challenges'')"

lemma acme_reads_below_dir:
  assumes "\<And>name. \<not> acme_token_invalid name \<Longrightarrow>
      fs (path_join (acme_dir env) name) = fs' (path_join (acme_dir env) name) \<and>
      fs (path_join (path_join (path_join (acme_dir env) ''.well-known'') ''acme-challenge'') name) =
      fs' (path_join (path_join (path_join (acme_dir env) ''.well-known'') ''acme-challenge'') name)"
  shows "serve_acme_http01_challenge env fs path = serve_acme_http01_challenge env fs' path"
  using assms unfolding serve_acme_http01_challenge_def acme_dir_def [symmetric]
  by (cases "strip_prefix path ACME_CHALLENGE_PREFIX") (auto simp: Let_def split: option.splits)

end
