(* ===== verification/Geo.thy ===== *)
theory Geo
  imports Common_Types Std_Net Rust_Str
begin

text \<open>
  The offline GeoIP resolver (\<open>edge/crates/geo/src/lib.rs\<close>): the CSV database, the built-in
  private ranges, and the lookup that prefers the MaxMind databases. The \<open>ipnet\<close> crate
  (\<open>net_parse\<close>, \<open>contains\<close>) and the \<open>maxminddb\<close> readers are arguments.
\<close>

section \<open>Definitions\<close>

record geo_ip_record =
  gr_network :: ip_net
  gr_location :: geo_location

subsection \<open>MaxMind databases\<close>

text \<open>A \<open>names\<close> map in the order of its keys, and the parts of an answer that the code reads.\<close>

type_synonym name_map = "(string \<times> string) list"

record mmdb_place =
  mp_code :: "string option"
  mp_names :: "name_map option"

record mmdb_city =
  mc_country :: "mmdb_place option"
  mc_continent :: "mmdb_place option"
  mc_subdivisions :: "mmdb_place list option"
  mc_city :: "mmdb_place option"

record mmdb_asn =
  ma_number :: "u32 option"
  ma_organization :: "string option"

text \<open>A reader of one file answers the three kinds of lookup.\<close>

record mmdb_reader =
  mr_city :: "ip_addr \<Rightarrow> mmdb_city option"
  mr_country :: "ip_addr \<Rightarrow> mmdb_city option"
  mr_asn :: "ip_addr \<Rightarrow> mmdb_asn option"

record mmdb_databases =
  md_city :: "mmdb_reader option"
  md_country :: "mmdb_reader option"
  md_asn :: "mmdb_reader option"

record geo_ip_resolver =
  gi_records :: "geo_ip_record list"
  gi_mmdb :: "mmdb_databases option"
  gi_enabled :: bool

definition localized_name :: "name_map option \<Rightarrow> string option" where
  "localized_name names = Option.bind names (\<lambda>names.
     case map_of names ''en'' of Some n \<Rightarrow> Some n | None \<Rightarrow> map_option snd (find (\<lambda>_. True) names))"

definition place_code :: "mmdb_place option \<Rightarrow> string option" where
  "place_code p = map_option to_ascii_uppercase (Option.bind p mp_code)"

definition place_name :: "mmdb_place option \<Rightarrow> string option" where
  "place_name p = Option.bind p (\<lambda>p. localized_name (mp_names p))"

definition lookup_asn_summary :: "mmdb_reader option \<Rightarrow> ip_addr \<Rightarrow> string option" where
  "lookup_asn_summary reader ip =
     Option.bind (Option.bind reader (\<lambda>reader. mr_asn reader ip)) (\<lambda>asn.
     map_option (\<lambda>n. ''asn'' @ show_nat (unat n) @ '':'' @
       (case ma_organization asn of Some v \<Rightarrow> v | None \<Rightarrow> ''unknown'')) (ma_number asn))"

definition with_asn :: "mmdb_reader option \<Rightarrow> ip_addr \<Rightarrow> geo_location \<Rightarrow> geo_location" where
  "with_asn asn ip l = (case lookup_asn_summary asn ip of
     Some summary \<Rightarrow> l\<lparr>geo_source := geo_source l @ '':'' @ summary\<rparr> | None \<Rightarrow> l)"

definition location_from_city ::
    "mmdb_city \<Rightarrow> mmdb_reader option \<Rightarrow> ip_addr \<Rightarrow> geo_location" where
  "location_from_city c asn ip = with_asn asn ip
     \<lparr>geo_country_code = place_code (mc_country c), geo_country_name = place_name (mc_country c),
      geo_continent_code = place_code (mc_continent c), geo_continent_name = place_name (mc_continent c),
      geo_region = Option.bind (mc_subdivisions c) (\<lambda>ss. place_name (find (\<lambda>_. True) ss)),
      geo_city = place_name (mc_city c), geo_source = ''mmdb_city''\<rparr>"

definition location_from_country ::
    "mmdb_city \<Rightarrow> mmdb_reader option \<Rightarrow> ip_addr \<Rightarrow> geo_location" where
  "location_from_country c asn ip = with_asn asn ip
     \<lparr>geo_country_code = place_code (mc_country c), geo_country_name = place_name (mc_country c),
      geo_continent_code = place_code (mc_continent c), geo_continent_name = place_name (mc_continent c),
      geo_region = None, geo_city = None, geo_source = ''mmdb_country''\<rparr>"

definition lookup_mmdb :: "geo_ip_resolver \<Rightarrow> ip_addr \<Rightarrow> geo_location option" where
  "lookup_mmdb g ip = Option.bind (gi_mmdb g) (\<lambda>db.
     let city = Option.bind (md_city db) (\<lambda>reader. Option.bind (mr_city reader ip) (\<lambda>c.
                  let l = location_from_city c (md_asn db) ip in
                  if geo_country_code l \<noteq> None \<or> geo_continent_code l \<noteq> None \<or> geo_city l \<noteq> None then Some l else None));
         country = Option.bind (md_country db) (\<lambda>reader. Option.bind (mr_country reader ip) (\<lambda>c.
                  let l = location_from_country c (md_asn db) ip in
                  if geo_country_code l \<noteq> None \<or> geo_continent_code l \<noteq> None then Some l else None))
     in case city of Some l \<Rightarrow> Some l | None \<Rightarrow> country)"

text \<open>
  Which files are opened: the given path for each database when it exists, else the first
  candidate beside it. \<open>open_readfile\<close> is \<open>Reader::open_readfile\<close>.
\<close>

definition pick_existing :: "(string \<Rightarrow> bool) \<Rightarrow> string \<Rightarrow> (string \<Rightarrow> string) \<Rightarrow> string list \<Rightarrow> string option" where
  "pick_existing path_exists path join candidates =
     (if path_exists path then Some path else find path_exists (map join candidates))"

definition load_mmdb_reader ::
    "(string \<Rightarrow> mmdb_reader option) \<Rightarrow> string option \<Rightarrow> string \<Rightarrow> string + mmdb_reader option" where
  "load_mmdb_reader open_readfile path label =
     (case path of
        None \<Rightarrow> Inr None
      | Some p \<Rightarrow> (case open_readfile p of
                     Some r \<Rightarrow> Inr (Some r)
                   | None \<Rightarrow> Inl (''opening '' @ label @ '' MMDB '' @ p)))"

definition load_mmdb_databases ::
    "(string \<Rightarrow> bool) \<Rightarrow> (string \<Rightarrow> mmdb_reader option) \<Rightarrow> (string \<Rightarrow> string) \<Rightarrow> string \<Rightarrow> string + mmdb_databases" where
  "load_mmdb_databases path_exists open_readfile join path =
     (let pick = pick_existing path_exists path join in
      res_bind (load_mmdb_reader open_readfile (pick [''GeoLite2-City.mmdb'', ''GeoIP2-City.mmdb'']) ''city'') (\<lambda>city.
      res_bind (load_mmdb_reader open_readfile (pick [''GeoLite2-Country.mmdb'', ''GeoIP2-Country.mmdb'']) ''country'') (\<lambda>country.
      res_bind (load_mmdb_reader open_readfile
                 (pick [''GeoLite2-ASN.mmdb'', ''GeoIP2-ISP.mmdb'', ''GeoIP2-ASN.mmdb'']) ''asn'') (\<lambda>asn.
        Inr \<lparr>md_city = city, md_country = country, md_asn = asn\<rparr>))))"

subsection \<open>The CSV database\<close>

text \<open>\<open>str::lines\<close>: split after line feeds, without a carriage return before one.\<close>

definition strip_cr :: "string \<Rightarrow> string" where
  "strip_cr s = (if s \<noteq> [] \<and> last s = CHR 0x0D then butlast s else s)"

definition str_lines :: "string \<Rightarrow> string list" where
  "str_lines s = (let parts = split_on CHR 0x0A s in
     map strip_cr (butlast parts) @ (if last parts = [] then [] else [last parts]))"

definition empty_to_none :: "string option \<Rightarrow> string option" where
  "empty_to_none v = Option.bind v (\<lambda>v. if trim v = [] then None else Some v)"

definition field_at :: "string list \<Rightarrow> nat \<Rightarrow> string option" where
  "field_at cols i = (if i < length cols then Some (cols ! i) else None)"

definition csv_location :: "string list \<Rightarrow> geo_location" where
  "csv_location cols =
     \<lparr>geo_country_code = map_option to_ascii_uppercase (empty_to_none (field_at cols 1)),
      geo_country_name = empty_to_none (field_at cols 2),
      geo_continent_code = map_option to_ascii_uppercase (empty_to_none (field_at cols 3)),
      geo_continent_name = empty_to_none (field_at cols 4),
      geo_region = empty_to_none (field_at cols 5),
      geo_city = empty_to_none (field_at cols 6),
      geo_source = ''offline''\<rparr>"

definition parse_row :: "(string \<Rightarrow> ip_net option) \<Rightarrow> nat \<Rightarrow> string \<Rightarrow> string + geo_ip_record option" where
  "parse_row net_parse i raw =
     (let line = trim raw; cols = map trim (split_on CHR '','' line) in
      if line = [] \<or> starts_with line ''#'' then Inr None
      else if i = 0 \<and> eq_ignore_ascii_case (hd cols) ''cidr'' then Inr None
      else if length cols < 4
      then Inl (''GeoIP row '' @ show_nat (i + 1) @ '' needs at least cidr,country_code,country_name,continent_code'')
      else case net_parse (hd cols) of
        None \<Rightarrow> Inl (''invalid GeoIP CIDR on row '' @ show_nat (i + 1))
      | Some n \<Rightarrow> Inr (Some \<lparr>gr_network = n, gr_location = csv_location cols\<rparr>))"

fun parse_rows :: "(string \<Rightarrow> ip_net option) \<Rightarrow> nat \<Rightarrow> string list \<Rightarrow> string + geo_ip_record list" where
  "parse_rows net_parse i [] = Inr []"
| "parse_rows net_parse i (l # ls) =
     res_bind (parse_row net_parse i l) (\<lambda>r.
     res_bind (parse_rows net_parse (i + 1) ls) (\<lambda>rs. Inr (case r of Some r \<Rightarrow> r # rs | None \<Rightarrow> rs)))"

definition parse_database :: "(string \<Rightarrow> ip_net option) \<Rightarrow> string \<Rightarrow> string + geo_ip_record list" where
  "parse_database net_parse content = parse_rows net_parse 0 (str_lines content)"

subsection \<open>The resolver\<close>

definition builtin_location :: "string \<Rightarrow> string \<Rightarrow> string \<Rightarrow> string \<Rightarrow> geo_location" where
  "builtin_location country_code country_name continent_code continent_name =
     \<lparr>geo_country_code = Some country_code, geo_country_name = Some country_name,
      geo_continent_code = Some continent_code, geo_continent_name = Some continent_name,
      geo_region = None, geo_city = None, geo_source = ''builtin''\<rparr>"

definition local_location :: geo_location where
  "local_location = builtin_location ''LO'' ''Local'' ''LOCAL'' ''Local''"

definition private_location :: geo_location where
  "private_location = builtin_location ''PR'' ''Private'' ''PRIVATE'' ''Private''"

definition builtin_records :: "geo_ip_record list" where
  "builtin_records =
     [\<lparr>gr_network = V4Net 0x7F000001 8, gr_location = local_location\<rparr>,
      \<lparr>gr_network = V6Net 1 128, gr_location = local_location\<rparr>,
      \<lparr>gr_network = V4Net 0x0A000000 8, gr_location = private_location\<rparr>,
      \<lparr>gr_network = V4Net 0xAC100000 12, gr_location = private_location\<rparr>,
      \<lparr>gr_network = V4Net 0xC0A80000 16, gr_location = private_location\<rparr>,
      \<lparr>gr_network = V4Net 0x64400000 10, gr_location = private_location\<rparr>,
      \<lparr>gr_network = V6Net (0xFC00 * 2 ^ 112) 7, gr_location = private_location\<rparr>,
      \<lparr>gr_network = V6Net (0xFE80 * 2 ^ 112) 10, gr_location = private_location\<rparr>]"

definition disabled_resolver :: geo_ip_resolver where
  "disabled_resolver = \<lparr>gi_records = [], gi_mmdb = None, gi_enabled = False\<rparr>"

definition default_resolver :: geo_ip_resolver where
  "default_resolver = \<lparr>gi_records = builtin_records, gi_mmdb = None, gi_enabled = True\<rparr>"

text \<open>
  \<open>databases\<close> is what opening the MaxMind files gives for a path that ends in \<open>.mmdb\<close>;
  \<open>content\<close> is the text of the file, and \<open>None\<close> when reading it fails.
\<close>

definition load_from_path ::
    "(string \<Rightarrow> ip_net option) \<Rightarrow> bool \<Rightarrow> (string + mmdb_databases) option \<Rightarrow> bool \<Rightarrow> string option \<Rightarrow>
     string + geo_ip_resolver" where
  "load_from_path net_parse enabled databases path_exists content =
     (if \<not> enabled then Inr disabled_resolver
      else case databases of
        Some r \<Rightarrow> res_bind r (\<lambda>db. Inr \<lparr>gi_records = builtin_records, gi_mmdb = Some db, gi_enabled = True\<rparr>)
      | None \<Rightarrow>
          if path_exists
          then (case content of
                  None \<Rightarrow> Inl ''reading GeoIP database''
                | Some text \<Rightarrow> res_bind (parse_database net_parse text) (\<lambda>rs.
                    Inr \<lparr>gi_records = builtin_records @ rs, gi_mmdb = None, gi_enabled = True\<rparr>))
          else Inr default_resolver)"

definition geo_lookup :: "(ip_net \<Rightarrow> ip_addr \<Rightarrow> bool) \<Rightarrow> geo_ip_resolver \<Rightarrow> ip_addr \<Rightarrow> geo_location" where
  "geo_lookup contains g ip =
     (if \<not> gi_enabled g then geo_unknown
      else case lookup_mmdb g ip of
        Some l \<Rightarrow> l
      | None \<Rightarrow>
          (case max_by_key (\<lambda>r. prefix_len (gr_network r)) (filter (\<lambda>r. contains (gr_network r) ip) (gi_records g)) of
             Some r \<Rightarrow> gr_location r
           | None \<Rightarrow> geo_unknown))"

section \<open>Lookups\<close>

lemma filter_eq_appendD: "filter P xs = as @ bs \<Longrightarrow> \<exists>us vs. xs = us @ vs \<and> as = filter P us \<and> filter P vs = bs"
proof (induction xs arbitrary: as)
  case (Cons x xs)
  show ?case
  proof (cases "as = [] \<or> \<not> P x")
    case True
    then show ?thesis
    proof
      assume "as = []"
      with Cons.prems show ?thesis by (intro exI [of _ "[]"] exI [of _ "x # xs"]) simp
    next
      assume "\<not> P x"
      with Cons obtain us vs where "xs = us @ vs" "as = filter P us" "filter P vs = bs" by auto
      with \<open>\<not> P x\<close> show ?thesis by (intro exI [of _ "x # us"] exI [of _ vs]) simp
    qed
  next
    case False
    then obtain as' where "as = x # as'" "filter P xs = as' @ bs" using Cons.prems by (cases as) auto
    with Cons.IH obtain us vs where "xs = us @ vs" "as' = filter P us" "filter P vs = bs" by blast
    with False \<open>as = x # as'\<close> show ?thesis by (intro exI [of _ "x # us"] exI [of _ vs]) simp
  qed
qed simp

text \<open>The file the operator names is opened for all three databases when it exists.\<close>

lemma named_file_opened_for_all:
  assumes "path_exists path" and "open_readfile path = Some r"
  shows "load_mmdb_databases path_exists open_readfile join path =
    Inr \<lparr>md_city = Some r, md_country = Some r, md_asn = Some r\<rparr>"
  using assms by (simp add: load_mmdb_databases_def pick_existing_def load_mmdb_reader_def res_bind_def)

text \<open>Among the records that contain an address, the last of those with the longest prefix.\<close>

lemma lookup_offline:
  assumes "gi_enabled g" and "gi_mmdb g = None"
  shows "(\<nexists>r. r \<in> set (gi_records g) \<and> contains (gr_network r) ip) \<and> geo_lookup contains g ip = geo_unknown \<or>
    (\<exists>us r vs. gi_records g = us @ r # vs \<and> contains (gr_network r) ip \<and> geo_lookup contains g ip = gr_location r \<and>
       (\<forall>u\<in>set us. contains (gr_network u) ip \<longrightarrow> prefix_len (gr_network u) \<le> prefix_len (gr_network r)) \<and>
       (\<forall>v\<in>set vs. contains (gr_network v) ip \<longrightarrow> prefix_len (gr_network v) < prefix_len (gr_network r)))"
proof (cases "max_by_key (\<lambda>r. prefix_len (gr_network r)) (filter (\<lambda>r. contains (gr_network r) ip) (gi_records g))")
  case None
  then have "\<nexists>r. r \<in> set (gi_records g) \<and> contains (gr_network r) ip" by (auto simp: filter_empty_conv)
  with None assms show ?thesis by (auto simp: geo_lookup_def lookup_mmdb_def)
next
  case (Some r)
  from max_by_key_split [OF Some] obtain us' vs' where
    split: "filter (\<lambda>r. contains (gr_network r) ip) (gi_records g) = us' @ r # vs'"
    and before: "\<forall>u\<in>set us'. prefix_len (gr_network u) \<le> prefix_len (gr_network r)"
    and after: "\<forall>v\<in>set vs'. prefix_len (gr_network v) < prefix_len (gr_network r)" by blast
  from filter_eq_appendD [OF split] obtain us rest where us: "gi_records g = us @ rest"
    "us' = filter (\<lambda>r. contains (gr_network r) ip) us" "filter (\<lambda>r. contains (gr_network r) ip) rest = r # vs'"
    by blast
  from filter_eq_ConsD [OF us(3)] obtain mid vs where "rest = mid @ r # vs" "\<forall>u\<in>set mid. \<not> contains (gr_network u) ip"
    "contains (gr_network r) ip" "vs' = filter (\<lambda>r. contains (gr_network r) ip) vs" by blast
  with us have "gi_records g = (us @ mid) @ r # vs" "us' = filter (\<lambda>r. contains (gr_network r) ip) (us @ mid)"
    "vs' = filter (\<lambda>r. contains (gr_network r) ip) vs" "contains (gr_network r) ip" by auto
  with before after Some assms show ?thesis
    by (intro disjI2 exI [of _ "us @ mid"] exI [of _ r] exI [of _ vs]) (auto simp: geo_lookup_def lookup_mmdb_def)
qed

end
