(* ===== verification/Proxy_Server.thy ===== *)
theory Proxy_Server
  imports Response_Rules Digest_Auth Error_Pages Geo
begin

text \<open>
  The request handler (\<open>ProxyServer\<close> in \<open>edge/crates/http-proxy/src/lib.rs\<close>): one definition for
  each stage of \<open>handle\<close> up to the choice of an upstream, and one for what follows its answer. The
  handler waits for the upstream in between, so \<open>admit\<close> and \<open>complete\<close> are separate and other
  requests run between them; the state is that of the process. What the outside answers while a
  request runs (clock, files, statistics sink, authentication service, diagnostics) is the record
  \<open>request_world\<close>, with one clock reading for each half.
\<close>

section \<open>Definitions\<close>

subsection \<open>The server and its surroundings\<close>

record proxy_server =
  ps_state :: edge_state
  ps_error_pages :: error_page_renderer
  ps_policy :: policy_enforcer
  ps_geoip :: geo_ip_resolver
  ps_trusted_client_ip :: trusted_client_ip_config
  ps_bandwidth_tracker :: bool
  ps_runtime_diagnostics :: runtime_diagnostics_config
  ps_timers :: "health_timer list"
  ps_mirrors :: "(buffered_request \<times> forward_context) list"

text \<open>The crates, and the variables of the process.\<close>

record proxy_world =
  px_forward :: forward_env
  px_contains :: net_contains
  px_log2 :: "f64 \<Rightarrow> f64"
  px_sha :: "string \<Rightarrow> string"
  px_base64 :: "string \<Rightarrow> string option"
  px_gzip :: "string \<Rightarrow> string option"
  px_hash :: hasher
  px_order :: map_order
  px_template :: string
  px_vars :: "string \<Rightarrow> string option"
  px_diag_url :: "string \<Rightarrow> string \<Rightarrow> string \<Rightarrow> string option"
  px_diag_json :: "string \<Rightarrow> string option option"

record service_request =
  sv_uri :: uri
  sv_headers :: headers

record request_world =
  rx_request_id :: string
  rx_environ :: environ
  rx_elapsed :: nat
  rx_trace :: "string \<times> u64"
  rx_sent :: send_result
  rx_spool_ok :: bool
  rx_read_file :: "string \<Rightarrow> string option"
  rx_check_limit :: "string \<Rightarrow> u64 option \<Rightarrow> u64 option \<Rightarrow> string + bool"
  rx_monthly_usage :: "string \<Rightarrow> string + u64"
  rx_auth :: "service_request \<Rightarrow> u16 option"
  rx_diag :: "service_request \<Rightarrow> (u16 \<times> body_frame list) option"

abbreviation px_hc :: "proxy_world \<Rightarrow> http_crate" where
  "px_hc w \<equiv> fe_hc (px_forward w)"

abbreviation rx_now :: "request_world \<Rightarrow> instant" where
  "rx_now x \<equiv> en_now (rx_environ x)"

abbreviation rx_unix_ms :: "request_world \<Rightarrow> u64" where
  "rx_unix_ms x \<equiv> en_now_ms (rx_environ x)"

abbreviation elapsed_ms :: "request_world \<Rightarrow> nat" where
  "elapsed_ms x \<equiv> rx_elapsed x div 1000000"

text \<open>The process starts with its parts and no tracker.\<close>

definition new_proxy_server ::
    "(string \<Rightarrow> ip_net option) \<Rightarrow> (string \<Rightarrow> string option) \<Rightarrow> edge_state \<Rightarrow> error_page_renderer \<Rightarrow>
     policy_enforcer \<Rightarrow> geo_ip_resolver \<Rightarrow> proxy_server" where
  "new_proxy_server net_parse env st pages policy geoip =
     \<lparr>ps_state = st, ps_error_pages = pages, ps_policy = policy, ps_geoip = geoip,
      ps_trusted_client_ip = trusted_from_env net_parse env, ps_bandwidth_tracker = False,
      ps_runtime_diagnostics = diagnostics_from_env env, ps_timers = [], ps_mirrors = []\<rparr>"

definition with_bandwidth_tracker :: "proxy_server \<Rightarrow> proxy_server" where
  "with_bandwidth_tracker s = s\<lparr>ps_bandwidth_tracker := True\<rparr>"

definition on_metrics :: "(pxxl_metrics \<Rightarrow> pxxl_metrics) \<Rightarrow> proxy_server \<Rightarrow> proxy_server" where
  "on_metrics f s = s\<lparr>ps_state := (ps_state s)\<lparr>es_metrics := f (es_metrics (ps_state s))\<rparr>\<rparr>"

definition on_balancer :: "(load_balancer \<Rightarrow> load_balancer) \<Rightarrow> proxy_server \<Rightarrow> proxy_server" where
  "on_balancer f s = s\<lparr>ps_state := (ps_state s)\<lparr>es_load_balancer := f (es_load_balancer (ps_state s))\<rparr>\<rparr>"

subsection \<open>Stages\<close>

text \<open>A stage answers the request or passes a value on; the state changes either way.\<close>

type_synonym 'a stage = "proxy_server \<Rightarrow> (http_response + 'a) \<times> proxy_server"

definition stage_bind :: "'a stage \<Rightarrow> ('a \<Rightarrow> 'b stage) \<Rightarrow> 'b stage" where
  "stage_bind m f = (\<lambda>s. case m s of (Inl r, s') \<Rightarrow> (Inl r, s') | (Inr x, s') \<Rightarrow> f x s')"

definition pass :: "'a \<Rightarrow> 'a stage" where
  "pass x = (\<lambda>s. (Inr x, s))"

subsection \<open>Observation\<close>

definition observation_of ::
    "request_world \<Rightarrow> proxy_request_context \<Rightarrow> u16 \<Rightarrow> string option \<Rightarrow> u64 \<Rightarrow> u64 \<Rightarrow> request_observation" where
  "observation_of x ctx status upstream bytes_sent bytes_received =
     \<lparr>ro_request_id = rc_request_id ctx, ro_domain = rc_domain ctx, ro_method = rc_method ctx,
      ro_path = rc_path ctx, ro_status = status, ro_latency_ms = of_nat (elapsed_ms x), ro_upstream = upstream,
      ro_remote_ip = rc_remote_ip ctx, ro_location = rc_location ctx,
      ro_timestamp_unix_ms = rc_timestamp_unix_ms ctx, ro_bytes_sent = bytes_sent, ro_bytes_received = bytes_received\<rparr>"

definition observe_address ::
    "proxy_world \<Rightarrow> request_world \<Rightarrow> proxy_request_context \<Rightarrow> u16 \<Rightarrow> ip_addr \<Rightarrow> edge_state \<Rightarrow> edge_state" where
  "observe_address w x ctx status ip st =
     (let (block, sec) = record_request (px_contains w) (rx_environ x)
            \<lparr>oi_ip = ip, oi_domain = rc_domain ctx, oi_path = rc_path ctx, oi_status = status,
             oi_timestamp_unix_ms = rc_timestamp_unix_ms ctx\<rparr> (es_security st);
          m = es_metrics st;
          m = (case block of
                 Some b \<Rightarrow> m\<lparr>pm_adaptive_blocks_total := counter_inc [bs_reason b] (pm_adaptive_blocks_total m)\<rparr>
               | None \<Rightarrow> m)
      in st\<lparr>es_security := sec,
            es_metrics := m\<lparr>pm_adaptive_active_blocks := int (active_block_count (se_adaptive_blocker sec)),
              pm_adaptive_observed_ips := int (observed_ip_count (se_adaptive_blocker sec))\<rparr>\<rparr>)"

definition observe_request ::
    "proxy_world \<Rightarrow> request_world \<Rightarrow> proxy_request_context \<Rightarrow> u16 \<Rightarrow> string option \<Rightarrow> u64 \<Rightarrow> u64 \<Rightarrow>
     proxy_server \<Rightarrow> proxy_server" where
  "observe_request w x ctx status upstream bytes_sent bytes_received s =
     (let s = on_metrics (\<lambda>m. m\<lparr>pm_requests_total :=
                counter_inc [rc_domain ctx, rc_method ctx, show_nat (unat status)] (pm_requests_total m)\<rparr>) s;
          st = ps_state s;
          st = st\<lparr>es_stats := record_event (rx_sent x) (rx_spool_ok x)
                  (observation_of x ctx status upstream bytes_sent bytes_received) (es_stats st)\<rparr>
      in s\<lparr>ps_state := (case rc_remote_ip ctx of Some ip \<Rightarrow> observe_address w x ctx status ip st | None \<Rightarrow> st)\<rparr>)"

definition error_response :: "proxy_world \<Rightarrow> request_world \<Rightarrow> proxy_server \<Rightarrow> u16 \<Rightarrow> string \<Rightarrow> string \<Rightarrow> string \<Rightarrow> http_response" where
  "error_response w x s status msg domain path =
     error_page_response (px_hc w) (px_template w) (ps_error_pages s)
       \<lparr>ec_status = status, ec_message = msg, ec_reason_code = ''proxy_error'', ec_domain = domain, ec_path = path,
        ec_request_id = rx_request_id x, ec_processing_time_ms = elapsed_ms x\<rparr>"

text \<open>The idiom \<open>observe_request(..); finish_response!(response)\<close>, and its common case.\<close>

definition answer :: "proxy_world \<Rightarrow> request_world \<Rightarrow> proxy_request_context \<Rightarrow> http_response \<Rightarrow> 'a stage" where
  "answer w x ctx r = (\<lambda>s. (Inl r, observe_request w x ctx (rs_status r) None 0 0 s))"

definition refuse :: "proxy_world \<Rightarrow> request_world \<Rightarrow> proxy_request_context \<Rightarrow> u16 \<Rightarrow> string \<Rightarrow> 'a stage" where
  "refuse w x ctx status msg =
     (\<lambda>s. answer w x ctx (error_response w x s status msg (rc_domain ctx) (rc_path ctx)) s)"

subsection \<open>Diagnostics\<close>

definition MAX_RUNTIME_DIAGNOSTIC_BYTES :: nat where "MAX_RUNTIME_DIAGNOSTIC_BYTES = 16 * 1024"

text \<open>The answer carries an optional code; every failure is \<open>None\<close>.\<close>

definition fetch_runtime_diagnostic ::
    "proxy_world \<Rightarrow> request_world \<Rightarrow> runtime_diagnostics_config \<Rightarrow> string \<Rightarrow> string \<Rightarrow> string option option" where
  "fetch_runtime_diagnostic w x config domain path =
     (if \<not> diagnostics_enabled config then None
      else Option.bind (dg_endpoint config) (\<lambda>endpoint.
      Option.bind (dg_token config) (\<lambda>token.
      Option.bind (px_diag_url w endpoint domain path) (\<lambda>url.
      Option.bind (hc_parse_uri (px_hc w) url) (\<lambda>u.
      Option.bind (hc_header_value (px_hc w) token) (\<lambda>token_header.
      Option.bind (rx_diag x \<lparr>sv_uri = u, sv_headers = [(''x-pxxl-internal-token'', token_header)]\<rparr>) (\<lambda>(status, frames).
      if \<not> is_success status then None
      else case collect_body_with_limit MAX_RUNTIME_DIAGNOSTIC_BYTES [] frames of
        Inl _ \<Rightarrow> None
      | Inr body \<Rightarrow> px_diag_json w body)))))))"

definition diagnostic_error_response ::
    "proxy_world \<Rightarrow> request_world \<Rightarrow> proxy_server \<Rightarrow> u16 \<Rightarrow> proxy_error_reason \<Rightarrow> string \<Rightarrow> string \<Rightarrow> http_response" where
  "diagnostic_error_response w x s status reason domain path =
     (let reason = (case Option.bind (fetch_runtime_diagnostic w x (ps_runtime_diagnostics s) domain path)
                            runtime_diagnostic_reason of
                      Some r \<Rightarrow> r | None \<Rightarrow> reason)
      in response_with_reason_code (px_hc w) (px_template w) (ps_error_pages s)
           \<lparr>ec_status = status, ec_message = public_message reason, ec_reason_code = reason_code reason,
            ec_domain = domain, ec_path = ''/'', ec_request_id = rx_request_id x, ec_processing_time_ms = elapsed_ms x\<rparr>)"

definition refuse_with_reason ::
    "proxy_world \<Rightarrow> request_world \<Rightarrow> proxy_request_context \<Rightarrow> u16 \<Rightarrow> proxy_error_reason \<Rightarrow> 'a stage" where
  "refuse_with_reason w x ctx status reason =
     (\<lambda>s. answer w x ctx (diagnostic_error_response w x s status reason (rc_domain ctx) (rc_path ctx)) s)"

subsection \<open>Reading the request\<close>

definition unknown_context :: "request_world \<Rightarrow> http_request \<Rightarrow> request_scheme \<Rightarrow> ip_addr option \<Rightarrow> string \<Rightarrow> geo_location \<Rightarrow>
    proxy_request_context" where
  "unknown_context x req scheme ip path loc =
     \<lparr>rc_request_id = rx_request_id x, rc_domain = ''unknown'', rc_method = rq_method req, rc_path = path,
      rc_remote_ip = ip, rc_scheme = scheme, rc_location = loc, rc_timestamp_unix_ms = rx_unix_ms x\<rparr>"

definition requested_host :: "http_crate \<Rightarrow> http_request \<Rightarrow> string option" where
  "requested_host hc req =
     (case hdr_str hc (rq_headers req) ''host'' of Some h \<Rightarrow> Some h | None \<Rightarrow> uri_authority (rq_uri req))"

definition read_request ::
    "proxy_world \<Rightarrow> request_world \<Rightarrow> http_request \<Rightarrow> ip_addr option \<Rightarrow> request_scheme \<Rightarrow>
     (string \<times> proxy_request_context) stage" where
  "read_request w x req peer_ip scheme s =
     (let ip = resolve_effective_client_ip (px_hc w) (px_contains w) (rq_headers req) peer_ip (ps_trusted_client_ip s)
      in case canonicalize_path (uri_path (rq_uri req)) of
        Inl _ \<Rightarrow>
          (let raw = (case uri_path_and_query (rq_uri req) of Some v \<Rightarrow> v | None \<Rightarrow> ''/'')
           in refuse w x (unknown_context x req scheme ip raw geo_unknown) 400 ''invalid request path'' s)
      | Inr path \<Rightarrow>
          (let loc = (case ip of Some a \<Rightarrow> geo_lookup (px_contains w) (ps_geoip s) a | None \<Rightarrow> geo_unknown);
               ctx = unknown_context x req scheme ip path loc
           in case requested_host (px_hc w) req of
                None \<Rightarrow> refuse w x ctx 400 ''missing host header'' s
              | Some host \<Rightarrow> (Inr (host, ctx\<lparr>rc_domain := normalize_domain host\<rparr>), s)))"

subsection \<open>Challenges, security and routing\<close>

definition acme_stage :: "proxy_world \<Rightarrow> request_world \<Rightarrow> proxy_request_context \<Rightarrow> unit stage" where
  "acme_stage w x ctx =
     (case serve_acme_http01_challenge (px_vars w) (rx_read_file x) (rc_path ctx) of
        Some r \<Rightarrow> answer w x ctx r | None \<Rightarrow> pass ())"

text \<open>\<open>retry_after.as_secs().max(1)\<close>, written into the response.\<close>

definition insert_retry_after :: "http_crate \<Rightarrow> nat \<Rightarrow> http_response \<Rightarrow> http_response" where
  "insert_retry_after hc wait r =
     r\<lparr>rs_headers := hdr_insert_str hc ''retry-after'' (show_nat (max (wait div 1000000000) 1)) (rs_headers r)\<rparr>"

definition count_blocked :: "string \<Rightarrow> string \<Rightarrow> proxy_server \<Rightarrow> proxy_server" where
  "count_blocked domain reason =
     on_metrics (\<lambda>m. m\<lparr>pm_blocked_total := counter_inc [domain, reason] (pm_blocked_total m)\<rparr>)"

definition count_rate_limited :: "string \<Rightarrow> proxy_server \<Rightarrow> proxy_server" where
  "count_rate_limited domain =
     on_metrics (\<lambda>m. m\<lparr>pm_rate_limited_total := counter_inc [domain] (pm_rate_limited_total m)\<rparr>)"

definition security_stage :: "proxy_world \<Rightarrow> request_world \<Rightarrow> proxy_request_context \<Rightarrow> unit stage" where
  "security_stage w x ctx s =
     (case rc_remote_ip ctx of
        None \<Rightarrow> (Inr (), s)
      | Some ip \<Rightarrow>
          (let (decision, sec) = security_check (px_contains w) (rx_environ x) (rc_domain ctx) ip (es_security (ps_state s));
               s = s\<lparr>ps_state := (ps_state s)\<lparr>es_security := sec\<rparr>\<rparr>
           in case decision of
                Allowed \<Rightarrow> (Inr (), s)
              | Blocked reason \<Rightarrow>
                  refuse w x ctx 403 ''request blocked'' (count_blocked (rc_domain ctx) reason s)
              | RateLimited wait \<Rightarrow>
                  (let s = count_rate_limited (rc_domain ctx) s
                   in answer w x ctx (insert_retry_after (px_hc w) wait
                        (error_response w x s 429 ''rate limited'' (rc_domain ctx) (rc_path ctx))) s)))"

definition route_stage :: "proxy_world \<Rightarrow> request_world \<Rightarrow> string \<Rightarrow> proxy_request_context \<Rightarrow> route_match stage" where
  "route_stage w x host ctx s =
     (case find_route host (rc_path ctx) (es_routes (ps_state s)) of
        Some m \<Rightarrow> (Inr m, s)
      | None \<Rightarrow> refuse_with_reason w x ctx 404 RouteNotRegistered s)"

definition www_redirect_applies :: "proxy_request_context \<Rightarrow> route_match \<Rightarrow> bool" where
  "www_redirect_applies ctx m \<longleftrightarrow>
     dr_redirect_www_to_apex (rt_rules (rm_route m)) \<and> dr_www_alias (rt_rules (rm_route m)) \<and>
     rc_domain ctx \<noteq> rt_domain (rm_route m) \<and>
     strip_prefix (rc_domain ctx) ''www.'' = Some (rt_domain (rm_route m))"

definition www_redirect_location :: "http_request \<Rightarrow> proxy_request_context \<Rightarrow> route_match \<Rightarrow> string" where
  "www_redirect_location req ctx m =
     (let rules = rt_rules (rm_route m);
          scheme = (if dr_redirect_http_to_https rules \<or> dr_require_https rules then ''https'' else scheme_as_str (rc_scheme ctx))
      in scheme @ ''://'' @ rt_domain (rm_route m) @ rc_path ctx @
         (case uri_query (rq_uri req) of Some q \<Rightarrow> ''?'' @ q | None \<Rightarrow> []))"

definition insert_location :: "http_crate \<Rightarrow> string \<Rightarrow> http_response \<Rightarrow> http_response" where
  "insert_location hc l r = r\<lparr>rs_headers := hdr_insert_str hc ''location'' l (rs_headers r)\<rparr>"

definition www_redirect_stage ::
    "proxy_world \<Rightarrow> request_world \<Rightarrow> http_request \<Rightarrow> proxy_request_context \<Rightarrow> route_match \<Rightarrow> unit stage" where
  "www_redirect_stage w x req ctx m =
     (if www_redirect_applies ctx m
      then answer w x ctx (insert_location (px_hc w) (www_redirect_location req ctx m)
             (response_with_body 308 ''text/plain; charset=utf-8'' []))
      else pass ())"

subsection \<open>Policy\<close>

definition rejection_response ::
    "proxy_world \<Rightarrow> request_world \<Rightarrow> http_request \<Rightarrow> proxy_request_context \<Rightarrow> route_match \<Rightarrow> policy_rejection \<Rightarrow>
     proxy_server \<Rightarrow> http_response" where
  "rejection_response w x req ctx m j s =
     (let r = (if pj_status j = 204 then response_with_body 204 ''text/plain; charset=utf-8'' []
               else error_response w x s (pj_status j) (pj_message j) (rc_domain ctx) (rc_path ctx));
          r = (case pj_location j of Some l \<Rightarrow> insert_location (px_hc w) l r | None \<Rightarrow> r);
          r = (case pj_retry_after j of Some t \<Rightarrow> insert_retry_after (px_hc w) t r | None \<Rightarrow> r)
      in r\<lparr>rs_headers := apply_response_rules (px_hc w) (px_order w) (rt_rules (rm_route m))
             (hdr_get (rq_headers req) ''origin'') (rs_headers r)\<rparr>)"

definition count_rejection :: "proxy_request_context \<Rightarrow> policy_rejection \<Rightarrow> proxy_server \<Rightarrow> proxy_server" where
  "count_rejection ctx j s =
     (if pj_status j = 429 then count_rate_limited (rc_domain ctx) s
      else if is_client_error (pj_status j) \<or> is_server_error (pj_status j)
      then count_blocked (rc_domain ctx) (pj_metric_reason j) s
      else s)"

definition policy_stage ::
    "proxy_world \<Rightarrow> request_world \<Rightarrow> http_request \<Rightarrow> proxy_request_context \<Rightarrow> route_match \<Rightarrow> unit stage" where
  "policy_stage w x req ctx m s =
     (let (rejection, pe) = evaluate (px_hc w) (px_contains w) (px_log2 w) (rx_now x) req (rt_rules (rm_route m)) ctx (ps_policy s);
          s = s\<lparr>ps_policy := pe\<rparr>
      in case rejection of
           None \<Rightarrow> (Inr (), s)
         | Some j \<Rightarrow>
             (let s = count_rejection ctx j s
              in answer w x ctx (rejection_response w x req ctx m j s) s))"

subsection \<open>Bandwidth\<close>

definition bandwidth_response ::
    "proxy_world \<Rightarrow> request_world \<Rightarrow> proxy_request_context \<Rightarrow> bandwidth_limit \<Rightarrow> proxy_server \<Rightarrow> http_response" where
  "bandwidth_response w x ctx l s =
     (let code = (case bl_exceeded_status_code l of Some c \<Rightarrow> c | None \<Rightarrow> 509)
      in bandwidth_exceeded_response (px_hc w) (ps_error_pages s) (unat (rx_unix_ms x) div 1000)
           \<lparr>bx_status = (if hc_status_ok (px_hc w) code then code else 429),
            bx_domain = rc_domain ctx, bx_path = rc_path ctx, bx_request_id = rx_request_id x,
            bx_processing_time_ms = elapsed_ms x,
            bx_bytes_used = (case rx_monthly_usage x (rc_domain ctx) of Inr n \<Rightarrow> n | Inl _ \<Rightarrow> 0),
            bx_bytes_limit = (case bl_max_bytes_per_month l of Some n \<Rightarrow> n
              | None \<Rightarrow> (case bl_max_bytes_per_day l of Some n \<Rightarrow> n | None \<Rightarrow> 0)),
            bx_reset_day = bl_reset_day_of_month l\<rparr>)"

definition bandwidth_stage :: "proxy_world \<Rightarrow> request_world \<Rightarrow> proxy_request_context \<Rightarrow> route_match \<Rightarrow> unit stage" where
  "bandwidth_stage w x ctx m s =
     (case dr_bandwidth_limit (rt_rules (rm_route m)) of
        None \<Rightarrow> (Inr (), s)
      | Some l \<Rightarrow>
          if bl_enabled l \<and> ps_bandwidth_tracker s \<and>
             rx_check_limit x (rc_domain ctx) (bl_max_bytes_per_month l) (bl_max_bytes_per_day l) = Inr False
          then answer w x ctx (bandwidth_response w x ctx l s) s
          else (Inr (), s))"

subsection \<open>Authentication\<close>

definition count_middleware :: "string \<Rightarrow> string \<Rightarrow> string \<Rightarrow> proxy_server \<Rightarrow> proxy_server" where
  "count_middleware domain kind outcome =
     on_metrics (\<lambda>m. m\<lparr>pm_middleware_executions_total :=
       counter_inc [domain, kind, outcome] (pm_middleware_executions_total m)\<rparr>)"

definition challenge_response ::
    "proxy_world \<Rightarrow> request_world \<Rightarrow> proxy_request_context \<Rightarrow> string \<Rightarrow> string \<Rightarrow> proxy_server \<Rightarrow> http_response" where
  "challenge_response w x ctx msg challenge s =
     (let r = error_response w x s 401 msg (rc_domain ctx) (rc_path ctx)
      in r\<lparr>rs_headers := hdr_insert_str (px_hc w) ''www-authenticate'' challenge (rs_headers r)\<rparr>)"

definition evaluate_basic_auth ::
    "proxy_world \<Rightarrow> request_world \<Rightarrow> http_request \<Rightarrow> proxy_request_context \<Rightarrow> basic_auth_config \<Rightarrow> proxy_server \<Rightarrow>
     http_response option" where
  "evaluate_basic_auth w x req ctx config s =
     (if \<not> ba_enabled config then None
      else if basic_authorized (px_hc w) (px_base64 w) (rq_headers req) config then None
      else Some (challenge_response w x ctx ''authentication required''
             (''Basic realm='' @ [CHR 0x22] @ ba_realm config @ [CHR 0x22]) s))"

definition basic_auth_stage ::
    "proxy_world \<Rightarrow> request_world \<Rightarrow> http_request \<Rightarrow> proxy_request_context \<Rightarrow> effective_middleware \<Rightarrow> unit stage" where
  "basic_auth_stage w x req ctx mw s =
     (case em_basic_auth mw of
        None \<Rightarrow> (Inr (), s)
      | Some config \<Rightarrow>
          (case evaluate_basic_auth w x req ctx config s of
             Some r \<Rightarrow> answer w x ctx r (count_middleware (rc_domain ctx) ''basic_auth'' ''rejected'' s)
           | None \<Rightarrow> (Inr (), count_middleware (rc_domain ctx) ''basic_auth'' ''allowed'' s)))"

definition digest_check_of ::
    "proxy_server \<Rightarrow> http_request \<Rightarrow> proxy_request_context \<Rightarrow> digest_auth_config \<Rightarrow> string \<Rightarrow> digest_auth_check" where
  "digest_check_of s req ctx config v =
     \<lparr>dc_method = rq_method req, dc_realm = da_realm config, dc_users = da_users config,
      dc_params = parse_digest_authorization v, dc_actual_uri = digest_request_uri req (rc_path ctx),
      dc_secret = pe_digest_secret (ps_policy s)\<rparr>"

definition digest_passes ::
    "proxy_world \<Rightarrow> request_world \<Rightarrow> http_request \<Rightarrow> proxy_request_context \<Rightarrow> digest_auth_config \<Rightarrow> proxy_server \<Rightarrow>
     bool \<times> proxy_server" where
  "digest_passes w x req ctx config s =
     (case Option.bind (hdr_str (px_hc w) (rq_headers req) ''authorization'') (\<lambda>v. strip_prefix v ''Digest '') of
        None \<Rightarrow> (False, s)
      | Some v \<Rightarrow>
          (let (ok, replays) = digest_authorized (px_sha w) (rx_unix_ms x) (rx_now x) (digest_check_of s req ctx config v)
                 (pe_digest_replays (ps_policy s))
           in (ok, s\<lparr>ps_policy := (ps_policy s)\<lparr>pe_digest_replays := replays\<rparr>\<rparr>)))"

definition digest_challenge :: "proxy_world \<Rightarrow> request_world \<Rightarrow> digest_auth_config \<Rightarrow> proxy_server \<Rightarrow> string" where
  "digest_challenge w x config s =
     ''Digest realm='' @ [CHR 0x22] @ da_realm config @ [CHR 0x22] @ '', qop='' @ [CHR 0x22] @ ''auth'' @ [CHR 0x22] @
     '', algorithm=SHA-256, nonce='' @ [CHR 0x22] @
     digest_nonce (px_sha w) (pe_digest_secret (ps_policy s)) (da_realm config) (rx_unix_ms x) @ [CHR 0x22]"

definition digest_auth_stage ::
    "proxy_world \<Rightarrow> request_world \<Rightarrow> http_request \<Rightarrow> proxy_request_context \<Rightarrow> effective_middleware \<Rightarrow> unit stage" where
  "digest_auth_stage w x req ctx mw s =
     (case em_digest_auth mw of
        None \<Rightarrow> (Inr (), s)
      | Some config \<Rightarrow>
          (let (ok, s) = (if da_enabled config then digest_passes w x req ctx config s else (True, s))
           in if ok then (Inr (), count_middleware (rc_domain ctx) ''digest_auth'' ''allowed'' s)
              else answer w x ctx
                     (challenge_response w x ctx ''digest authentication required'' (digest_challenge w x config s) s)
                     (count_middleware (rc_domain ctx) ''digest_auth'' ''rejected'' s)))"

text \<open>The headers that the authentication service receives.\<close>

definition forward_auth_header :: "http_crate \<Rightarrow> headers \<Rightarrow> string \<Rightarrow> headers" where
  "forward_auth_header hc h header =
     (case hc_header_name hc header of
        None \<Rightarrow> []
      | Some n \<Rightarrow>
          (case hdr_get h n of
             Some v \<Rightarrow> [(n, v)]
           | None \<Rightarrow> if eq_ignore_ascii_case n ''x-forwarded-host''
                     then (case hdr_get h ''host'' of Some v \<Rightarrow> [(n, v)] | None \<Rightarrow> []) else []))"

definition run_forward_auth ::
    "proxy_world \<Rightarrow> request_world \<Rightarrow> http_request \<Rightarrow> forward_auth_config \<Rightarrow> route_source \<Rightarrow> pxxl_error + bool" where
  "run_forward_auth w x req config source =
     (if \<not> fa_enabled config then Inr True
      else res_bind (ensure_runtime_upstream_allowed (fe_network_allowed (px_forward w)) source (fa_url config)) (\<lambda>_.
        case hc_parse_uri (px_hc w) (fa_url config) of
          None \<Rightarrow> Inl (InvalidUpstream (fa_url config))
        | Some u \<Rightarrow>
            (case rx_auth x \<lparr>sv_uri = u,
                     sv_headers = concat (map (forward_auth_header (px_hc w) (rq_headers req)) (fa_request_headers config))\<rparr> of
               None \<Rightarrow> Inl (InvalidUpstream (fa_url config))
             | Some status \<Rightarrow> Inr (is_success status))))"

definition forward_auth_stage ::
    "proxy_world \<Rightarrow> request_world \<Rightarrow> http_request \<Rightarrow> proxy_request_context \<Rightarrow> route_match \<Rightarrow> effective_middleware \<Rightarrow>
     unit stage" where
  "forward_auth_stage w x req ctx m mw s =
     (case em_forward_auth mw of
        None \<Rightarrow> (Inr (), s)
      | Some config \<Rightarrow>
          (case run_forward_auth w x req config (rt_source (rm_route m)) of
             Inr True \<Rightarrow> (Inr (), count_middleware (rc_domain ctx) ''forward_auth'' ''allowed'' s)
           | Inr False \<Rightarrow>
               refuse w x ctx 401 ''forward auth denied the request'' (count_middleware (rc_domain ctx) ''forward_auth'' ''rejected'' s)
           | Inl _ \<Rightarrow>
               refuse w x ctx 502 ''forward auth request failed'' (count_middleware (rc_domain ctx) ''forward_auth'' ''error'' s)))"

definition edge_authorization_consumed :: "effective_middleware \<Rightarrow> bool" where
  "edge_authorization_consumed mw \<longleftrightarrow>
     (\<exists>c\<in>set_option (em_basic_auth mw). ba_enabled c) \<or> (\<exists>c\<in>set_option (em_digest_auth mw). da_enabled c)"

text \<open>The request as it goes on: without the credentials the edge checked, on its canonical path.\<close>

definition prepare_request ::
    "proxy_world \<Rightarrow> http_request \<Rightarrow> proxy_request_context \<Rightarrow> route_match \<Rightarrow> effective_middleware \<Rightarrow> http_request" where
  "prepare_request w req ctx m mw =
     (let h = (if edge_authorization_consumed mw then hdr_remove ''authorization'' (rq_headers req) else rq_headers req);
          u = forwarded_uri (px_hc w) (rq_uri req) (rc_path ctx) (uri_query (rq_uri req));
          h = apply_request_rules (px_hc w) (px_order w) (rt_rules (rm_route m)) h;
          h = (if ctd_enabled (em_content_type_autodetect mw) then apply_request_content_type_detection u None h else h)
      in req\<lparr>rq_uri := u, rq_headers := h\<rparr>)"

subsection \<open>Choosing an upstream\<close>

definition select_upstream_pool ::
    "string \<Rightarrow> route_match \<Rightarrow> geo_location \<Rightarrow> proxy_server \<Rightarrow> (string \<times> upstream list) \<times> proxy_server" where
  "select_upstream_pool base_route_key m loc s =
     (let rules = rt_rules (rm_route m);
          splits = matching_traffic_splits rules loc;
          fallback = (case location_upstreams rules loc of
                        Some (name, ups) \<Rightarrow> ('':location:'' @ name, ups)
                      | None \<Rightarrow> ([], pr_upstreams (rm_path m)))
      in if splits = [] then (fallback, s)
         else
           (let (index, lb) = select_weighted_index (base_route_key @ '':traffic_split'') (map ts_weight splits)
                  (es_load_balancer (ps_state s));
                s = on_balancer (\<lambda>_. lb) s
            in case index of
                 Some i \<Rightarrow>
                   if i < length splits
                   then (('':split:'' @ (case ts_name (splits ! i) of Some n \<Rightarrow> n | None \<Rightarrow> ''weighted-'' @ show_nat i),
                          ts_upstreams (splits ! i)), s)
                   else (fallback, s)
               | None \<Rightarrow> (fallback, s)))"

text \<open>
  The upstreams of one kind that are healthy and whose circuit is not open, with what asking the
  circuits changes.
\<close>

fun available_upstreams ::
    "instant \<Rightarrow> route_match \<Rightarrow> bool \<Rightarrow> upstream list \<Rightarrow> circuit_breakers \<Rightarrow> upstream list \<times> circuit_breakers" where
  "available_upstreams now m backup [] b = ([], b)"
| "available_upstreams now m backup (u # us) b =
     (if up_backup u = backup \<and> up_healthy u
      then (let (is_open, b) = circuit_is_open now (rt_id (rm_route m)) (pr_prefix (rm_path m)) (up_url u) b;
                (vs, b) = available_upstreams now m backup us b
            in (if is_open then vs else u # vs, b))
      else available_upstreams now m backup us b)"

definition balance ::
    "proxy_world \<Rightarrow> instant \<Rightarrow> string \<Rightarrow> route_match \<Rightarrow> bool \<Rightarrow> upstream list \<Rightarrow> ip_addr option \<Rightarrow> proxy_server \<Rightarrow>
     upstream option \<times> proxy_server" where
  "balance w now route_key m backup ups ip s =
     (let (candidates, b) = available_upstreams now m backup ups (pe_circuit_breakers (ps_policy s));
          (u, lb) = select (px_hash w) route_key (rt_algorithm (rm_route m)) candidates ip (es_load_balancer (ps_state s))
      in (u, on_balancer (\<lambda>_. lb) (s\<lparr>ps_policy := (ps_policy s)\<lparr>pe_circuit_breakers := b\<rparr>\<rparr>)))"

definition sticky_choice ::
    "proxy_world \<Rightarrow> instant \<Rightarrow> route_match \<Rightarrow> upstream list \<Rightarrow> headers \<Rightarrow> effective_middleware \<Rightarrow> proxy_server \<Rightarrow>
     upstream option \<times> proxy_server" where
  "sticky_choice w now m ups h mw s =
     (case sticky_upstream (px_hc w) h ups (em_sticky_sessions mw) of
        None \<Rightarrow> (None, s)
      | Some u \<Rightarrow>
          if \<not> up_healthy u then (None, s)
          else (let (is_open, b) = circuit_is_open now (rt_id (rm_route m)) (pr_prefix (rm_path m)) (up_url u)
                      (pe_circuit_breakers (ps_policy s))
                in (if is_open then None else Some u, s\<lparr>ps_policy := (ps_policy s)\<lparr>pe_circuit_breakers := b\<rparr>\<rparr>)))"

definition select_available_upstream ::
    "proxy_world \<Rightarrow> instant \<Rightarrow> string \<Rightarrow> route_match \<Rightarrow> upstream list \<Rightarrow> ip_addr option \<Rightarrow> headers \<Rightarrow> effective_middleware \<Rightarrow>
     proxy_server \<Rightarrow> upstream option \<times> proxy_server" where
  "select_available_upstream w now route_key m ups ip h mw s =
     (let (u, s) = sticky_choice w now m ups h mw s
      in case u of Some u \<Rightarrow> (Some u, s)
         | None \<Rightarrow>
             (let (u, s) = balance w now route_key m False ups ip s
              in case u of Some u \<Rightarrow> (Some u, s)
                 | None \<Rightarrow> balance w now route_key m True ups ip s))"

text \<open>\<open>Iterator::all\<close> over the circuits: it stops at the first that is not open.\<close>

fun all_circuits_open :: "instant \<Rightarrow> route_match \<Rightarrow> upstream list \<Rightarrow> circuit_breakers \<Rightarrow> bool \<times> circuit_breakers" where
  "all_circuits_open now m [] b = (True, b)"
| "all_circuits_open now m (u # us) b =
     (let (is_open, b) = circuit_is_open now (rt_id (rm_route m)) (pr_prefix (rm_path m)) (up_url u) b
      in if is_open then all_circuits_open now m us b else (False, b))"

definition route_unavailable_reason ::
    "instant \<Rightarrow> route_match \<Rightarrow> upstream list \<Rightarrow> circuit_breakers \<Rightarrow> proxy_error_reason \<times> circuit_breakers" where
  "route_unavailable_reason now m ups b =
     (if ups = [] then (RouteHasNoUpstreams, b)
      else if filter up_healthy ups = [] then (AllUpstreamsUnhealthy, b)
      else let (all_open, b) = all_circuits_open now m (filter up_healthy ups) b
           in (if all_open then CircuitBreakerOpen else AllUpstreamsUnhealthy, b))"

definition upstream_failure_reason :: "pxxl_error \<Rightarrow> proxy_error_reason" where
  "upstream_failure_reason e =
     (case e of
        pxxl_error.UpstreamDnsResolutionFailed _ \<Rightarrow> proxy_error_reason.UpstreamDnsResolutionFailed
      | pxxl_error.UpstreamConnectionRefused _ \<Rightarrow> proxy_error_reason.UpstreamConnectionRefused
      | pxxl_error.UpstreamConnectionTimeout _ \<Rightarrow> proxy_error_reason.UpstreamConnectionTimeout
      | pxxl_error.UpstreamConnectionFailed _ \<Rightarrow> proxy_error_reason.UpstreamConnectionFailed
      | InvalidUpstream _ \<Rightarrow> UpstreamConfigurationInvalid
      | _ \<Rightarrow> ProxyInternal)"

subsection \<open>Taking an upstream\<close>

text \<open>
  What the handler keeps of a request: first what the stages before the upstream settled, then what
  it holds while it waits for the upstream.
\<close>

record draft =
  dt_context :: proxy_request_context
  dt_matched :: route_match
  dt_middleware :: effective_middleware
  dt_origin :: "string option"
  dt_accept_encoding :: "string option"
  dt_client_cert_pem :: "string option"

datatype payload = Streaming http_request | Buffered buffered_request

record pending =
  pd_draft :: draft
  pd_payload :: payload
  pd_upstream :: upstream
  pd_route_key :: string
  pd_in_flight_key :: "string option"

definition in_flight_labels :: "pending \<Rightarrow> string list" where
  "in_flight_labels p =
     [rc_domain (dt_context (pd_draft p)), rt_id (rm_route (dt_matched (pd_draft p))),
      pr_prefix (rm_path (dt_matched (pd_draft p))), up_url (pd_upstream p)]"

definition add_in_flight :: "int \<Rightarrow> pending \<Rightarrow> proxy_server \<Rightarrow> proxy_server" where
  "add_in_flight n p = on_metrics (\<lambda>m. m\<lparr>pm_upstream_in_flight :=
     gauge_add (in_flight_labels p) n (pm_upstream_in_flight m)\<rparr>)"

definition mirror_request ::
    "buffered_request \<Rightarrow> route_match \<Rightarrow> traffic_mirror_config \<Rightarrow> string \<Rightarrow> proxy_server \<Rightarrow> proxy_server" where
  "mirror_request request m mirror domain s =
     (if \<not> tm_enabled mirror \<or> tm_upstreams mirror = [] \<or> tm_percent mirror = 0 then s
      else s\<lparr>ps_mirrors := ps_mirrors s @
        map (\<lambda>u. (request, \<lparr>fc_matched = m, fc_upstream = u, fc_remote_ip = None, fc_scheme = Http,
                     fc_middleware = from_rules (rt_rules (rm_route m)) [], fc_domain = domain, fc_client_cert_pem = None\<rparr>))
          (filter (\<lambda>u. up_healthy u \<and> mirror_should_run domain (br_uri request) (up_url u) (tm_percent mirror)) (tm_upstreams mirror))\<rparr>)"

text \<open>One of the spawned tasks.\<close>

definition run_mirror ::
    "proxy_world \<Rightarrow> (outgoing \<Rightarrow> upstream_answer) \<Rightarrow> buffered_request \<times> forward_context \<Rightarrow> proxy_server \<Rightarrow> proxy_server" where
  "run_mirror w client job s =
     (let label = (case forward_buffered (px_forward w) client (fst job) (snd job) of Inr _ \<Rightarrow> ''ok'' | Inl _ \<Rightarrow> ''error'')
      in on_metrics (\<lambda>m. m\<lparr>pm_mirror_requests_total :=
           counter_inc [fc_domain (snd job), up_url (fc_upstream (snd job)), label] (pm_mirror_requests_total m)\<rparr>)
           (s\<lparr>ps_mirrors := remove1 job (ps_mirrors s)\<rparr>))"

definition take_upstream ::
    "proxy_world \<Rightarrow> request_world \<Rightarrow> string \<Rightarrow> upstream list \<Rightarrow> headers \<Rightarrow> draft \<Rightarrow> payload \<Rightarrow> pending stage" where
  "take_upstream w x route_key ups h d payload s =
     (let ctx = dt_context d; m = dt_matched d; mw = dt_middleware d;
          (u, s) = select_available_upstream w (rx_now x) route_key m ups (rc_remote_ip ctx) h mw s
      in case u of
        None \<Rightarrow>
          (let (reason, b) = route_unavailable_reason (rx_now x) m ups (pe_circuit_breakers (ps_policy s))
           in refuse_with_reason w x ctx 503 reason (s\<lparr>ps_policy := (ps_policy s)\<lparr>pe_circuit_breakers := b\<rparr>\<rparr>))
      | Some u \<Rightarrow>
          (let (key, limits) = try_acquire_in_flight (em_in_flight_limit mw) m u (pe_in_flight_limits (ps_policy s));
               s = s\<lparr>ps_policy := (ps_policy s)\<lparr>pe_in_flight_limits := limits\<rparr>\<rparr>
           in case key of
                Inl scope \<Rightarrow>
                  refuse w x ctx 429 ''too many in-flight requests''
                    (on_metrics (\<lambda>mt. mt\<lparr>pm_in_flight_limited_total :=
                       counter_inc [rc_domain ctx, scope] (pm_in_flight_limited_total mt)\<rparr>) s)
              | Inr k \<Rightarrow>
                  (let p = \<lparr>pd_draft = d, pd_payload = payload, pd_upstream = u, pd_route_key = route_key, pd_in_flight_key = k\<rparr>
                   in (Inr p, add_in_flight 1 p (on_balancer (begin_request route_key (up_url u)) s)))))"

definition base_route_key :: "route_match \<Rightarrow> string" where
  "base_route_key m = rt_id (rm_route m) @ '':'' @ pr_prefix (rm_path m)"

definition streaming_stage :: "proxy_world \<Rightarrow> request_world \<Rightarrow> http_request \<Rightarrow> draft \<Rightarrow> pending stage" where
  "streaming_stage w x req d s =
     (let req = req\<lparr>rq_headers := ensure_trace_headers (px_hc w) (fst (rx_trace x)) (snd (rx_trace x)) (rx_request_id x) (rq_headers req)\<rparr>;
          base = base_route_key (dt_matched d);
          ((suffix, ups), s) = select_upstream_pool base (dt_matched d) (rc_location (dt_context d)) s
      in take_upstream w x (base @ suffix) ups (rq_headers req) d (Streaming req) s)"

definition buffering_stage :: "proxy_world \<Rightarrow> request_world \<Rightarrow> http_request \<Rightarrow> draft \<Rightarrow> pending stage" where
  "buffering_stage w x req d s =
     (let ctx = dt_context d; m = dt_matched d; mw = dt_middleware d
      in case from_request req (request_body_limit (rt_rules (rm_route m)) mw) of
        Inl TooLarge \<Rightarrow> refuse w x ctx 413 ''request body is too large'' s
      | Inl (BodyError _) \<Rightarrow> refuse w x ctx 400 ''failed to read request body'' s
      | Inr request \<Rightarrow>
          (let h = ensure_trace_headers (px_hc w) (fst (rx_trace x)) (snd (rx_trace x)) (rx_request_id x) (br_headers request);
               h = (if ctd_enabled (em_content_type_autodetect mw)
                    then apply_request_content_type_detection (br_uri request) (Some (br_body request)) h else h);
               request = request\<lparr>br_headers := h\<rparr>;
               base = base_route_key m;
               ((suffix, ups), s) = select_upstream_pool base m (rc_location ctx) s;
               s = mirror_request request m (em_traffic_mirroring mw) (rc_domain ctx) s
           in take_upstream w x (base @ suffix) ups h d (Buffered request) s))"

subsection \<open>The first half of the handler\<close>

definition auth_stages ::
    "proxy_world \<Rightarrow> request_world \<Rightarrow> http_request \<Rightarrow> proxy_request_context \<Rightarrow> route_match \<Rightarrow> effective_middleware \<Rightarrow>
     unit stage" where
  "auth_stages w x req ctx m mw =
     stage_bind (basic_auth_stage w x req ctx mw) (\<lambda>_.
     stage_bind (digest_auth_stage w x req ctx mw) (\<lambda>_.
     forward_auth_stage w x req ctx m mw))"

definition admit ::
    "proxy_world \<Rightarrow> request_world \<Rightarrow> http_request \<Rightarrow> ip_addr option \<Rightarrow> request_scheme \<Rightarrow> string option \<Rightarrow> pending stage" where
  "admit w x req peer_ip scheme client_cert_pem =
     stage_bind (read_request w x req peer_ip scheme) (\<lambda>(host, ctx).
     stage_bind (acme_stage w x ctx) (\<lambda>_.
     stage_bind (security_stage w x ctx) (\<lambda>_.
     stage_bind (route_stage w x host ctx) (\<lambda>m.
     stage_bind (www_redirect_stage w x req ctx m) (\<lambda>_.
     stage_bind (policy_stage w x req ctx m) (\<lambda>_.
     stage_bind (bandwidth_stage w x ctx m) (\<lambda>_.
     let mw = from_rules (rt_rules (rm_route m)) (pr_middlewares (rm_path m)) in
     stage_bind (auth_stages w x req ctx m mw) (\<lambda>_.
     let prepared = prepare_request w req ctx m mw;
         d = \<lparr>dt_context = ctx, dt_matched = m, dt_middleware = mw, dt_origin = hdr_get (rq_headers req) ''origin'',
              dt_accept_encoding = hdr_get (rq_headers req) ''accept-encoding'', dt_client_cert_pem = client_cert_pem\<rparr>
     in if requires_buffered_forwarding mw (dr_max_body_bytes (rt_rules (rm_route m)) \<noteq> None)
        then buffering_stage w x prepared d
        else streaming_stage w x prepared d))))))))"

subsection \<open>The second half\<close>

definition forward_context_of :: "pending \<Rightarrow> forward_context" where
  "forward_context_of p =
     \<lparr>fc_matched = dt_matched (pd_draft p), fc_upstream = pd_upstream p, fc_remote_ip = rc_remote_ip (dt_context (pd_draft p)),
      fc_scheme = rc_scheme (dt_context (pd_draft p)), fc_middleware = dt_middleware (pd_draft p),
      fc_domain = rc_domain (dt_context (pd_draft p)), fc_client_cert_pem = dt_client_cert_pem (pd_draft p)\<rparr>"

text \<open>The slots that are given back when the upstream has answered or failed.\<close>

definition release_slots :: "request_world \<Rightarrow> pending \<Rightarrow> proxy_server \<Rightarrow> proxy_server" where
  "release_slots x p s =
     add_in_flight (- 1) p
       (on_balancer (end_request (pd_route_key p) (up_url (pd_upstream p)) (of_nat (rx_elapsed x div 1000)))
         (s\<lparr>ps_policy := (ps_policy s)\<lparr>pe_in_flight_limits :=
             release_in_flight (pd_in_flight_key p) (pe_in_flight_limits (ps_policy s))\<rparr>\<rparr>))"

definition record_outcome :: "request_world \<Rightarrow> pending \<Rightarrow> u16 \<Rightarrow> bool \<Rightarrow> proxy_server \<Rightarrow> proxy_server" where
  "record_outcome x p status failed s =
     (let m = dt_matched (pd_draft p); mw = dt_middleware (pd_draft p); domain = rc_domain (dt_context (pd_draft p));
          (passive, st, timers) = record_passive_health (rx_now x) (em_passive_health mw) domain (pr_prefix (rm_path m))
             (up_url (pd_upstream p)) status failed (pe_passive_health (ps_policy s)) (ps_state s);
          (breakers, metrics) = record_circuit_result (rx_now x)
             \<lparr>cr_config = em_circuit_breaker mw, cr_route_id = rt_id (rm_route m), cr_path_prefix = pr_prefix (rm_path m),
              cr_domain = domain, cr_upstream = up_url (pd_upstream p), cr_status = status, cr_error = failed\<rparr>
             (pe_circuit_breakers (ps_policy s)) (es_metrics st)
      in s\<lparr>ps_state := st\<lparr>es_metrics := metrics\<rparr>,
           ps_policy := (ps_policy s)\<lparr>pe_passive_health := passive, pe_circuit_breakers := breakers\<rparr>,
           ps_timers := ps_timers s @ timers\<rparr>)"

definition observe_latency :: "request_world \<Rightarrow> pending \<Rightarrow> u16 \<Rightarrow> proxy_server \<Rightarrow> proxy_server" where
  "observe_latency x p status =
     on_metrics (\<lambda>m. m\<lparr>
       pm_upstream_latency_seconds :=
         (let ls = [rc_domain (dt_context (pd_draft p)), up_url (pd_upstream p)]; v = pm_upstream_latency_seconds m
          in hm_insert ls (hm_get_or v ls [] @ [as_secs_f64 (rx_elapsed x)]) v),
       pm_router_request_duration_seconds :=
         (let ls = in_flight_labels p @ [show_nat (unat status)]; v = pm_router_request_duration_seconds m
          in hm_insert ls (hm_get_or v ls [] @ [as_secs_f64 (rx_elapsed x)]) v)\<rparr>)"

text \<open>A response on its way to the client; one that the edge made itself has its body at hand.\<close>

definition local_response :: "http_response \<Rightarrow> streamed_response" where
  "local_response r = \<lparr>sp_status = rs_status r, sp_headers = rs_headers r, sp_frames = [FrameData (rs_body r)], sp_limit = None\<rparr>"

definition finish_response :: "proxy_world \<Rightarrow> request_world \<Rightarrow> streamed_response \<Rightarrow> streamed_response" where
  "finish_response w x r = r\<lparr>sp_headers := attach_request_id_header (px_hc w) (rx_request_id x) (sp_headers r)\<rparr>"

definition common_headers :: "proxy_world \<Rightarrow> pending \<Rightarrow> headers \<Rightarrow> headers" where
  "common_headers w p h =
     apply_default_cache_headers (rc_path (dt_context (pd_draft p)))
       (apply_response_rules (px_hc w) (px_order w) (rt_rules (rm_route (dt_matched (pd_draft p)))) (dt_origin (pd_draft p)) h)"

definition content_length_or_zero :: "http_crate \<Rightarrow> headers \<Rightarrow> u64" where
  "content_length_or_zero hc h = (case content_length hc h of Some n \<Rightarrow> n | None \<Rightarrow> 0)"

definition complete_streaming ::
    "proxy_world \<Rightarrow> request_world \<Rightarrow> pending \<Rightarrow> http_request \<Rightarrow> streamed_response \<Rightarrow> proxy_server \<Rightarrow> streamed_response \<times> proxy_server" where
  "complete_streaming w x p req r s =
     (let h = common_headers w p (sp_headers r);
          h = apply_sticky_cookie (px_hc w) (em_sticky_sessions (dt_middleware (pd_draft p))) (pd_upstream p) h;
          h = (if \<not> is_websocket_upgrade (px_hc w) (rq_headers req) \<or> sp_status r \<noteq> 101
               then strip_hop_by_hop_response_headers (px_hc w) h else h);
          s = record_outcome x p (sp_status r) False (release_slots x p s);
          s = observe_request w x (dt_context (pd_draft p)) (sp_status r) (Some (up_url (pd_upstream p)))
                (content_length_or_zero (px_hc w) (rq_headers req)) (content_length_or_zero (px_hc w) h) s
      in (finish_response w x (r\<lparr>sp_headers := h\<rparr>), observe_latency x p (sp_status r) s))"

definition complete_buffered ::
    "proxy_world \<Rightarrow> request_world \<Rightarrow> pending \<Rightarrow> buffered_request \<Rightarrow> buffered_response \<Rightarrow> proxy_server \<Rightarrow> streamed_response \<times> proxy_server" where
  "complete_buffered w x p request r s =
     (let mw = dt_middleware (pd_draft p);
          r = apply_response_middleware (px_hc w) (px_gzip w) mw (accepts_gzip (px_hc w) (dt_accept_encoding (pd_draft p)))
                (r\<lparr>bp_headers := common_headers w p (bp_headers r)\<rparr>);
          r = r\<lparr>bp_headers := apply_sticky_cookie (px_hc w) (em_sticky_sessions mw) (pd_upstream p) (bp_headers r)\<rparr>;
          s = record_outcome x p (bp_status r) False (release_slots x p s);
          s = observe_request w x (dt_context (pd_draft p)) (bp_status r) (Some (up_url (pd_upstream p)))
                (of_nat (length (br_body request))) (of_nat (length (bp_body r))) s
      in (finish_response w x (local_response (into_response (px_hc w) r)), observe_latency x p (bp_status r) s))"

definition complete_failed ::
    "proxy_world \<Rightarrow> request_world \<Rightarrow> pending \<Rightarrow> pxxl_error \<Rightarrow> proxy_server \<Rightarrow> streamed_response \<times> proxy_server" where
  "complete_failed w x p e s =
     (let ctx = dt_context (pd_draft p);
          s = observe_request w x ctx 502 (Some (up_url (pd_upstream p))) 0 0
                (record_outcome x p 502 True (release_slots x p s))
      in (finish_response w x (local_response
            (diagnostic_error_response w x s 502 (upstream_failure_reason e) (rc_domain ctx) (rc_path ctx))), s))"

definition count_retries :: "pending \<Rightarrow> string list \<Rightarrow> proxy_server \<Rightarrow> proxy_server" where
  "count_retries p kinds = on_metrics (\<lambda>m. m\<lparr>pm_retries_total :=
     fold (\<lambda>k. counter_inc [rc_domain (dt_context (pd_draft p)), up_url (pd_upstream p), k]) kinds (pm_retries_total m)\<rparr>)"

text \<open>The upstream, by the attempt for a buffered request.\<close>

record upstream_client =
  uc_stream :: "streamed_request \<Rightarrow> upstream_answer"
  uc_buffered :: "nat \<Rightarrow> outgoing \<Rightarrow> upstream_answer"

definition complete ::
    "proxy_world \<Rightarrow> request_world \<Rightarrow> upstream_client \<Rightarrow> pending \<Rightarrow> proxy_server \<Rightarrow> streamed_response \<times> proxy_server" where
  "complete w x client p s = (let x = x\<lparr>rx_request_id := rc_request_id (dt_context (pd_draft p))\<rparr> in
     (case pd_payload p of
        Streaming req \<Rightarrow>
          (case forward_streaming (px_forward w) (uc_stream client) req (forward_context_of p)
                  (request_body_limit (rt_rules (rm_route (dt_matched (pd_draft p)))) (dt_middleware (pd_draft p))) of
             Inr r \<Rightarrow> complete_streaming w x p req r s
           | Inl e \<Rightarrow> complete_failed w x p e s)
      | Buffered request \<Rightarrow>
          (let (result, retries) = forward_with_retry (px_forward w) (uc_buffered client) request (forward_context_of p);
               s = count_retries p retries s
           in case result of
                Inr r \<Rightarrow> complete_buffered w x p request r s
              | Inl e \<Rightarrow> complete_failed w x p e s)))"

text \<open>A request that nothing else interrupts.\<close>

definition handle ::
    "proxy_world \<Rightarrow> request_world \<Rightarrow> request_world \<Rightarrow> upstream_client \<Rightarrow> http_request \<Rightarrow> ip_addr option \<Rightarrow> request_scheme \<Rightarrow>
     string option \<Rightarrow> proxy_server \<Rightarrow> streamed_response \<times> proxy_server" where
  "handle w x x' client req peer_ip scheme client_cert_pem s =
     (case admit w x req peer_ip scheme client_cert_pem s of
        (Inl r, s) \<Rightarrow> (finish_response w x (local_response r), s)
      | (Inr p, s) \<Rightarrow> complete w x' client p s)"

end
