(* ===== verification/Proxy_Flow.thy ===== *)
theory Proxy_Flow
  imports Proxy_Server Step_Machines
begin

text \<open>
  What the request handler guarantees: which requests reach an upstream, that every request is
  observed once, and that the slots a request takes are given back, whatever the interleaving of
  requests, health timers and mirror tasks.
\<close>

section \<open>Stages\<close>

lemma stage_bind_Inr:
  "stage_bind m f s = (Inr y, t) \<longleftrightarrow> (\<exists>x s'. m s = (Inr x, s') \<and> f x s' = (Inr y, t))"
  by (auto simp: stage_bind_def split: prod.splits sum.splits)

text \<open>A stage that leaves a part of the state alone.\<close>

definition keeps :: "(proxy_server \<Rightarrow> 'b) \<Rightarrow> 'a stage \<Rightarrow> bool" where
  "keeps part m \<longleftrightarrow> (\<forall>s. part (snd (m s)) = part s)"

lemma keepsD: "keeps part m \<Longrightarrow> m s = (r, t) \<Longrightarrow> part t = part s"
  unfolding keeps_def by (metis snd_conv)

lemma keeps_bind: "keeps part m \<Longrightarrow> (\<And>x. keeps part (f x)) \<Longrightarrow> keeps part (stage_bind m f)"
  unfolding keeps_def stage_bind_def by (simp add: case_prod_unfold split: sum.split)

lemma keeps_pass [simp]: "keeps part (pass x)"
  by (simp add: keeps_def pass_def)

text \<open>The parts the properties below are about.\<close>

definition slots :: "proxy_server \<Rightarrow> gauge_vec \<times> (string, usize) hmap" where
  "slots s = (pm_upstream_in_flight (es_metrics (ps_state s)), pe_in_flight_limits (ps_policy s))"

definition serving_parts :: "proxy_server \<Rightarrow> route_table \<times> policy_enforcer" where
  "serving_parts s = (es_routes (ps_state s), ps_policy s)"

lemma update_parts [simp]:
  "slots (s\<lparr>ps_state := (ps_state s)\<lparr>es_security := sec\<rparr>\<rparr>) = slots s"
  "serving_parts (s\<lparr>ps_state := (ps_state s)\<lparr>es_security := sec\<rparr>\<rparr>) = serving_parts s"
  "slots (on_balancer f s) = slots s" "serving_parts (on_balancer f s) = serving_parts s"
  "slots (s\<lparr>ps_policy := (ps_policy s)\<lparr>pe_circuit_breakers := b\<rparr>\<rparr>) = slots s"
  "slots (s\<lparr>ps_policy := (ps_policy s)\<lparr>pe_digest_replays := r\<rparr>\<rparr>) = slots s"
  "slots (s\<lparr>ps_mirrors := ms\<rparr>) = slots s"
  by (simp_all add: slots_def serving_parts_def on_balancer_def)

lemma observe_address_parts [simp]:
  "pm_upstream_in_flight (es_metrics (observe_address w x ctx status ip st)) = pm_upstream_in_flight (es_metrics st)"
  "pm_requests_total (es_metrics (observe_address w x ctx status ip st)) = pm_requests_total (es_metrics st)"
  "es_routes (observe_address w x ctx status ip st) = es_routes st"
  "es_load_balancer (observe_address w x ctx status ip st) = es_load_balancer st"
  by (simp_all add: observe_address_def Let_def split: prod.split option.split)

lemma observe_request_parts [simp]:
  "slots (observe_request w x ctx status u a b s) = slots s"
  "serving_parts (observe_request w x ctx status u a b s) = serving_parts s"
  "ps_policy (observe_request w x ctx status u a b s) = ps_policy s"
  by (simp_all add: observe_request_def slots_def serving_parts_def on_metrics_def Let_def split: option.split)

lemma answer_keeps [simp]: "keeps slots (answer w x ctx r)" "keeps serving_parts (answer w x ctx r)"
  by (simp_all add: keeps_def answer_def)

lemma refuse_keeps [simp]: "keeps slots (refuse w x ctx st msg)" "keeps serving_parts (refuse w x ctx st msg)"
  by (simp_all add: keeps_def refuse_def answer_def)

lemma refuse_with_reason_keeps [simp]:
  "keeps slots (refuse_with_reason w x ctx st reason)" "keeps serving_parts (refuse_with_reason w x ctx st reason)"
  by (simp_all add: keeps_def refuse_with_reason_def answer_def)

lemma answers_snd [simp]:
  "slots (snd (answer w x ctx r s)) = slots s" "serving_parts (snd (answer w x ctx r s)) = serving_parts s"
  "slots (snd (refuse w x ctx st msg s)) = slots s" "serving_parts (snd (refuse w x ctx st msg s)) = serving_parts s"
  "slots (snd (refuse_with_reason w x ctx st reason s)) = slots s"
  "serving_parts (snd (refuse_with_reason w x ctx st reason s)) = serving_parts s"
  by (simp_all add: answer_def refuse_def refuse_with_reason_def)

lemma answers_Inl [simp]:
  "fst (answer w x ctx r s) \<noteq> Inr y" "answer w x ctx r s \<noteq> (Inr y, t)" "refuse w x ctx st msg s \<noteq> (Inr y, t)"
  "refuse_with_reason w x ctx st reason s \<noteq> (Inr y, t)"
  by (simp_all add: answer_def refuse_def refuse_with_reason_def)

lemma counts_keep [simp]:
  "slots (count_blocked d r s) = slots s" "serving_parts (count_blocked d r s) = serving_parts s"
  "slots (count_rate_limited d s) = slots s" "serving_parts (count_rate_limited d s) = serving_parts s"
  "slots (count_middleware d k r s) = slots s" "serving_parts (count_middleware d k r s) = serving_parts s"
  "slots (count_rejection ctx j s) = slots s" "serving_parts (count_rejection ctx j s) = serving_parts s"
  by (simp_all add: count_blocked_def count_rate_limited_def count_middleware_def count_rejection_def on_metrics_def
      slots_def serving_parts_def)

lemma read_request_keeps: "keeps slots (read_request w x req peer scheme)" "keeps serving_parts (read_request w x req peer scheme)"
  by (simp_all add: keeps_def read_request_def Let_def split: sum.split option.split)

lemma acme_stage_keeps: "keeps slots (acme_stage w x ctx)" "keeps serving_parts (acme_stage w x ctx)"
  by (simp_all add: acme_stage_def split: option.split)

lemma security_stage_keeps: "keeps slots (security_stage w x ctx)" "keeps serving_parts (security_stage w x ctx)"
  by (simp_all add: keeps_def security_stage_def Let_def split: prod.split option.split security_decision.split)

lemma route_stage_keeps: "keeps slots (route_stage w x host ctx)" "keeps serving_parts (route_stage w x host ctx)"
  by (simp_all add: keeps_def route_stage_def split: option.split)

lemma www_redirect_keeps: "keeps slots (www_redirect_stage w x req ctx m)" "keeps serving_parts (www_redirect_stage w x req ctx m)"
  by (simp_all add: www_redirect_stage_def)

lemma evaluate_limits:
  "pe_in_flight_limits (snd (evaluate hc contains log2 now req rules ctx pe)) = pe_in_flight_limits pe"
  by (simp add: evaluate_def rate_check_def Let_def split: option.split prod.split)

lemma policy_stage_keeps: "keeps slots (policy_stage w x req ctx m)"
proof -
  have "slots (s\<lparr>ps_policy := pe\<rparr>) = slots s" if "pe_in_flight_limits pe = pe_in_flight_limits (ps_policy s)" for s pe
    using that by (simp add: slots_def)
  then show ?thesis
    using evaluate_limits
    by (simp add: keeps_def policy_stage_def Let_def case_prod_unfold split: option.split)
qed

lemma bandwidth_stage_keeps: "keeps slots (bandwidth_stage w x ctx m)" "keeps serving_parts (bandwidth_stage w x ctx m)"
  by (simp_all add: keeps_def bandwidth_stage_def split: option.split)

lemma basic_auth_keeps: "keeps slots (basic_auth_stage w x req ctx mw)" "keeps serving_parts (basic_auth_stage w x req ctx mw)"
  by (simp_all add: keeps_def basic_auth_stage_def split: option.split)

lemma digest_passes_slots: "slots (snd (digest_passes w x req ctx config s)) = slots s"
  by (simp add: digest_passes_def case_prod_unfold Let_def split: option.split)

lemma digest_auth_keeps: "keeps slots (digest_auth_stage w x req ctx mw)"
  by (simp add: keeps_def digest_auth_stage_def case_prod_unfold Let_def digest_passes_slots split: option.split)

lemma forward_auth_keeps: "keeps slots (forward_auth_stage w x req ctx m mw)" "keeps serving_parts (forward_auth_stage w x req ctx m mw)"
  by (simp_all add: keeps_def forward_auth_stage_def split: option.split sum.split bool.split)

lemma auth_stages_keep: "keeps slots (auth_stages w x req ctx m mw)"
  unfolding auth_stages_def by (intro keeps_bind basic_auth_keeps digest_auth_keeps forward_auth_keeps)

lemma mirror_request_slots [simp]: "slots (mirror_request request m mirror domain s) = slots s"
  by (simp add: mirror_request_def)

lemma select_upstream_pool_slots [simp]: "slots (snd (select_upstream_pool key m loc s)) = slots s"
  by (simp add: select_upstream_pool_def case_prod_unfold Let_def split: option.split)

lemma balance_slots [simp]: "slots (snd (balance w now key m backup ups ip s)) = slots s"
  by (simp add: balance_def case_prod_unfold Let_def)

lemma sticky_choice_slots [simp]: "slots (snd (sticky_choice w now m ups h mw s)) = slots s"
  by (simp add: sticky_choice_def case_prod_unfold Let_def split: option.split)

lemma select_available_slots [simp]: "slots (snd (select_available_upstream w now key m ups ip h mw s)) = slots s"
  by (simp add: select_available_upstream_def case_prod_unfold Let_def split: option.split)

section \<open>Slots\<close>

text \<open>The gauge and the limits count the requests that wait for an upstream.\<close>

definition waiting_on :: "('k \<Rightarrow> pending \<Rightarrow> bool) \<Rightarrow> pending list \<Rightarrow> 'k \<Rightarrow> nat" where
  "waiting_on P ps k = length (filter (P k) ps)"

definition with_labels :: "string list \<Rightarrow> pending \<Rightarrow> bool" where
  "with_labels ls p \<longleftrightarrow> in_flight_labels p = ls"

definition with_key :: "string \<Rightarrow> pending \<Rightarrow> bool" where
  "with_key k p \<longleftrightarrow> pd_in_flight_key p = Some k"

definition slots_exact :: "gauge_vec \<times> (string, usize) hmap \<Rightarrow> pending list \<Rightarrow> bool" where
  "slots_exact sl ps \<longleftrightarrow>
     (\<forall>ls. gauge_get (fst sl) ls = int (waiting_on with_labels ps ls)) \<and>
     (\<forall>k. unat (hm_get_or (snd sl) k 0) = waiting_on with_key ps k)"

lemma waiting_on_Cons [simp]: "waiting_on P (p # ps) k = (if P k p then 1 else 0) + waiting_on P ps k"
  by (simp add: waiting_on_def)

lemma waiting_on_remove1: "p \<in> set ps \<Longrightarrow> waiting_on P ps k = (if P k p then 1 else 0) + waiting_on P (remove1 p ps) k"
  by (induction ps) (auto simp: waiting_on_def)

lemma gauge_add_get: "gauge_get (gauge_add ls n v) ls' = (if ls' = ls then gauge_get v ls + n else gauge_get v ls')"
  by (simp add: gauge_get_def gauge_add_def hm_get_or_def hm.get_put)

lemma acquired_count:
  assumes "try_acquire_in_flight limit m u limits = (Inr key, limits')"
  shows "unat (hm_get_or limits' k 0) = (if key = Some k then 1 else 0) + unat (hm_get_or limits k 0)"
proof (cases "ifl_enabled limit \<and> ifl_max limit \<noteq> None")
  case False
  with assms show ?thesis by (auto simp: try_acquire_in_flight_def split: if_splits option.splits)
next
  case True
  then obtain mx where mx: "ifl_max limit = Some mx" by auto
  define key' where "key' = fst (in_flight_key limit m u)"
  define current where "current = hm_get_or limits key' 0"
  have below: "\<not> ucast mx \<le> current" and res: "key = Some key'" "limits' = hm_insert key' (current + 1) limits"
    using assms True mx unfolding try_acquire_in_flight_def key'_def current_def
    by (auto simp: case_prod_unfold Let_def split: if_splits)
  have "unat current < unat (ucast mx :: usize)" using below by (simp add: word_le_nat_alt)
  moreover have "unat (ucast mx :: usize) < 2 ^ 64" using unsigned_less [of "ucast mx :: usize"] by simp
  ultimately have "unat (current + 1) = unat current + 1"
    by (simp add: unat_word_ariths)
  with res show ?thesis by (auto simp: hm_get_or_def hm.get_put current_def)
qed

lemma refused_count:
  assumes "try_acquire_in_flight limit m u limits = (Inl scope, limits')"
  shows "hm_get_or limits' k 0 = hm_get_or limits k 0"
  using assms by (auto simp: try_acquire_in_flight_def case_prod_unfold Let_def hm_get_or_def hm.get_put split: if_splits option.splits)

lemma released_count:
  assumes "key = Some k \<Longrightarrow> 0 < unat (hm_get_or limits k 0)"
  shows "unat (hm_get_or limits k 0) = (if key = Some k then 1 else 0) + unat (hm_get_or (release_in_flight key limits) k 0)"
  using assms by (cases key) (auto simp: release_in_flight_def hm_get_or_def hm.get_put unat_sat_sub split: option.splits)

text \<open>Taking an upstream adds the request, and refusing changes no count.\<close>

lemma add_in_flight_slots [simp]:
  "slots (add_in_flight n p s) = (gauge_add (in_flight_labels p) n (fst (slots s)), snd (slots s))"
  by (simp add: add_in_flight_def slots_def on_metrics_def)

lemma limits_slots [simp]:
  "slots (s\<lparr>ps_policy := (ps_policy s)\<lparr>pe_in_flight_limits := l\<rparr>\<rparr>) = (fst (slots s), l)"
  "slots (on_metrics (\<lambda>m. m\<lparr>pm_in_flight_limited_total := f m\<rparr>) s) = slots s"
  by (simp_all add: slots_def on_metrics_def)

lemma snd_slots: "snd (slots s) = pe_in_flight_limits (ps_policy s)"
  by (simp add: slots_def)

lemma take_upstream_slots:
  assumes "take_upstream w x key ups h d pl s = (r, t)" and "slots_exact (slots s) ps"
  shows "case r of Inl _ \<Rightarrow> slots_exact (slots t) ps | Inr p \<Rightarrow> slots_exact (slots t) (p # ps)"
proof -
  define chosen where "chosen = select_available_upstream w (rx_now x) key (dt_matched d) ups
    (rc_remote_ip (dt_context d)) h (dt_middleware d) s"
  have s1: "slots (snd chosen) = slots s" unfolding chosen_def by simp
  show ?thesis
  proof (cases "fst chosen")
    case None
    then show ?thesis using assms s1 unfolding take_upstream_def Let_def chosen_def [symmetric]
      by (auto simp: case_prod_unfold Let_def refuse_with_reason_def answer_def)
  next
    case (Some u)
    define got where "got = try_acquire_in_flight (em_in_flight_limit (dt_middleware d)) (dt_matched d) u
      (pe_in_flight_limits (ps_policy (snd chosen)))"
    have limits: "pe_in_flight_limits (ps_policy (snd chosen)) = snd (slots s)" using s1 snd_slots by metis
    show ?thesis
    proof (cases "fst got")
      case (Inl scope)
      then have "try_acquire_in_flight (em_in_flight_limit (dt_middleware d)) (dt_matched d) u (snd (slots s)) = (Inl scope, snd got)"
        unfolding limits [symmetric] got_def [symmetric] by (metis prod.collapse)
      note same = refused_count [OF this]
      have "\<exists>e. r = Inl e \<and> slots t = (fst (slots s), snd got)"
        using assms(1) Some Inl s1 unfolding take_upstream_def Let_def chosen_def [symmetric]
        by (auto simp: case_prod_unfold Let_def refuse_def answer_def got_def [symmetric])
      with same assms(2) show ?thesis by (auto simp: slots_exact_def)
    next
      case (Inr k)
      then have "try_acquire_in_flight (em_in_flight_limit (dt_middleware d)) (dt_matched d) u (snd (slots s)) = (Inr k, snd got)"
        unfolding limits [symmetric] got_def [symmetric] by (metis prod.collapse)
      note more = acquired_count [OF this]
      define p where "p = \<lparr>pd_draft = d, pd_payload = pl, pd_upstream = u, pd_route_key = key, pd_in_flight_key = k\<rparr>"
      have "r = Inr p \<and> slots t = (gauge_add (in_flight_labels p) 1 (fst (slots s)), snd got)"
        using assms(1) Some Inr s1 unfolding take_upstream_def Let_def chosen_def [symmetric]
        by (auto simp: case_prod_unfold Let_def got_def [symmetric] p_def)
      with more assms(2) show ?thesis
        by (auto simp: slots_exact_def gauge_add_get with_labels_def with_key_def p_def)
    qed
  qed
qed

text \<open>A stage that takes slots only for the request it passes on.\<close>

definition takes :: "pending stage \<Rightarrow> bool" where
  "takes m \<longleftrightarrow> (\<forall>s r t ps. m s = (r, t) \<longrightarrow> slots_exact (slots s) ps \<longrightarrow>
     (case r of Inl _ \<Rightarrow> slots_exact (slots t) ps | Inr p \<Rightarrow> slots_exact (slots t) (p # ps)))"

lemma takes_bind:
  assumes "keeps slots m" and "\<And>y. takes (f y)"
  shows "takes (stage_bind m f)"
  unfolding takes_def
proof (intro allI impI)
  fix s r t ps
  assume run: "stage_bind m f s = (r, t)" and exact: "slots_exact (slots s) ps"
  obtain r1 s1 where first: "m s = (r1, s1)" by fastforce
  have same: "slots s1 = slots s" using keepsD [OF assms(1) first] .
  show "case r of Inl _ \<Rightarrow> slots_exact (slots t) ps | Inr p \<Rightarrow> slots_exact (slots t) (p # ps)"
  proof (cases r1)
    case (Inl a)
    then show ?thesis using run first same exact by (auto simp: stage_bind_def)
  next
    case (Inr y)
    then have "f y s1 = (r, t)" using run first by (simp add: stage_bind_def)
    then show ?thesis using assms(2) [of y] same exact unfolding takes_def by metis
  qed
qed

lemma takes_if: "takes m \<Longrightarrow> takes n \<Longrightarrow> takes (if b then m else n)"
  by simp

lemma streaming_takes: "takes (streaming_stage w x req d)"
  unfolding takes_def
proof (intro allI impI)
  fix s r t ps
  assume run: "streaming_stage w x req d s = (r, t)" and exact: "slots_exact (slots s) ps"
  define pool where "pool = select_upstream_pool (base_route_key (dt_matched d)) (dt_matched d) (rc_location (dt_context d)) s"
  have "slots_exact (slots (snd pool)) ps" using exact by (simp add: pool_def)
  from take_upstream_slots [OF _ this] run
  show "case r of Inl _ \<Rightarrow> slots_exact (slots t) ps | Inr p \<Rightarrow> slots_exact (slots t) (p # ps)"
    unfolding streaming_stage_def Let_def pool_def [symmetric] by (auto simp: case_prod_unfold)
qed

lemma buffering_takes: "takes (buffering_stage w x req d)"
  unfolding takes_def
proof (intro allI impI)
  fix s r t ps
  assume run: "buffering_stage w x req d s = (r, t)" and exact: "slots_exact (slots s) ps"
  define pool where "pool = select_upstream_pool (base_route_key (dt_matched d)) (dt_matched d) (rc_location (dt_context d)) s"
  have "slots_exact (slots (mirror_request q m c dm (snd pool))) ps" for q m c dm using exact by (simp add: pool_def)
  note taken = take_upstream_slots [OF _ this]
  show "case r of Inl _ \<Rightarrow> slots_exact (slots t) ps | Inr p \<Rightarrow> slots_exact (slots t) (p # ps)"
  proof (cases "from_request req (request_body_limit (rt_rules (rm_route (dt_matched d))) (dt_middleware d))")
    case (Inl e)
    then show ?thesis using run exact
      by (cases e) (auto simp: buffering_stage_def Let_def refuse_def answer_def)
  next
    case (Inr request)
    then show ?thesis using run taken
      unfolding buffering_stage_def Let_def pool_def [symmetric] by (auto simp: case_prod_unfold)
  qed
qed

lemma admit_takes: "takes (admit w x req peer_ip scheme cert)"
  unfolding admit_def Let_def case_prod_unfold
  by (intro takes_bind takes_if streaming_takes buffering_takes read_request_keeps acme_stage_keeps security_stage_keeps
      route_stage_keeps www_redirect_keeps policy_stage_keeps bandwidth_stage_keeps auth_stages_keep)

lemma passive_health_gauge:
  "pm_upstream_in_flight (es_metrics (fst (snd (record_passive_health now c d p u status err passive st)))) =
   pm_upstream_in_flight (es_metrics st)"
  by (simp add: record_passive_health_def mark_unhealthy_def count_passive_event_def edge_set_route_upstream_health_def
      set_health_gauge_def Let_def case_prod_unfold)

lemma circuit_result_gauge:
  "pm_upstream_in_flight (snd (record_circuit_result now r b m)) = pm_upstream_in_flight m"
  by (simp add: record_circuit_result_def Let_def)

lemma record_outcome_slots [simp]: "slots (record_outcome x p status failed s) = slots s"
  by (simp add: record_outcome_def slots_def case_prod_unfold Let_def passive_health_gauge circuit_result_gauge)

lemma observe_latency_slots [simp]: "slots (observe_latency x p status s) = slots s"
  by (simp add: observe_latency_def slots_def on_metrics_def)

lemma count_retries_slots [simp]: "slots (count_retries p kinds s) = slots s"
  by (simp add: count_retries_def slots_def on_metrics_def)

lemma complete_slots: "slots (snd (complete w x client p s)) = slots (release_slots x p s)"
proof -
  have same: "slots (release_slots x p (count_retries p kinds s)) = slots (release_slots x p s)" for kinds
    by (simp add: release_slots_def flip: snd_slots)
  have id: "release_slots (x\<lparr>rx_request_id := i\<rparr>) p = release_slots x p" for i
    by (simp add: release_slots_def fun_eq_iff)
  show ?thesis
    by (simp add: complete_def complete_streaming_def complete_buffered_def complete_failed_def Let_def case_prod_unfold same id
        split: payload.split sum.split)
qed

lemma complete_gives_back:
  assumes "slots_exact (slots s) ps" and "p \<in> set ps"
  shows "slots_exact (slots (snd (complete w x client p s))) (remove1 p ps)"
proof -
  have "0 < unat (hm_get_or (snd (slots s)) k 0)" if "pd_in_flight_key p = Some k" for k
    using assms waiting_on_remove1 [OF assms(2), of with_key k] that by (simp add: slots_exact_def with_key_def)
  from released_count [OF this] have
    "unat (hm_get_or (snd (slots s)) k 0) =
      (if pd_in_flight_key p = Some k then 1 else 0) + unat (hm_get_or (release_in_flight (pd_in_flight_key p) (snd (slots s))) k 0)"
    for k by blast
  moreover have "slots (release_slots x p s) =
      (gauge_add (in_flight_labels p) (- 1) (fst (slots s)), release_in_flight (pd_in_flight_key p) (snd (slots s)))"
    by (simp add: release_slots_def flip: snd_slots)
  ultimately show ?thesis
    using assms(1) waiting_on_remove1 [OF assms(2), of with_labels] waiting_on_remove1 [OF assms(2), of with_key]
    unfolding complete_slots by (simp add: slots_exact_def gauge_add_get with_labels_def with_key_def)
qed

section \<open>Interleaved requests\<close>

text \<open>
  The process and the requests that wait for an upstream. Requests arrive and are answered, upstreams
  answer in any order, health timers fire, mirror tasks run, and the routing table changes.
\<close>

inductive proxy_step ::
    "proxy_world \<Rightarrow> proxy_server \<times> pending list \<Rightarrow> proxy_server \<times> pending list \<Rightarrow> bool" for w where
  request_answered: "admit w x req peer_ip scheme cert s = (Inl r, t) \<Longrightarrow> proxy_step w (s, ps) (t, ps)"
| request_waits: "admit w x req peer_ip scheme cert s = (Inr p, t) \<Longrightarrow> proxy_step w (s, ps) (t, p # ps)"
| upstream_answers: "p \<in> set ps \<Longrightarrow> complete w x client p s = (r, t) \<Longrightarrow> proxy_step w (s, ps) (t, remove1 p ps)"
| timer_fires: "tm \<in> set (ps_timers s) \<Longrightarrow>
    proxy_step w (s, ps) (s\<lparr>ps_state := fire_timer tm (ps_state s), ps_timers := remove1 tm (ps_timers s)\<rparr>, ps)"
| mirror_runs: "job \<in> set (ps_mirrors s) \<Longrightarrow> proxy_step w (s, ps) (run_mirror w client_b job s, ps)"
| routes_change: "proxy_step w (s, ps) (s\<lparr>ps_state := edge_apply op (ps_state s)\<rparr>, ps)"

inductive_cases proxy_stepE: "proxy_step w (s, ps) (t, qs)"

inductive proxy_reachable :: "proxy_world \<Rightarrow> proxy_server \<Rightarrow> proxy_server \<times> pending list \<Rightarrow> bool" for w s0 where
  proxy_start: "proxy_reachable w s0 (s0, [])"
| proxy_next: "proxy_reachable w s0 m \<Longrightarrow> proxy_step w m n \<Longrightarrow> proxy_reachable w s0 n"

definition server_at_start ::
    "(string \<Rightarrow> ip_net option) \<Rightarrow> (string \<Rightarrow> string option) \<Rightarrow> route_table \<Rightarrow> security_engine \<Rightarrow> error_page_renderer \<Rightarrow>
     geo_ip_resolver \<Rightarrow> string \<times> string \<Rightarrow> proxy_server" where
  "server_at_start net_parse env routes sec pages geoip uuids =
     new_proxy_server net_parse env (new_edge_state routes sec new_load_balancer new_metrics) pages
       (default_policy_enforcer (fst uuids) (snd uuids)) geoip"

lemma edge_apply_gauge: "pm_upstream_in_flight (es_metrics (edge_apply op st)) = pm_upstream_in_flight (es_metrics st)"
proof -
  have "pm_upstream_in_flight (es_metrics (fold (\<lambda>(u, h). set_health_gauge u h) health st)) = pm_upstream_in_flight (es_metrics st)"
    for health :: "(string, bool) hmap" and st
    by (induction health arbitrary: st) (auto simp: set_health_gauge_def)
  moreover have "pm_upstream_in_flight (es_metrics (fold (\<lambda>upd. set_health_gauge (f upd) (g upd)) upds st)) =
      pm_upstream_in_flight (es_metrics st)" for upds :: "route_upstream_health list" and f g st
    by (induction upds arbitrary: st) (auto simp: set_health_gauge_def)
  ultimately show ?thesis
    by (cases op) (auto simp: edge_set_route_upstream_health_many_def replace_routes_from_source_def refresh_metrics_def refresh_route_metrics_def edge_upsert_api_route_def
        edge_delete_api_domain_def edge_set_upstream_health_def edge_set_single_upstream_health_def
        edge_set_route_upstream_health_def set_health_gauge_def case_prod_unfold Let_def)
qed

lemma step_slots_exact:
  assumes "proxy_step w m n" and "slots_exact (slots (fst m)) (snd m)"
  shows "slots_exact (slots (fst n)) (snd n)"
  using assms(1)
proof cases
  case (request_answered x req peer_ip scheme cert s r t ps)
  then show ?thesis using admit_takes assms(2) unfolding takes_def by fastforce
next
  case (request_waits x req peer_ip scheme cert s p t ps)
  then show ?thesis using admit_takes assms(2) unfolding takes_def by fastforce
next
  case (upstream_answers p ps x client s r t)
  then show ?thesis using complete_gives_back [of s ps p w x client] assms(2) by simp
next
  case (timer_fires tm s ps)
  then show ?thesis using assms(2)
    by (simp add: slots_def fire_timer_def edge_set_route_upstream_health_def set_health_gauge_def)
next
  case (mirror_runs job s client_b ps)
  then show ?thesis using assms(2) by (simp add: slots_def run_mirror_def on_metrics_def Let_def)
next
  case (routes_change s ps op)
  then show ?thesis using assms(2) by (simp add: slots_def edge_apply_gauge)
qed

lemma start_slots: "slots (server_at_start net_parse env routes sec pages geoip uuids) = ([], [])"
  by (simp add: server_at_start_def new_proxy_server_def slots_def new_edge_state_def new_with_stats_sink_def
      refresh_route_metrics_def new_metrics_def default_policy_enforcer_def)

section \<open>What a request has passed\<close>

lemma read_request_Inr:
  assumes "read_request w x req peer_ip scheme s = (Inr (host, ctx), t)"
  shows "t = s" "canonicalize_path (uri_path (rq_uri req)) = Inr (rc_path ctx)"
    "requested_host (px_hc w) req = Some host" "rc_domain ctx = normalize_domain host"
    "rc_remote_ip ctx = resolve_effective_client_ip (px_hc w) (px_contains w) (rq_headers req) peer_ip (ps_trusted_client_ip s)"
  using assms by (auto simp: read_request_def Let_def unknown_context_def split: sum.splits option.splits)

lemma acme_Inr: "acme_stage w x ctx s = (Inr y, t) \<Longrightarrow> t = s"
  by (auto simp: acme_stage_def pass_def split: option.splits)

lemma security_Inr:
  assumes "security_stage w x ctx s = (Inr y, t)" and "rc_remote_ip ctx = Some ip"
  shows "fst (security_check (px_contains w) (rx_environ x) (rc_domain ctx) ip (es_security (ps_state s))) = Allowed"
  using assms by (auto simp: security_stage_def Let_def split: prod.splits option.splits security_decision.splits)

lemma route_Inr: "route_stage w x host ctx s = (Inr m, t) \<Longrightarrow> t = s \<and> find_route host (rc_path ctx) (es_routes (ps_state s)) = Some m"
  by (auto simp: route_stage_def split: option.splits)

lemma www_redirect_Inr: "www_redirect_stage w x req ctx m s = (Inr y, t) \<Longrightarrow> t = s"
  by (auto simp: www_redirect_stage_def pass_def split: if_splits)

lemma policy_Inr:
  assumes "policy_stage w x req ctx m s = (Inr y, t)"
  shows "fst (evaluate (px_hc w) (px_contains w) (px_log2 w) (rx_now x) req (rt_rules (rm_route m)) ctx (ps_policy s)) = None"
    "t = s\<lparr>ps_policy := snd (evaluate (px_hc w) (px_contains w) (px_log2 w) (rx_now x) req (rt_rules (rm_route m)) ctx (ps_policy s))\<rparr>"
  using assms by (auto simp: policy_stage_def Let_def split: prod.splits option.splits)

lemma bandwidth_Inr: "bandwidth_stage w x ctx m s = (Inr y, t) \<Longrightarrow> t = s"
  by (auto simp: bandwidth_stage_def split: option.splits if_splits)

lemma basic_auth_Inr:
  assumes "basic_auth_stage w x req ctx mw s = (Inr y, t)" and "em_basic_auth mw = Some c" and "ba_enabled c"
  shows "basic_authorized (px_hc w) (px_base64 w) (rq_headers req) c"
  using assms by (auto simp: basic_auth_stage_def evaluate_basic_auth_def split: if_splits)

lemma digest_auth_Inr:
  assumes "digest_auth_stage w x req ctx mw s = (Inr y, t)" and "em_digest_auth mw = Some c" and "da_enabled c"
  shows "fst (digest_passes w x req ctx c s)"
  using assms by (auto simp: digest_auth_stage_def Let_def split: prod.splits if_splits)

lemma forward_auth_Inr:
  assumes "forward_auth_stage w x req ctx m mw s = (Inr y, t)" and "em_forward_auth mw = Some c"
  shows "run_forward_auth w x req c (rt_source (rm_route m)) = Inr True"
  using assms by (auto simp: forward_auth_stage_def split: sum.splits bool.splits)

text \<open>Only the digest replays and the breakers of the policy matter after it has been evaluated.\<close>

lemma evaluate_keeps:
  "pe_digest_secret (snd (evaluate hc contains log2 now req rules ctx pe)) = pe_digest_secret pe"
  "pe_digest_replays (snd (evaluate hc contains log2 now req rules ctx pe)) = pe_digest_replays pe"
  "pe_circuit_breakers (snd (evaluate hc contains log2 now req rules ctx pe)) = pe_circuit_breakers pe"
  by (simp_all add: evaluate_def rate_check_def Let_def split: option.split prod.split)

lemma digest_passes_cong:
  assumes "pe_digest_secret (ps_policy s) = pe_digest_secret (ps_policy t)"
    and "pe_digest_replays (ps_policy s) = pe_digest_replays (ps_policy t)"
  shows "fst (digest_passes w x req ctx c s) = fst (digest_passes w x req ctx c t)"
  using assms by (simp add: digest_passes_def digest_check_of_def case_prod_unfold Let_def split: option.split)

section \<open>What the chosen upstream is\<close>

abbreviation circuit_open_for :: "instant \<Rightarrow> route_match \<Rightarrow> upstream \<Rightarrow> circuit_breakers \<Rightarrow> bool" where
  "circuit_open_for now m u b \<equiv> fst (circuit_is_open now (rt_id (rm_route m)) (pr_prefix (rm_path m)) (up_url u) b)"

lemma asking_changes_nothing:
  "fst (circuit_is_open now r p u (snd (circuit_is_open now r' p' u' b))) = fst (circuit_is_open now r p u b)"
  by (auto simp: circuit_is_open_def Let_def hm.get_put split: option.splits if_splits)

lemma available_upstreams_asks:
  "fst (circuit_is_open now r p u (snd (available_upstreams now m backup ups b))) = fst (circuit_is_open now r p u b)"
  by (induction ups arbitrary: b) (simp_all add: case_prod_unfold Let_def asking_changes_nothing)

lemma available_upstreams_in:
  "v \<in> set (fst (available_upstreams now m backup ups b)) \<Longrightarrow>
   v \<in> set ups \<and> up_healthy v \<and> \<not> circuit_open_for now m v b"
proof (induction ups arbitrary: b)
  case (Cons u us)
  let ?b = "snd (circuit_is_open now (rt_id (rm_route m)) (pr_prefix (rm_path m)) (up_url u) b)"
  have "circuit_open_for now m v ?b = circuit_open_for now m v b" by (rule asking_changes_nothing)
  with Cons.IH [of ?b] Cons.IH [of b] Cons.prems show ?case
    by (auto simp: case_prod_unfold Let_def split: if_splits)
qed simp

lemma select_in: "fst (select hash k alg ups ip lb) = Some u \<Longrightarrow> u \<in> set ups"
  using select_cases [of ups alg ip hash k lb] by (cases "filter up_healthy ups = [] \<or> alg = IpHash \<and> ip = None")
    (auto simp: select_def Let_def split: if_splits)

lemma balance_in:
  "fst (balance w now key m backup ups ip s) = Some u \<Longrightarrow>
   u \<in> set ups \<and> up_healthy u \<and> \<not> circuit_open_for now m u (pe_circuit_breakers (ps_policy s))"
  unfolding balance_def Let_def case_prod_unfold
  by (auto dest!: select_in available_upstreams_in)

lemma balance_breakers:
  "fst (circuit_is_open now r p u (pe_circuit_breakers (ps_policy (snd (balance w now key m backup ups ip s))))) =
   fst (circuit_is_open now r p u (pe_circuit_breakers (ps_policy s)))"
  by (simp add: balance_def Let_def case_prod_unfold on_balancer_def available_upstreams_asks)

lemma sticky_choice_in:
  "fst (sticky_choice w now m ups h mw s) = Some u \<Longrightarrow>
   u \<in> set ups \<and> up_healthy u \<and> \<not> circuit_open_for now m u (pe_circuit_breakers (ps_policy s))"
  unfolding sticky_choice_def sticky_upstream_def Let_def case_prod_unfold
  by (auto split: option.splits if_splits bind_splits simp: find_Some_iff)

lemma sticky_choice_breakers:
  "fst (circuit_is_open now r p u (pe_circuit_breakers (ps_policy (snd (sticky_choice w now m ups h mw s))))) =
   fst (circuit_is_open now r p u (pe_circuit_breakers (ps_policy s)))"
  by (simp add: sticky_choice_def Let_def case_prod_unfold asking_changes_nothing split: option.split)

lemma select_available_in:
  assumes "fst (select_available_upstream w now key m ups ip h mw s) = Some u"
  shows "u \<in> set ups \<and> up_healthy u \<and> \<not> circuit_open_for now m u (pe_circuit_breakers (ps_policy s))"
proof -
  define s1 where "s1 = snd (sticky_choice w now m ups h mw s)"
  define s2 where "s2 = snd (balance w now key m False ups ip s1)"
  have "fst (sticky_choice w now m ups h mw s) = Some u \<or> fst (balance w now key m False ups ip s1) = Some u \<or>
      fst (balance w now key m True ups ip s2) = Some u"
    using assms unfolding select_available_upstream_def s1_def s2_def
    by (auto simp: Let_def case_prod_unfold split: option.splits)
  then show ?thesis
    using sticky_choice_in [of w now m ups h mw s u] balance_in [of w now key m False ups ip s1 u]
      balance_in [of w now key m True ups ip s2 u] balance_breakers sticky_choice_breakers
    unfolding s2_def s1_def by metis
qed

lemma take_upstream_Inr:
  assumes "take_upstream w x key ups h d pl s = (Inr p, t)"
  shows "pd_draft p = d" "pd_upstream p \<in> set ups" "up_healthy (pd_upstream p)"
    "\<not> circuit_open_for (rx_now x) (dt_matched d) (pd_upstream p) (pe_circuit_breakers (ps_policy s))"
proof -
  have "pd_draft p = d \<and> fst (select_available_upstream w (rx_now x) key (dt_matched d) ups (rc_remote_ip (dt_context d)) h
      (dt_middleware d) s) = Some (pd_upstream p)"
    using assms unfolding take_upstream_def Let_def
    by (auto simp: case_prod_unfold split: option.splits sum.splits)
  then show "pd_draft p = d" "pd_upstream p \<in> set ups" "up_healthy (pd_upstream p)"
    "\<not> circuit_open_for (rx_now x) (dt_matched d) (pd_upstream p) (pe_circuit_breakers (ps_policy s))"
    using select_available_in by auto
qed

text \<open>The pools that a route offers for a location.\<close>

definition pools :: "route_match \<Rightarrow> geo_location \<Rightarrow> upstream list set" where
  "pools m loc =
     {pr_upstreams (rm_path m)} \<union> ts_upstreams ` set (matching_traffic_splits (rt_rules (rm_route m)) loc) \<union>
     snd ` set_option (location_upstreams (rt_rules (rm_route m)) loc)"

lemma select_upstream_pool_in: "snd (fst (select_upstream_pool key m loc s)) \<in> pools m loc"
  by (auto simp: select_upstream_pool_def pools_def Let_def case_prod_unfold split: option.splits)

lemma select_upstream_pool_policy: "ps_policy (snd (select_upstream_pool key m loc s)) = ps_policy s"
  by (auto simp: select_upstream_pool_def Let_def case_prod_unfold on_balancer_def split: option.splits)

lemma mirror_request_policy: "ps_policy (mirror_request q m c dm s) = ps_policy s"
  by (simp add: mirror_request_def)

definition well_chosen :: "request_world \<Rightarrow> pending \<Rightarrow> proxy_server \<Rightarrow> bool" where
  "well_chosen x p s \<longleftrightarrow>
     (\<exists>pool\<in>pools (dt_matched (pd_draft p)) (rc_location (dt_context (pd_draft p))). pd_upstream p \<in> set pool) \<and>
     up_healthy (pd_upstream p) \<and>
     \<not> circuit_open_for (rx_now x) (dt_matched (pd_draft p)) (pd_upstream p) (pe_circuit_breakers (ps_policy s))"

lemma streaming_Inr:
  assumes "streaming_stage w x req d s = (Inr p, t)"
  shows "pd_draft p = d" "well_chosen x p s"
proof -
  define pool where "pool = select_upstream_pool (base_route_key (dt_matched d)) (dt_matched d) (rc_location (dt_context d)) s"
  have "\<exists>key h pl. take_upstream w x key (snd (fst pool)) h d pl (snd pool) = (Inr p, t)"
    using assms unfolding streaming_stage_def Let_def pool_def [symmetric] by (auto simp: case_prod_unfold)
  then obtain key h pl where "take_upstream w x key (snd (fst pool)) h d pl (snd pool) = (Inr p, t)" by blast
  note got = take_upstream_Inr [OF this]
  show "pd_draft p = d" by (rule got)
  show "well_chosen x p s"
    using got select_upstream_pool_in [of "base_route_key (dt_matched d)" "dt_matched d" "rc_location (dt_context d)" s]
    unfolding well_chosen_def pool_def by (auto simp: select_upstream_pool_policy)
qed

lemma buffering_Inr:
  assumes "buffering_stage w x req d s = (Inr p, t)"
  shows "pd_draft p = d" "well_chosen x p s"
proof -
  define pool where "pool = select_upstream_pool (base_route_key (dt_matched d)) (dt_matched d) (rc_location (dt_context d)) s"
  have "\<exists>key h pl q c dm. take_upstream w x key (snd (fst pool)) h d pl (mirror_request q (dt_matched d) c dm (snd pool)) = (Inr p, t)"
  proof (cases "from_request req (request_body_limit (rt_rules (rm_route (dt_matched d))) (dt_middleware d))")
    case (Inl e)
    then show ?thesis using assms by (cases e) (simp_all add: buffering_stage_def Let_def)
  next
    case (Inr request)
    with assms show ?thesis
      unfolding buffering_stage_def Let_def pool_def [symmetric] by (simp only: sum.case case_prod_unfold) blast
  qed
  then obtain key h pl q c dm where
    "take_upstream w x key (snd (fst pool)) h d pl (mirror_request q (dt_matched d) c dm (snd pool)) = (Inr p, t)" by blast
  note got = take_upstream_Inr [OF this]
  show "pd_draft p = d" by (rule got)
  show "well_chosen x p s"
    using got select_upstream_pool_in [of "base_route_key (dt_matched d)" "dt_matched d" "rc_location (dt_context d)" s]
    unfolding well_chosen_def pool_def by (auto simp: select_upstream_pool_policy mirror_request_policy)
qed

lemma digest_auth_breakers: "keeps (\<lambda>s. pe_circuit_breakers (ps_policy s)) (digest_auth_stage w x req ctx mw)"
proof -
  have policy: "ps_policy (snd (answer w x ctx r s)) = ps_policy s" "ps_policy (count_middleware d k o' s) = ps_policy s"
    for r d k o' and s :: proxy_server
    by (simp_all add: answer_def count_middleware_def on_metrics_def)
  have "pe_circuit_breakers (ps_policy (snd (digest_passes w x req ctx c s))) = pe_circuit_breakers (ps_policy s)" for c s
    by (simp add: digest_passes_def case_prod_unfold Let_def split: option.split)
  then show ?thesis
    by (simp add: keeps_def digest_auth_stage_def case_prod_unfold Let_def policy split: option.split)
qed

text \<open>The chain of stages behind a request that is forwarded.\<close>

definition middleware_of :: "route_match \<Rightarrow> effective_middleware" where
  "middleware_of m = from_rules (rt_rules (rm_route m)) (pr_middlewares (rm_path m))"

lemma admit_stages:
  assumes "admit w x req peer_ip scheme cert s = (Inr p, t)"
  shows "\<exists>host c s1 s2 s3 m s4 s5 s6 s7 s8 s9 s10 d.
    read_request w x req peer_ip scheme s = (Inr (host, c), s1) \<and> acme_stage w x c s1 = (Inr (), s2) \<and>
    security_stage w x c s2 = (Inr (), s3) \<and> route_stage w x host c s3 = (Inr m, s4) \<and>
    www_redirect_stage w x req c m s4 = (Inr (), s5) \<and> policy_stage w x req c m s5 = (Inr (), s6) \<and>
    bandwidth_stage w x c m s6 = (Inr (), s7) \<and> basic_auth_stage w x req c (middleware_of m) s7 = (Inr (), s8) \<and>
    digest_auth_stage w x req c (middleware_of m) s8 = (Inr (), s9) \<and>
    forward_auth_stage w x req c m (middleware_of m) s9 = (Inr (), s10) \<and>
    dt_context d = c \<and> dt_matched d = m \<and> dt_middleware d = middleware_of m \<and>
    (buffering_stage w x (prepare_request w req c m (middleware_of m)) d s10 = (Inr p, t) \<or>
     streaming_stage w x (prepare_request w req c m (middleware_of m)) d s10 = (Inr p, t))"
proof -
  define D where "D c m = \<lparr>dt_context = c, dt_matched = m, dt_middleware = middleware_of m, dt_origin = hdr_get (rq_headers req) ''origin'',
    dt_accept_encoding = hdr_get (rq_headers req) ''accept-encoding'', dt_client_cert_pem = cert\<rparr>" for c m
  have D: "dt_context (D c m) = c" "dt_matched (D c m) = m" "dt_middleware (D c m) = middleware_of m" for c m
    by (simp_all add: D_def)
  have "\<exists>host c s1 s2 s3 m s4 s5 s6 s7 s8 s9 s10.
    read_request w x req peer_ip scheme s = (Inr (host, c), s1) \<and> acme_stage w x c s1 = (Inr (), s2) \<and>
    security_stage w x c s2 = (Inr (), s3) \<and> route_stage w x host c s3 = (Inr m, s4) \<and>
    www_redirect_stage w x req c m s4 = (Inr (), s5) \<and> policy_stage w x req c m s5 = (Inr (), s6) \<and>
    bandwidth_stage w x c m s6 = (Inr (), s7) \<and> basic_auth_stage w x req c (middleware_of m) s7 = (Inr (), s8) \<and>
    digest_auth_stage w x req c (middleware_of m) s8 = (Inr (), s9) \<and>
    forward_auth_stage w x req c m (middleware_of m) s9 = (Inr (), s10) \<and>
    (buffering_stage w x (prepare_request w req c m (middleware_of m)) (D c m) s10 = (Inr p, t) \<or>
     streaming_stage w x (prepare_request w req c m (middleware_of m)) (D c m) s10 = (Inr p, t))"
    using assms unfolding admit_def auth_stages_def Let_def middleware_of_def [symmetric] D_def [symmetric]
    by (auto simp: stage_bind_Inr split: if_splits)
  with D show ?thesis by fast
qed

lemma admit_chain:
  assumes "admit w x req peer_ip scheme cert s = (Inr p, t)"
  defines "m \<equiv> dt_matched (pd_draft p)" and "mw \<equiv> dt_middleware (pd_draft p)"
  shows "\<exists>host s3 s8 s9 s10 s11.
    read_request w x req peer_ip scheme s = (Inr (host, dt_context (pd_draft p)), s) \<and>
    security_stage w x (dt_context (pd_draft p)) s = (Inr (), s3) \<and>
    find_route host (rc_path (dt_context (pd_draft p))) (es_routes (ps_state s3)) = Some m \<and>
    policy_stage w x req (dt_context (pd_draft p)) m s3 = (Inr (), s8) \<and>
    basic_auth_stage w x req (dt_context (pd_draft p)) mw s8 = (Inr (), s9) \<and>
    digest_auth_stage w x req (dt_context (pd_draft p)) mw s9 = (Inr (), s10) \<and>
    forward_auth_stage w x req (dt_context (pd_draft p)) m mw s10 = (Inr (), s11) \<and>
    mw = middleware_of m \<and> well_chosen x p s11"
proof -
  from admit_stages [OF assms(1)] obtain host c s1 s2 s3 m' s4 s5 s6 s7 s8 s9 s10 d where
    read: "read_request w x req peer_ip scheme s = (Inr (host, c), s1)"
    and acme: "acme_stage w x c s1 = (Inr (), s2)"
    and security: "security_stage w x c s2 = (Inr (), s3)"
    and route: "route_stage w x host c s3 = (Inr m', s4)"
    and www: "www_redirect_stage w x req c m' s4 = (Inr (), s5)"
    and policy: "policy_stage w x req c m' s5 = (Inr (), s6)"
    and bandwidth: "bandwidth_stage w x c m' s6 = (Inr (), s7)"
    and auth: "basic_auth_stage w x req c (middleware_of m') s7 = (Inr (), s8)"
      "digest_auth_stage w x req c (middleware_of m') s8 = (Inr (), s9)"
      "forward_auth_stage w x req c m' (middleware_of m') s9 = (Inr (), s10)"
    and d: "dt_context d = c" "dt_matched d = m'" "dt_middleware d = middleware_of m'"
    and final: "buffering_stage w x (prepare_request w req c m' (middleware_of m')) d s10 = (Inr p, t) \<or>
      streaming_stage w x (prepare_request w req c m' (middleware_of m')) d s10 = (Inr p, t)"
    by blast
  from final have p: "pd_draft p = d" "well_chosen x p s10" by (auto dest: buffering_Inr streaming_Inr)
  have "s1 = s" "s2 = s" using read_request_Inr(1) [OF read] acme_Inr [OF acme] by simp_all
  moreover have "s4 = s3" "s5 = s3" "s7 = s6"
    using route_Inr [OF route] www_redirect_Inr [OF www] bandwidth_Inr [OF bandwidth] by simp_all
  moreover have "m = m'" "mw = middleware_of m'" using p d unfolding m_def mw_def by simp_all
  ultimately show ?thesis
    using read security route_Inr [OF route] policy auth p d
    by (intro exI [of _ host] exI [of _ s3] exI [of _ s6] exI [of _ s8] exI [of _ s9] exI [of _ s10]) simp
qed

section \<open>Every request is observed once\<close>

definition requests :: "proxy_server \<Rightarrow> counter_vec" where
  "requests s = pm_requests_total (es_metrics (ps_state s))"

text \<open>A stage that counts a request exactly when it answers it, under the status of the answer.\<close>

definition counted :: "string \<Rightarrow> u16 \<Rightarrow> proxy_server \<Rightarrow> proxy_server \<Rightarrow> bool" where
  "counted method status s t \<longleftrightarrow> (\<exists>domain. requests t = counter_inc [domain, method, show_nat (unat status)] (requests s))"

definition observes :: "string \<Rightarrow> 'a stage \<Rightarrow> bool" where
  "observes method m \<longleftrightarrow> (\<forall>s. case fst (m s) of
     Inl r \<Rightarrow> counted method (rs_status r) s (snd (m s)) | Inr _ \<Rightarrow> requests (snd (m s)) = requests s)"

lemma observes_bind:
  assumes "observes method m" and "\<And>s y t. m s = (Inr y, t) \<Longrightarrow> observes method (f y)"
  shows "observes method (stage_bind m f)"
  unfolding observes_def
proof
  fix s
  obtain r t where run: "m s = (r, t)" by fastforce
  have first: "case r of Inl q \<Rightarrow> counted method (rs_status q) s t | Inr _ \<Rightarrow> requests t = requests s"
    using assms(1) run unfolding observes_def by (metis fst_conv snd_conv)
  show "case fst (stage_bind m f s) of Inl r \<Rightarrow> counted method (rs_status r) s (snd (stage_bind m f s))
      | Inr _ \<Rightarrow> requests (snd (stage_bind m f s)) = requests s"
  proof (cases r)
    case (Inl q)
    then show ?thesis using first run by (simp add: stage_bind_def)
  next
    case (Inr y)
    then have same: "requests t = requests s" using first by simp
    have "stage_bind m f s = f y t" using run Inr by (simp add: stage_bind_def)
    moreover have "observes method (f y)" using assms(2) run Inr by blast
    ultimately show ?thesis unfolding observes_def counted_def same [symmetric] by (simp only:)
  qed
qed

lemma requests_observe [simp]:
  "requests (observe_request w x ctx status u a b s) = counter_inc [rc_domain ctx, rc_method ctx, show_nat (unat status)] (requests s)"
  by (simp add: requests_def observe_request_def on_metrics_def Let_def split: option.split)

lemma requests_counts [simp]:
  "requests (count_blocked d r s) = requests s" "requests (count_rate_limited d s) = requests s"
  "requests (count_middleware d k r s) = requests s" "requests (count_rejection ctx j s) = requests s"
  "requests (on_balancer f s) = requests s" "requests (s\<lparr>ps_policy := pe\<rparr>) = requests s"
  "requests (s\<lparr>ps_state := (ps_state s)\<lparr>es_security := sec\<rparr>\<rparr>) = requests s" "requests (mirror_request q m c dm s) = requests s"
  "requests (add_in_flight n p s) = requests s" "requests (observe_latency x p status s) = requests s"
  "requests (count_retries p kinds s) = requests s"
  "requests (on_metrics (\<lambda>m. m\<lparr>pm_in_flight_limited_total := f' m\<rparr>) s) = requests s"
  by (simp_all add: requests_def on_metrics_def on_balancer_def count_blocked_def count_rate_limited_def count_middleware_def
      count_rejection_def mirror_request_def add_in_flight_def observe_latency_def count_retries_def)

lemma answer_observes: "rc_method ctx = method \<Longrightarrow> observes method (answer w x ctx r)"
  by (auto simp: observes_def answer_def counted_def)

lemma error_response_status [simp]: "rs_status (error_response w x s status msg domain path) = status"
  by (simp add: error_response_def error_page_response_def html_response_def text_response_def response_with_body_def)

lemma diagnostic_response_status [simp]: "rs_status (diagnostic_error_response w x s status reason domain path) = status"
  by (simp add: diagnostic_error_response_def response_with_reason_code_def html_response_def text_response_def
      response_with_body_def Let_def)

lemmas answer_simps = answer_def refuse_def refuse_with_reason_def

lemma pass_observes [simp]: "observes method (pass y)"
  by (simp add: observes_def pass_def)

lemma read_request_observes: "observes (rq_method req) (read_request w x req peer_ip scheme)"
  by (auto simp: observes_def read_request_def Let_def answer_simps counted_def unknown_context_def split: sum.split option.split)

lemma read_request_method: "read_request w x req peer_ip scheme s = (Inr (host, ctx), t) \<Longrightarrow> rc_method ctx = rq_method req"
  by (auto simp: read_request_def Let_def unknown_context_def split: sum.splits option.splits)

lemma acme_observes: "rc_method ctx = method \<Longrightarrow> observes method (acme_stage w x ctx)"
  by (auto simp: acme_stage_def answer_observes split: option.split)

lemma security_observes: "rc_method ctx = method \<Longrightarrow> observes method (security_stage w x ctx)"
  by (auto simp: observes_def security_stage_def Let_def answer_simps counted_def insert_retry_after_def case_prod_unfold
      split: option.split security_decision.split)

lemma route_observes: "rc_method ctx = method \<Longrightarrow> observes method (route_stage w x host ctx)"
  by (auto simp: observes_def route_stage_def answer_simps counted_def split: option.split)

lemma www_redirect_observes: "rc_method ctx = method \<Longrightarrow> observes method (www_redirect_stage w x req ctx m)"
  by (simp add: www_redirect_stage_def answer_observes)

lemma policy_observes: "rc_method ctx = method \<Longrightarrow> observes method (policy_stage w x req ctx m)"
  by (auto simp: observes_def policy_stage_def answer_simps counted_def case_prod_unfold Let_def split: option.split)

lemma bandwidth_observes: "rc_method ctx = method \<Longrightarrow> observes method (bandwidth_stage w x ctx m)"
  by (auto simp: observes_def bandwidth_stage_def answer_simps counted_def split: option.split)

lemma basic_observes: "rc_method ctx = method \<Longrightarrow> observes method (basic_auth_stage w x req ctx mw)"
  by (auto simp: observes_def basic_auth_stage_def answer_simps counted_def split: option.split)

lemma digest_passes_requests [simp]: "requests (snd (digest_passes w x req ctx c s)) = requests s"
  by (simp add: digest_passes_def case_prod_unfold Let_def split: option.split)

lemma digest_observes: "rc_method ctx = method \<Longrightarrow> observes method (digest_auth_stage w x req ctx mw)"
  by (auto simp: observes_def digest_auth_stage_def answer_simps counted_def case_prod_unfold Let_def split: option.split)

lemma forward_auth_observes: "rc_method ctx = method \<Longrightarrow> observes method (forward_auth_stage w x req ctx m mw)"
  by (auto simp: observes_def forward_auth_stage_def answer_simps counted_def split: option.split sum.split bool.split)

lemma auth_observes: "rc_method ctx = method \<Longrightarrow> observes method (auth_stages w x req ctx m mw)"
  unfolding auth_stages_def by (intro observes_bind basic_observes digest_observes forward_auth_observes)

lemma choice_requests [simp]:
  "requests (snd (select_upstream_pool key m loc s)) = requests s"
  "requests (snd (balance w now key m backup ups ip s)) = requests s"
  "requests (snd (sticky_choice w now m ups h mw s)) = requests s"
  "requests (snd (select_available_upstream w now key m ups ip h mw s)) = requests s"
  by (simp_all add: select_upstream_pool_def balance_def sticky_choice_def select_available_upstream_def case_prod_unfold Let_def
      split: option.split)

lemma take_upstream_observes:
  "rc_method (dt_context d) = method \<Longrightarrow> observes method (take_upstream w x key ups h d pl)"
  unfolding observes_def take_upstream_def Let_def case_prod_unfold
  by (auto simp: answer_simps counted_def split: option.split sum.split)

lemma observes_after:
  assumes "\<And>y. observes method (m y)" and "\<And>s. \<exists>y t. requests t = requests s \<and> n s = m y t"
  shows "observes method n"
  unfolding observes_def
proof
  fix s
  obtain y t where same: "requests t = requests s" and n: "n s = m y t" using assms(2) by blast
  have "case fst (m y t) of Inl r \<Rightarrow> counted method (rs_status r) t (snd (m y t))
      | Inr _ \<Rightarrow> requests (snd (m y t)) = requests t"
    using assms(1) [of y] unfolding observes_def by (rule spec)
  then show "case fst (n s) of Inl r \<Rightarrow> counted method (rs_status r) s (snd (n s))
      | Inr _ \<Rightarrow> requests (snd (n s)) = requests s"
    unfolding n counted_def same .
qed

lemma streaming_observes:
  assumes "rc_method (dt_context d) = method"
  shows "observes method (streaming_stage w x req d)"
proof (rule observes_after)
  show "observes method ((\<lambda>(key, ups, h, pl). take_upstream w x key ups h d pl) y)" for y
    by (cases y) (simp add: take_upstream_observes [OF assms])
  fix s
  let ?pool = "select_upstream_pool (base_route_key (dt_matched d)) (dt_matched d) (rc_location (dt_context d)) s"
  let ?req = "req\<lparr>rq_headers := ensure_trace_headers (px_hc w) (fst (rx_trace x)) (snd (rx_trace x)) (rx_request_id x) (rq_headers req)\<rparr>"
  show "\<exists>y t. requests t = requests s \<and> streaming_stage w x req d s = (\<lambda>(key, ups, h, pl). take_upstream w x key ups h d pl) y t"
    by (intro exI [of _ "(base_route_key (dt_matched d) @ fst (fst ?pool), snd (fst ?pool), rq_headers ?req, Streaming ?req)"]
        exI [of _ "snd ?pool"]) (simp add: streaming_stage_def Let_def case_prod_unfold)
qed

lemma buffering_observes:
  assumes "rc_method (dt_context d) = method"
  shows "observes method (buffering_stage w x req d)"
proof (cases "from_request req (request_body_limit (rt_rules (rm_route (dt_matched d))) (dt_middleware d))")
  case (Inl e)
  then show ?thesis using assms by (cases e) (auto simp: observes_def buffering_stage_def answer_simps counted_def Let_def)
next
  case (Inr request)
  define q where "q = request\<lparr>br_headers :=
    (let h = ensure_trace_headers (px_hc w) (fst (rx_trace x)) (snd (rx_trace x)) (rx_request_id x) (br_headers request)
     in if ctd_enabled (em_content_type_autodetect (dt_middleware d))
        then apply_request_content_type_detection (br_uri request) (Some (br_body request)) h else h)\<rparr>"
  define pool where "pool s = select_upstream_pool (base_route_key (dt_matched d)) (dt_matched d) (rc_location (dt_context d)) s" for s
  have run: "buffering_stage w x req d s =
      take_upstream w x (base_route_key (dt_matched d) @ fst (fst (pool s))) (snd (fst (pool s))) (br_headers q) d (Buffered q)
        (mirror_request q (dt_matched d) (em_traffic_mirroring (dt_middleware d)) (rc_domain (dt_context d)) (snd (pool s)))" for s
    by (simp add: buffering_stage_def Inr Let_def case_prod_unfold q_def pool_def)
  show ?thesis
  proof (rule observes_after)
    show "observes method ((\<lambda>(key, ups). take_upstream w x key ups (br_headers q) d (Buffered q)) y)" for y
      by (cases y) (simp add: take_upstream_observes [OF assms])
    show "\<exists>y t. requests t = requests s \<and>
      buffering_stage w x req d s = (\<lambda>(key, ups). take_upstream w x key ups (br_headers q) d (Buffered q)) y t" for s
      by (intro exI [of _ "(base_route_key (dt_matched d) @ fst (fst (pool s)), snd (fst (pool s)))"]
        exI [of _ "mirror_request q (dt_matched d) (em_traffic_mirroring (dt_middleware d)) (rc_domain (dt_context d)) (snd (pool s))"])
        (simp add: run pool_def)
  qed
qed

lemma admit_observes: "observes (rq_method req) (admit w x req peer_ip scheme cert)"
  unfolding admit_def
proof (rule observes_bind [OF read_request_observes], clarify)
  fix s host ctx t
  assume "read_request w x req peer_ip scheme s = (Inr (host, ctx), t)"
  then have m: "rc_method ctx = rq_method req" by (rule read_request_method)
  show "observes (rq_method req) (stage_bind (acme_stage w x ctx) (\<lambda>_. stage_bind (security_stage w x ctx) (\<lambda>_.
      stage_bind (route_stage w x host ctx) (\<lambda>m. stage_bind (www_redirect_stage w x req ctx m) (\<lambda>_.
      stage_bind (policy_stage w x req ctx m) (\<lambda>_. stage_bind (bandwidth_stage w x ctx m) (\<lambda>_.
      let mw = from_rules (rt_rules (rm_route m)) (pr_middlewares (rm_path m)) in
      stage_bind (auth_stages w x req ctx m mw) (\<lambda>_.
      let prepared = prepare_request w req ctx m mw;
          d = \<lparr>dt_context = ctx, dt_matched = m, dt_middleware = mw, dt_origin = hdr_get (rq_headers req) ''origin'',
               dt_accept_encoding = hdr_get (rq_headers req) ''accept-encoding'', dt_client_cert_pem = cert\<rparr>
      in if requires_buffered_forwarding mw (dr_max_body_bytes (rt_rules (rm_route m)) \<noteq> None)
         then buffering_stage w x prepared d else streaming_stage w x prepared d))))))))"
    unfolding Let_def
    by (intro observes_bind acme_observes security_observes route_observes www_redirect_observes policy_observes
        bandwidth_observes auth_observes m buffering_observes streaming_observes) (simp_all add: m buffering_observes streaming_observes)
qed

text \<open>The second half counts the request, under the status of its answer.\<close>

lemma outcome_requests [simp]: "requests (release_slots x p s) = requests s" "requests (record_outcome x p status failed s) = requests s"
proof -
  have "pm_requests_total (es_metrics (fst (snd (record_passive_health now c d q u st err h e)))) = pm_requests_total (es_metrics e)"
    for now c d q u st err h e
    by (simp add: record_passive_health_def mark_unhealthy_def count_passive_event_def edge_set_route_upstream_health_def
        set_health_gauge_def Let_def case_prod_unfold)
  moreover have "pm_requests_total (snd (record_circuit_result now r b m)) = pm_requests_total m" for now r b m
    by (simp add: record_circuit_result_def Let_def)
  ultimately show "requests (release_slots x p s) = requests s" "requests (record_outcome x p status failed s) = requests s"
    by (simp_all add: release_slots_def record_outcome_def Let_def case_prod_unfold) (simp add: requests_def)
qed

lemma middleware_status [simp]: "bp_status (apply_response_middleware hc gzip m accepts r) = bp_status r"
  by (simp add: apply_response_middleware_def autodetect_response_def Let_def split: option.split)

lemma finish_status [simp]: "sp_status (finish_response w x r) = sp_status r" "sp_status (local_response r') = rs_status r'"
  by (simp_all add: finish_response_def local_response_def)

lemma complete_counts:
  "requests (snd (complete w x client p s)) =
     counter_inc [rc_domain (dt_context (pd_draft p)), rc_method (dt_context (pd_draft p)),
       show_nat (unat (sp_status (fst (complete w x client p s))))] (requests s)"
  by (simp add: complete_def complete_streaming_def complete_buffered_def complete_failed_def Let_def case_prod_unfold
      into_response_def split: payload.split sum.split)

text \<open>Every answer carries the identifier of its request, when that is a header value.\<close>

lemma finish_request_id:
  "hc_header_value (px_hc w) (rx_request_id x) = None \<or>
   hdr_get (sp_headers (finish_response w x r)) REQUEST_ID_HEADER = hc_header_value (px_hc w) (rx_request_id x)"
  by (simp add: finish_response_def attach_request_id_header_def hdr_insert_str_def split: option.split)

lemma complete_request_id:
  assumes "rc_request_id (dt_context (pd_draft p)) = rx_request_id x"
  shows "hc_header_value (px_hc w) (rx_request_id x) = None \<or>
    hdr_get (sp_headers (fst (complete w y client p s))) REQUEST_ID_HEADER = hc_header_value (px_hc w) (rx_request_id x)"
  using finish_request_id [of w "y\<lparr>rx_request_id := rx_request_id x\<rparr>"] assms
  by (simp add: complete_def complete_streaming_def complete_buffered_def complete_failed_def Let_def case_prod_unfold
      split: payload.split sum.split)

lemma read_request_id: "read_request w x req peer_ip scheme s = (Inr (host, ctx), t) \<Longrightarrow> rc_request_id ctx = rx_request_id x"
  by (auto simp: read_request_def Let_def unknown_context_def split: sum.splits option.splits)

section \<open>A sample run\<close>

text \<open>A run: one route without rules, and a plain request for it.\<close>

definition sample_world :: proxy_world where
  "sample_world = \<lparr>px_forward = sample_forward_env, px_contains = (\<lambda>_ _. False), px_log2 = (\<lambda>_. 0), px_sha = id,
     px_base64 = Some, px_gzip = Some, px_hash = (\<lambda>_. 0), px_order = (\<lambda>_. []), px_template = [], px_vars = (\<lambda>_. None),
     px_diag_url = (\<lambda>_ _ _. None), px_diag_json = (\<lambda>_. None)\<rparr>"

definition sample_request_world :: request_world where
  "sample_request_world = \<lparr>rx_request_id = ''id'', rx_environ = sample_env 5000, rx_elapsed = 0, rx_trace = (''t'', 1),
     rx_sent = Sent, rx_spool_ok = True, rx_read_file = (\<lambda>_. None), rx_check_limit = (\<lambda>_ _ _. Inr True),
     rx_monthly_usage = (\<lambda>_. Inr 0), rx_auth = (\<lambda>_. None), rx_diag = (\<lambda>_. None)\<rparr>"

definition sample_start :: proxy_server where
  "sample_start = server_at_start (\<lambda>_. None) (\<lambda>_. None)
     (new_table [new_route 0 ''r1'' ''a.io'' [new_path_route ''/'' [new_upstream ''http://u'']] Static]) sample_engine
     default_renderer disabled_resolver (''a'', ''b'')"

definition sample_get :: http_request where
  "sample_get = \<lparr>rq_method = ''GET'', rq_uri = plain_uri ''/'', rq_headers = [(''host'', ''a.io'')], rq_body = []\<rparr>"

abbreviation sample_ctx :: proxy_request_context where
  "sample_ctx \<equiv> (unknown_context sample_request_world sample_get Https None ''/'' geo_unknown)\<lparr>rc_domain := ''a.io''\<rparr>"

lemma sample_read:
  "read_request sample_world sample_request_world sample_get None Https s = (Inr (''a.io'', sample_ctx), s)"
proof -
  have "canonicalize_path ''/'' = Inr ''/''" by code_simp
  moreover have "normalize_domain ''a.io'' = ''a.io''" by code_simp
  ultimately show ?thesis
    by (simp add: read_request_def resolve_effective_client_ip_def sample_get_def plain_uri_def requested_host_def hdr_str_def
        hdr_get_def sample_world_def sample_forward_env_def plain_http_def)
qed

lemma sample_acme: "acme_stage sample_world sample_request_world sample_ctx s = (Inr (), s)"
  by (simp add: acme_stage_def serve_acme_http01_challenge_def ACME_CHALLENGE_PREFIX_def strip_prefix_def pass_def unknown_context_def)

lemma sample_security: "security_stage sample_world sample_request_world sample_ctx s = (Inr (), s)"
  by (simp add: security_stage_def unknown_context_def)

lemma sample_get_route: "route_stage sample_world sample_request_world ''a.io'' sample_ctx sample_start = (Inr sample_match, sample_start)"
proof -
  have "find_route ''a.io'' ''/'' (new_table [new_route 0 ''r1'' ''a.io'' [new_path_route ''/'' [new_upstream ''http://u'']] Static])
    = Some sample_match" by code_simp
  then show ?thesis by (simp add: route_stage_def sample_start_def server_at_start_def new_proxy_server_def new_edge_state_def
     new_with_stats_sink_def unknown_context_def)
qed

lemmas sample_rules = sample_match_def new_route_def new_path_route_def new_upstream_def default_domain_rules_def

lemma sample_www: "www_redirect_stage sample_world sample_request_world sample_get sample_ctx sample_match s = (Inr (), s)"
  by (simp add: www_redirect_stage_def www_redirect_applies_def sample_rules pass_def)

lemma sample_policy: "\<exists>pe. policy_stage sample_world sample_request_world sample_get sample_ctx sample_match s =
    (Inr (), s\<lparr>ps_policy := pe\<rparr>) \<and> pe_circuit_breakers pe = pe_circuit_breakers (ps_policy s)"
proof -
  have "fst (evaluate plain_http c l n sample_get (rt_rules (rm_route sample_match)) sample_ctx pe) = None" for c l n pe
    by (simp add: evaluate_def scheme_checks_def address_checks_def location_checks_def shape_checks_def header_checks_def
        reject_if_def method_listed_def sample_rules unknown_context_def waf_rejection_reason_def default_domain_waf_def
        rate_check_def is_cors_preflight_def sample_get_def location_code_matches_def Let_def
        split: option.split)
  then show ?thesis
    by (intro exI [of _ "snd (evaluate plain_http (\<lambda>_ _. False) (\<lambda>_. 0) (rx_now sample_request_world) sample_get
          (rt_rules (rm_route sample_match)) sample_ctx (ps_policy s))"])
      (simp add: policy_stage_def Let_def case_prod_unfold sample_world_def sample_forward_env_def evaluate_keeps)
qed

lemma sample_bandwidth: "bandwidth_stage sample_world sample_request_world sample_ctx sample_match s = (Inr (), s)"
  by (simp add: bandwidth_stage_def sample_rules)

lemma sample_middleware_of: "from_rules (rt_rules (rm_route sample_match)) (pr_middlewares (rm_path sample_match)) = base_middleware default_domain_rules"
  by (simp add: from_rules_def sample_rules)

lemma sample_auth: "auth_stages sample_world sample_request_world sample_get sample_ctx sample_match (base_middleware default_domain_rules) s = (Inr (), s)"
  by (simp add: auth_stages_def basic_auth_stage_def digest_auth_stage_def forward_auth_stage_def stage_bind_def base_middleware_def)

lemma sample_fields:
  "dr_traffic_splits (rt_rules (rm_route sample_match)) = []" "dr_location_routes (rt_rules (rm_route sample_match)) = []"
  "pr_upstreams (rm_path sample_match) = [new_upstream ''http://u'']" "rt_algorithm (rm_route sample_match) = RoundRobin"
  "up_healthy (new_upstream u)" "\<not> up_backup (new_upstream u)" "dr_max_body_bytes (rt_rules (rm_route sample_match)) = None"
  "em_sticky_sessions (base_middleware default_domain_rules) = default_sticky_session"
  "em_in_flight_limit (base_middleware default_domain_rules) = default_in_flight_limit"
  by (simp_all add: sample_rules base_middleware_def)

lemma sample_take:
  assumes "dt_matched d = sample_match" and "dt_middleware d = base_middleware default_domain_rules"
    and "dt_context d = sample_ctx" and "pe_circuit_breakers (ps_policy s) = []"
  shows "\<exists>p t. streaming_stage sample_world sample_request_world req d s = (Inr p, t)"
  by (simp add: assms streaming_stage_def Let_def case_prod_unfold select_upstream_pool_def take_upstream_def
      select_available_upstream_def matching_traffic_splits_def location_upstreams_def sample_fields sticky_choice_def
      sticky_upstream_def default_sticky_session_def balance_def circuit_is_open_def select_def round_robin_def
      slice_get_def try_acquire_in_flight_def default_in_flight_limit_def)

lemma sample_get_admitted: "\<exists>p t. admit sample_world sample_request_world sample_get None Https None sample_start = (Inr p, t)"
proof -
  let ?mw = "base_middleware default_domain_rules"
  obtain pe where policy: "policy_stage sample_world sample_request_world sample_get sample_ctx sample_match sample_start =
      (Inr (), sample_start\<lparr>ps_policy := pe\<rparr>)" and keep: "pe_circuit_breakers pe = pe_circuit_breakers (ps_policy sample_start)"
    using sample_policy by blast
  have "pe_circuit_breakers (ps_policy sample_start) = []"
    by (simp add: sample_start_def server_at_start_def new_proxy_server_def default_policy_enforcer_def)
  with keep have none: "pe_circuit_breakers pe = []" by simp
  define d where "d = \<lparr>dt_context = sample_ctx, dt_matched = sample_match, dt_middleware = ?mw, dt_origin = hdr_get (rq_headers sample_get) ''origin'',
    dt_accept_encoding = hdr_get (rq_headers sample_get) ''accept-encoding'', dt_client_cert_pem = None\<rparr>"
  have "\<not> requires_buffered_forwarding ?mw False"
    by (simp add: requires_buffered_forwarding_def base_middleware_def default_domain_rules_def default_buffering_def default_retry_def
        default_compression_def default_content_type_auto_detect_def default_traffic_mirror_def)
  moreover have "\<exists>p t. streaming_stage sample_world sample_request_world
      (prepare_request sample_world sample_get sample_ctx sample_match ?mw) d (sample_start\<lparr>ps_policy := pe\<rparr>) = (Inr p, t)"
    by (rule sample_take) (simp_all add: d_def none)
  ultimately show ?thesis
    by (simp add: admit_def stage_bind_def sample_read sample_acme sample_security sample_get_route sample_www policy sample_bandwidth
        sample_middleware_of sample_auth Let_def d_def sample_fields)
qed

section \<open>Properties\<close>

text \<open>
  C3. Only requests that passed every check reach an upstream. When the handler starts to forward a
  request, its path had a canonical form, the security engine allowed the client's address, the route
  is the one the table has for the requested host and that canonical path, the policy of the domain
  had no objection, the credentials that the route's middleware asks for were accepted (basic, digest
  and the external service), and the upstream belongs to a pool the route offers for the client's
  location, is healthy, and its circuit is not open.
\<close>

theorem forwarded_only_if_admitted:
  assumes "admit w x req peer_ip scheme cert s = (Inr p, t)"
  defines "ctx \<equiv> dt_context (pd_draft p)" and "m \<equiv> dt_matched (pd_draft p)" and "mw \<equiv> dt_middleware (pd_draft p)"
  shows "canonicalize_path (uri_path (rq_uri req)) = Inr (rc_path ctx) \<and>
    rc_remote_ip ctx = resolve_effective_client_ip (px_hc w) (px_contains w) (rq_headers req) peer_ip (ps_trusted_client_ip s) \<and>
    (\<forall>ip. rc_remote_ip ctx = Some ip \<longrightarrow>
       fst (security_check (px_contains w) (rx_environ x) (rc_domain ctx) ip (es_security (ps_state s))) = Allowed) \<and>
    (\<exists>host. requested_host (px_hc w) req = Some host \<and> rc_domain ctx = normalize_domain host \<and>
       find_route host (rc_path ctx) (es_routes (ps_state s)) = Some m) \<and>
    fst (evaluate (px_hc w) (px_contains w) (px_log2 w) (rx_now x) req (rt_rules (rm_route m)) ctx (ps_policy s)) = None \<and>
    mw = from_rules (rt_rules (rm_route m)) (pr_middlewares (rm_path m)) \<and>
    (\<forall>c. em_basic_auth mw = Some c \<and> ba_enabled c \<longrightarrow> basic_authorized (px_hc w) (px_base64 w) (rq_headers req) c) \<and>
    (\<forall>c. em_digest_auth mw = Some c \<and> da_enabled c \<longrightarrow> fst (digest_passes w x req ctx c s)) \<and>
    (\<forall>c. em_forward_auth mw = Some c \<longrightarrow> run_forward_auth w x req c (rt_source (rm_route m)) = Inr True) \<and>
    well_chosen x p s"
proof -
  from admit_chain [OF assms(1)] obtain host s3 s8 s9 s10 s11 where
    read: "read_request w x req peer_ip scheme s = (Inr (host, ctx), s)"
    and security: "security_stage w x ctx s = (Inr (), s3)"
    and route: "find_route host (rc_path ctx) (es_routes (ps_state s3)) = Some m"
    and policy: "policy_stage w x req ctx m s3 = (Inr (), s8)"
    and basic: "basic_auth_stage w x req ctx mw s8 = (Inr (), s9)"
    and digest: "digest_auth_stage w x req ctx mw s9 = (Inr (), s10)"
    and forward: "forward_auth_stage w x req ctx m mw s10 = (Inr (), s11)"
    and mw: "mw = middleware_of m" and chosen: "well_chosen x p s11"
    unfolding ctx_def m_def mw_def by blast
  have same: "es_routes (ps_state s3) = es_routes (ps_state s)" "ps_policy s3 = ps_policy s"
    using keepsD [OF security_stage_keeps(2) security] by (simp_all add: serving_parts_def)
  have s9: "pe_digest_secret (ps_policy s9) = pe_digest_secret (ps_policy s)" "pe_digest_replays (ps_policy s9) = pe_digest_replays (ps_policy s)"
    "pe_circuit_breakers (ps_policy s9) = pe_circuit_breakers (ps_policy s)"
    using keepsD [OF basic_auth_keeps(2) basic] policy_Inr(2) [OF policy] same by (simp_all add: evaluate_keeps serving_parts_def)
  have "pe_circuit_breakers (ps_policy s11) = pe_circuit_breakers (ps_policy s)"
    using keepsD [OF digest_auth_breakers digest] keepsD [OF forward_auth_keeps(2) forward] s9 by (simp add: serving_parts_def)
  with chosen have "well_chosen x p s" by (simp add: well_chosen_def)
  moreover have "fst (digest_passes w x req ctx c s)" if "em_digest_auth mw = Some c" "da_enabled c" for c
    using digest_auth_Inr [OF digest that] digest_passes_cong [of s9 s] s9 by simp
  ultimately show ?thesis
    using read_request_Inr(2-) [OF read] security_Inr [OF security] route same policy_Inr(1) [OF policy]
      basic_auth_Inr [OF basic] forward_auth_Inr [OF forward] mw by (auto simp: middleware_of_def)
qed

theorem forwarded_only_if_admitted_witness:
  "\<exists>p t. admit sample_world sample_request_world sample_get None Https None sample_start = (Inr p, t) \<and>
     rc_path (dt_context (pd_draft p)) = ''/'' \<and>
     (\<exists>host. requested_host plain_http sample_get = Some host \<and>
        find_route host ''/'' (es_routes (ps_state sample_start)) = Some (dt_matched (pd_draft p))) \<and>
     well_chosen sample_request_world p sample_start"
proof -
  obtain p t where run: "admit sample_world sample_request_world sample_get None Https None sample_start = (Inr p, t)"
    using sample_get_admitted by blast
  have hc: "px_hc sample_world = plain_http" by (simp add: sample_world_def sample_forward_env_def)
  have "canonicalize_path (uri_path (rq_uri sample_get)) = Inr ''/''" by (simp add: sample_get_def plain_uri_def) code_simp
  with forwarded_only_if_admitted [OF run] have "rc_path (dt_context (pd_draft p)) = ''/''" by simp
  with forwarded_only_if_admitted [OF run] run show ?thesis unfolding hc by (intro exI [of _ p] exI [of _ t]) auto
qed

text \<open>
  C12. A request is counted once, and its answer can be traced. Whatever the handler decides and
  whatever the upstream does, the request counter grows by exactly one, under the method of the
  request and the status of the answer it gets; and the answer carries the identifier of the request
  unless that identifier is no header value.
\<close>

theorem every_request_counted_once:
  "let (r, t) = handle w x x' client req peer_ip scheme cert s in
     (\<exists>domain. requests t = counter_inc [domain, rq_method req, show_nat (unat (sp_status r))] (requests s)) \<and>
     (hc_header_value (px_hc w) (rx_request_id x) = None \<or>
      hdr_get (sp_headers r) REQUEST_ID_HEADER = hc_header_value (px_hc w) (rx_request_id x))"
proof -
  obtain a s1 where run: "admit w x req peer_ip scheme cert s = (a, s1)" by fastforce
  have seen: "case a of Inl r \<Rightarrow> counted (rq_method req) (rs_status r) s s1 | Inr _ \<Rightarrow> requests s1 = requests s"
    using admit_observes [of req w x peer_ip scheme cert] run unfolding observes_def by (metis fst_conv snd_conv)
  show ?thesis
  proof (cases a)
    case (Inl r)
    then show ?thesis using run seen finish_request_id by (auto simp: handle_def counted_def)
  next
    case (Inr p)
    from admit_chain [OF run [unfolded Inr]] obtain host where
      read: "read_request w x req peer_ip scheme s = (Inr (host, dt_context (pd_draft p)), s)" by blast
    have "handle w x x' client req peer_ip scheme cert s = complete w x' client p s1" using run Inr by (simp add: handle_def)
    then show ?thesis
      using complete_counts [of w x' client p s1] complete_request_id [OF read_request_id [OF read], of w x' client s1]
        read_request_method [OF read] seen Inr by (auto simp: case_prod_unfold Let_def)
  qed
qed



end
