(* ===== verification/Redis_Sync.thy ===== *)
theory Redis_Sync
  imports Common_Validate Rate_Limit Std_Num "HOL-Library.Multiset" "HOL-Library.List_Lexorder" "HOL-Library.Char_ord" "HOL-Library.Product_Lexorder"
begin

text \<open>
  What the edge keeps in Redis (\<open>edge/crates/redis-sync/src/lib.rs\<close>): persisted routes, admin
  tokens, blacklist commands and bandwidth counters. The Redis server is a record of commands over
  an opaque state, each of which may fail; JSON texts are an opaque type with an encoder and a
  decoder; \<open>hash\<close> is SHA-256 in hexadecimal.
\<close>

section \<open>Definitions\<close>

subsection \<open>The server\<close>

datatype 'j redis_value = Text string | Json 'j

type_synonym ('s, 'a) redis_call = "'s \<Rightarrow> (string + 'a) \<times> 's"

record ('s, 'j) redis_ops =
  rd_connect :: "('s, unit) redis_call"
  rd_hset :: "string \<Rightarrow> string \<Rightarrow> 'j redis_value \<Rightarrow> ('s, nat) redis_call"
  rd_hget :: "string \<Rightarrow> string \<Rightarrow> ('s, 'j redis_value option) redis_call"
  rd_hdel :: "string \<Rightarrow> string \<Rightarrow> ('s, nat) redis_call"
  rd_hvals :: "string \<Rightarrow> ('s, 'j redis_value list) redis_call"
  rd_incr :: "string \<Rightarrow> u64 \<Rightarrow> ('s, u64) redis_call"
  rd_expire :: "string \<Rightarrow> nat \<Rightarrow> ('s, bool) redis_call"
  rd_get :: "string \<Rightarrow> ('s, u64 option) redis_call"
  rd_publish :: "string \<Rightarrow> 'j redis_value \<Rightarrow> ('s, nat) redis_call"

definition rd_return :: "'a \<Rightarrow> ('s, 'a) redis_call" where
  "rd_return x = (\<lambda>s. (Inr x, s))"

definition rd_fail :: "string \<Rightarrow> ('s, 'a) redis_call" where
  "rd_fail e = (\<lambda>s. (Inl e, s))"

definition rd_bind :: "('s, 'a) redis_call \<Rightarrow> ('a \<Rightarrow> ('s, 'b) redis_call) \<Rightarrow> ('s, 'b) redis_call" where
  "rd_bind m f = (\<lambda>s. case m s of (Inl e, s') \<Rightarrow> (Inl e, s') | (Inr x, s') \<Rightarrow> f x s')"

definition rd_lift :: "string + 'a \<Rightarrow> ('s, 'a) redis_call" where
  "rd_lift r = (\<lambda>s. (r, s))"

text \<open>\<open>serde_json::from_str\<close> of a stored text.\<close>

definition read_json :: "('j \<Rightarrow> string + 'a) \<Rightarrow> 'j redis_value \<Rightarrow> string + 'a" where
  "read_json decode v = (case v of Json j \<Rightarrow> decode j | Text _ \<Rightarrow> Inl ''invalid json'')"

fun collect_results :: "(string + 'a) list \<Rightarrow> string + 'a list" where
  "collect_results [] = Inr []"
| "collect_results (r # rs) = res_bind r (\<lambda>x. res_bind (collect_results rs) (\<lambda>xs. Inr (x # xs)))"

subsection \<open>Routes\<close>

definition persisted_form :: "route \<Rightarrow> route" where
  "persisted_form r = r\<lparr>rt_source := Api, rt_domain := normalize_domain (rt_domain r)\<rparr>"

definition load_route ::
    "('j \<Rightarrow> string + route) \<Rightarrow> (route \<Rightarrow> string + unit) \<Rightarrow> 'j redis_value \<Rightarrow> string + route" where
  "load_route decode validate v =
     res_bind (read_json decode v) (\<lambda>r. let r = persisted_form r in
     (case validate r of
        Inl reason \<Rightarrow> Inl (''invalid persisted route '' @ rt_domain r @ '': '' @ reason)
      | Inr _ \<Rightarrow> Inr r))"

definition load_routes ::
    "('s, 'j) redis_ops \<Rightarrow> ('j \<Rightarrow> string + route) \<Rightarrow> (route \<Rightarrow> string + unit) \<Rightarrow> string \<Rightarrow>
     ('s, route list) redis_call" where
  "load_routes rd decode validate key =
     rd_bind (rd_connect rd) (\<lambda>_.
     rd_bind (rd_hvals rd key) (\<lambda>vs.
       rd_lift (collect_results (map (load_route decode validate) (take MAX_ROUTES_PER_SOURCE vs)))))"

definition upsert_route ::
    "('s, 'j) redis_ops \<Rightarrow> (route \<Rightarrow> string + 'j) \<Rightarrow> (route \<Rightarrow> string + unit) \<Rightarrow> string \<Rightarrow> route \<Rightarrow>
     ('s, unit) redis_call" where
  "upsert_route rd encode validate key r =
     rd_bind (rd_connect rd) (\<lambda>_. let p = persisted_form r in
     (case validate p of
        Inl reason \<Rightarrow> rd_fail (''invalid route '' @ rt_domain p @ '': '' @ reason)
      | Inr _ \<Rightarrow>
          rd_bind (rd_lift (encode p)) (\<lambda>payload.
          rd_bind (rd_hset rd key (rt_domain p) (Json payload)) (\<lambda>_. rd_return ()))))"

definition delete_domain :: "('s, 'j) redis_ops \<Rightarrow> string \<Rightarrow> string \<Rightarrow> ('s, bool) redis_call" where
  "delete_domain rd key domain =
     rd_bind (rd_connect rd) (\<lambda>_.
     rd_bind (rd_hdel rd key (normalize_domain domain)) (\<lambda>n. rd_return (0 < n)))"

subsection \<open>Admin tokens\<close>

record admin_token_record =
  at_id :: string
  at_name :: string
  at_token_hash :: string
  at_scopes :: "string list"
  at_created_at_unix_ms :: u64
  at_last_used_unix_ms :: "u64 option"
  at_enabled :: bool

record admin_token_view =
  av_id :: string
  av_name :: string
  av_scopes :: "string list"
  av_created_at_unix_ms :: u64
  av_last_used_unix_ms :: "u64 option"
  av_enabled :: bool

definition default_admin_scopes :: "string list" where
  "default_admin_scopes = [''admin'']"

definition normalize_scopes :: "string list \<Rightarrow> string list" where
  "normalize_scopes scopes =
     (let scopes = remdups_adj (sort (filter (\<lambda>s. s \<noteq> []) (map (\<lambda>s. to_ascii_lowercase (trim s)) scopes)))
      in if scopes = [] then default_admin_scopes else scopes)"

definition token_view :: "admin_token_record \<Rightarrow> admin_token_view" where
  "token_view r =
     \<lparr>av_id = at_id r, av_name = at_name r, av_scopes = normalize_scopes (at_scopes r),
      av_created_at_unix_ms = at_created_at_unix_ms r, av_last_used_unix_ms = at_last_used_unix_ms r,
      av_enabled = at_enabled r\<rparr>"

definition redis_constant_time_eq :: "string \<Rightarrow> string \<Rightarrow> bool" where
  "redis_constant_time_eq l r =
     (length l = length r \<and>
      foldl (\<lambda>acc (a, b). acc OR (of_nat (byte_of a) XOR of_nat (byte_of b))) (0 :: u8) (zip l r) = 0)"

text \<open>The store's configuration with its crates: keys, hash and codec.\<close>

record ('s, 'j) redis_token_store =
  ts_redis :: "('s, 'j) redis_ops"
  ts_key :: string
  ts_hash_index_key :: string
  ts_hash :: "string \<Rightarrow> string"
  ts_encode :: "admin_token_record \<Rightarrow> 'j"
  ts_decode :: "'j \<Rightarrow> string + admin_token_record"

definition new_token_store ::
    "('s, 'j) redis_ops \<Rightarrow> (string \<Rightarrow> string) \<Rightarrow> (admin_token_record \<Rightarrow> 'j) \<Rightarrow> ('j \<Rightarrow> string + admin_token_record) \<Rightarrow>
     string \<Rightarrow> ('s, 'j) redis_token_store" where
  "new_token_store rd hash encode decode key =
     \<lparr>ts_redis = rd, ts_key = key, ts_hash_index_key = key @ '':hash_index'', ts_hash = hash,
      ts_encode = encode, ts_decode = decode\<rparr>"

text \<open>The three random identifiers and the clock that a new token takes.\<close>

record token_seed =
  sd_id :: string
  sd_first :: string
  sd_second :: string
  sd_now :: u64

definition fresh_token :: "token_seed \<Rightarrow> string" where
  "fresh_token d = ''pxxl_'' @ sd_first d @ ''_'' @ sd_second d"

definition new_token_record :: "(string \<Rightarrow> string) \<Rightarrow> token_seed \<Rightarrow> string \<Rightarrow> string list \<Rightarrow> admin_token_record" where
  "new_token_record hash d name scopes =
     \<lparr>at_id = sd_id d, at_name = name, at_token_hash = hash (fresh_token d), at_scopes = normalize_scopes scopes,
      at_created_at_unix_ms = sd_now d, at_last_used_unix_ms = None, at_enabled = True\<rparr>"

definition create_token_with_scopes ::
    "('s, 'j) redis_token_store \<Rightarrow> token_seed \<Rightarrow> string \<Rightarrow> string list \<Rightarrow>
     ('s, admin_token_view \<times> string) redis_call" where
  "create_token_with_scopes st d name scopes =
     (let r = new_token_record (ts_hash st) d name scopes in
      rd_bind (rd_connect (ts_redis st)) (\<lambda>_.
      rd_bind (rd_hset (ts_redis st) (ts_key st) (at_id r) (Json (ts_encode st r))) (\<lambda>_.
      rd_bind (rd_hset (ts_redis st) (ts_hash_index_key st) (at_token_hash r) (Text (at_id r))) (\<lambda>_.
        rd_return (token_view r, fresh_token d)))))"

definition create_token ::
    "('s, 'j) redis_token_store \<Rightarrow> token_seed \<Rightarrow> string \<Rightarrow> ('s, admin_token_view \<times> string) redis_call" where
  "create_token st d name = create_token_with_scopes st d name default_admin_scopes"

definition list_tokens :: "('s, 'j) redis_token_store \<Rightarrow> ('s, admin_token_view list) redis_call" where
  "list_tokens st =
     rd_bind (rd_connect (ts_redis st)) (\<lambda>_.
     rd_bind (rd_hvals (ts_redis st) (ts_key st)) (\<lambda>vs.
     rd_bind (rd_lift (collect_results (map (read_json (ts_decode st)) vs))) (\<lambda>rs.
       rd_return (sort_key (\<lambda>v. (av_name v, av_id v)) (map token_view rs)))))"

definition revoke_token :: "('s, 'j) redis_token_store \<Rightarrow> string \<Rightarrow> ('s, bool) redis_call" where
  "revoke_token st i =
     rd_bind (rd_connect (ts_redis st)) (\<lambda>_.
     rd_bind (rd_hget (ts_redis st) (ts_key st) i) (\<lambda>existing.
     rd_bind (case existing of
                None \<Rightarrow> rd_return ()
              | Some v \<Rightarrow>
                  rd_bind (rd_lift (read_json (ts_decode st) v)) (\<lambda>r.
                  rd_bind (rd_hdel (ts_redis st) (ts_hash_index_key st) (at_token_hash r)) (\<lambda>_. rd_return ()))) (\<lambda>_.
     rd_bind (rd_hdel (ts_redis st) (ts_key st) i) (\<lambda>removed. rd_return (0 < removed)))))"

fun revoke_named :: "('s, 'j) redis_token_store \<Rightarrow> string \<Rightarrow> 'j redis_value list \<Rightarrow> nat \<Rightarrow> ('s, nat) redis_call" where
  "revoke_named st name [] removed = rd_return removed"
| "revoke_named st name (v # vs) removed =
     rd_bind (rd_lift (read_json (ts_decode st) v)) (\<lambda>r.
       if at_name r \<noteq> name then revoke_named st name vs removed
       else rd_bind (rd_hdel (ts_redis st) (ts_hash_index_key st) (at_token_hash r)) (\<lambda>_.
            rd_bind (rd_hdel (ts_redis st) (ts_key st) (at_id r)) (\<lambda>deleted.
              revoke_named st name vs (removed + deleted))))"

definition revoke_tokens_by_name :: "('s, 'j) redis_token_store \<Rightarrow> string \<Rightarrow> ('s, nat) redis_call" where
  "revoke_tokens_by_name st name =
     rd_bind (rd_connect (ts_redis st)) (\<lambda>_.
     rd_bind (rd_hvals (ts_redis st) (ts_key st)) (\<lambda>vs. revoke_named st name vs 0))"

text \<open>The identifier that an index entry holds; the index has plain texts only.\<close>

definition text_of :: "'j redis_value \<Rightarrow> string option" where
  "text_of v = (case v of Text t \<Rightarrow> Some t | Json _ \<Rightarrow> None)"

definition verify_token :: "('s, 'j) redis_token_store \<Rightarrow> u64 \<Rightarrow> string \<Rightarrow> ('s, admin_token_view option) redis_call" where
  "verify_token st now token =
     (let token_hash = ts_hash st token in
      rd_bind (rd_connect (ts_redis st)) (\<lambda>_.
      rd_bind (rd_hget (ts_redis st) (ts_hash_index_key st) token_hash) (\<lambda>i.
      case Option.bind i text_of of
        None \<Rightarrow> rd_return None
      | Some i \<Rightarrow>
          rd_bind (rd_hget (ts_redis st) (ts_key st) i) (\<lambda>v.
          case v of
            None \<Rightarrow> rd_bind (rd_hdel (ts_redis st) (ts_hash_index_key st) token_hash) (\<lambda>_. rd_return None)
          | Some v \<Rightarrow>
              rd_bind (rd_lift (read_json (ts_decode st) v)) (\<lambda>r.
                if at_enabled r \<and> redis_constant_time_eq (at_token_hash r) token_hash
                then let r = r\<lparr>at_last_used_unix_ms := Some now\<rparr> in
                     rd_bind (rd_hset (ts_redis st) (ts_key st) (at_id r) (Json (ts_encode st r))) (\<lambda>_.
                       rd_return (Some (token_view r)))
                else rd_return None)))))"

subsection \<open>Blacklist commands\<close>

definition publish ::
    "('s, 'j) redis_ops \<Rightarrow> (blacklist_command \<Rightarrow> 'j) \<Rightarrow> string \<Rightarrow> blacklist_command \<Rightarrow> ('s, unit) redis_call" where
  "publish rd encode channel c =
     rd_bind (rd_connect rd) (\<lambda>_.
     rd_bind (rd_publish rd channel (Json (encode c))) (\<lambda>_. rd_return ()))"

text \<open>The subscription applies the commands of the channel until one cannot be read.\<close>

fun subscribe_forever ::
    "('j \<Rightarrow> string + blacklist_command) \<Rightarrow> 'j redis_value list \<Rightarrow> blacklist_engine \<Rightarrow> (string + unit) \<times> blacklist_engine" where
  "subscribe_forever decode [] bl = (Inr (), bl)"
| "subscribe_forever decode (m # ms) bl =
     (case read_json decode m of
        Inl e \<Rightarrow> (Inl e, bl)
      | Inr c \<Rightarrow> subscribe_forever decode ms (blacklist_apply c bl))"

subsection \<open>Bandwidth\<close>

text \<open>The civil date of the clock, as the \<open>chrono\<close> crate computes it.\<close>

record civil_date =
  cd_year :: int
  cd_month :: nat
  cd_day :: nat

definition two_digits :: "nat \<Rightarrow> string" where
  "two_digits n = (if n < 10 then ''0'' else []) @ show_nat n"

definition show_int :: "int \<Rightarrow> string" where
  "show_int i = (if i < 0 then ''-'' else []) @ show_nat (nat \<bar>i\<bar>)"

definition monthly_key :: "civil_date \<Rightarrow> string \<Rightarrow> string" where
  "monthly_key d domain =
     ''pxxl:bandwidth'' @ '':'' @ domain @ '':'' @ show_int (cd_year d) @ ''-'' @ two_digits (cd_month d)"

definition daily_key :: "civil_date \<Rightarrow> string \<Rightarrow> string" where
  "daily_key d domain = monthly_key d domain @ ''-'' @ two_digits (cd_day d)"

definition record_bandwidth :: "('s, 'j) redis_ops \<Rightarrow> civil_date \<Rightarrow> string \<Rightarrow> u64 \<Rightarrow> ('s, unit) redis_call" where
  "record_bandwidth rd d domain bytes =
     rd_bind (rd_connect rd) (\<lambda>_.
     rd_bind (rd_incr rd (monthly_key d domain) bytes) (\<lambda>_.
     rd_bind (rd_incr rd (daily_key d domain) bytes) (\<lambda>_.
     rd_bind (rd_expire rd (monthly_key d domain) (90 * 24 * 3600)) (\<lambda>_.
     rd_bind (rd_expire rd (daily_key d domain) (7 * 24 * 3600)) (\<lambda>_. rd_return ())))))"

definition get_usage :: "('s, 'j) redis_ops \<Rightarrow> string \<Rightarrow> ('s, u64) redis_call" where
  "get_usage rd key =
     rd_bind (rd_connect rd) (\<lambda>_.
     rd_bind (rd_get rd key) (\<lambda>n. rd_return (case n of Some n \<Rightarrow> n | None \<Rightarrow> 0)))"

definition get_monthly_usage :: "('s, 'j) redis_ops \<Rightarrow> civil_date \<Rightarrow> string \<Rightarrow> ('s, u64) redis_call" where
  "get_monthly_usage rd d domain = get_usage rd (monthly_key d domain)"

definition get_daily_usage :: "('s, 'j) redis_ops \<Rightarrow> civil_date \<Rightarrow> string \<Rightarrow> ('s, u64) redis_call" where
  "get_daily_usage rd d domain = get_usage rd (daily_key d domain)"

definition below_limit :: "u64 option \<Rightarrow> ('s, u64) redis_call \<Rightarrow> ('s, bool) redis_call \<Rightarrow> ('s, bool) redis_call" where
  "below_limit limit usage rest =
     (case limit of
        None \<Rightarrow> rest
      | Some l \<Rightarrow> rd_bind usage (\<lambda>n. if l \<le> n then rd_return False else rest))"

definition check_limit ::
    "('s, 'j) redis_ops \<Rightarrow> civil_date \<Rightarrow> string \<Rightarrow> u64 option \<Rightarrow> u64 option \<Rightarrow> ('s, bool) redis_call" where
  "check_limit rd d domain monthly_limit daily_limit =
     below_limit monthly_limit (get_monthly_usage rd d domain)
       (below_limit daily_limit (get_daily_usage rd d domain) (rd_return True))"

section \<open>Commands that are answered\<close>

text \<open>
  The documented behaviour of a reachable server: \<open>view s k\<close> is the hash stored at a key. A
  command answers, and changes the hashes as its name says.
\<close>

type_synonym 'j hashes = "string \<Rightarrow> string \<Rightarrow> 'j redis_value option"

definition redis_laws :: "('s, 'j) redis_ops \<Rightarrow> ('s \<Rightarrow> 'j hashes) \<Rightarrow> bool" where
  "redis_laws rd view \<longleftrightarrow>
     (\<forall>s. \<exists>s'. rd_connect rd s = (Inr (), s') \<and> view s' = view s) \<and>
     (\<forall>k f v s. \<exists>n s'. rd_hset rd k f v s = (Inr n, s') \<and> view s' = (view s)(k := (view s k)(f \<mapsto> v))) \<and>
     (\<forall>k f s. \<exists>s'. rd_hget rd k f s = (Inr (view s k f), s') \<and> view s' = view s) \<and>
     (\<forall>k f s. \<exists>s'. rd_hdel rd k f s = (Inr (if view s k f = None then 0 else 1), s') \<and>
        view s' = (view s)(k := (view s k)(f := None))) \<and>
     (\<forall>k s. \<exists>fs vs s'. rd_hvals rd k s = (Inr vs, s') \<and> view s' = view s \<and>
        distinct fs \<and> set fs = dom (view s k) \<and> map Some vs = map (view s k) fs)"

definition call_ok :: "('s \<Rightarrow> 'j hashes) \<Rightarrow> ('s, 'a) redis_call \<Rightarrow> 's \<Rightarrow> ('a \<Rightarrow> 'j hashes \<Rightarrow> bool) \<Rightarrow> bool" where
  "call_ok view m s P \<longleftrightarrow> (\<exists>x s'. m s = (Inr x, s') \<and> P x (view s'))"

lemma call_return: "P x (view s) \<Longrightarrow> call_ok view (rd_return x) s P"
  by (simp add: call_ok_def rd_return_def)

lemma call_lift: "r = Inr x \<Longrightarrow> P x (view s) \<Longrightarrow> call_ok view (rd_lift r) s P"
  by (simp add: call_ok_def rd_lift_def)

lemma call_bind:
  "call_ok view m s (\<lambda>x w. \<forall>s'. view s' = w \<longrightarrow> call_ok view (f x) s' P) \<Longrightarrow> call_ok view (rd_bind m f) s P"
  by (auto simp: call_ok_def rd_bind_def)

lemma call_mono: "call_ok view m s P \<Longrightarrow> (\<And>x w. P x w \<Longrightarrow> Q x w) \<Longrightarrow> call_ok view m s Q"
  by (auto simp: call_ok_def)

lemma call_connect: "redis_laws rd view \<Longrightarrow> P () (view s) \<Longrightarrow> call_ok view (rd_connect rd) s P"
  unfolding redis_laws_def call_ok_def by metis

lemma call_hset:
  "redis_laws rd view \<Longrightarrow> (\<And>n. P n ((view s)(k := (view s k)(f \<mapsto> v)))) \<Longrightarrow> call_ok view (rd_hset rd k f v) s P"
  unfolding redis_laws_def call_ok_def by metis

lemma call_hget: "redis_laws rd view \<Longrightarrow> P (view s k f) (view s) \<Longrightarrow> call_ok view (rd_hget rd k f) s P"
  unfolding redis_laws_def call_ok_def by metis

lemma call_hdel:
  "redis_laws rd view \<Longrightarrow> P (if view s k f = None then 0 else 1) ((view s)(k := (view s k)(f := None))) \<Longrightarrow>
   call_ok view (rd_hdel rd k f) s P"
  unfolding redis_laws_def call_ok_def by metis

lemma call_hvals:
  assumes "redis_laws rd view"
    and "\<And>fs vs. distinct fs \<Longrightarrow> set fs = dom (view s k) \<Longrightarrow> map Some vs = map (view s k) fs \<Longrightarrow> P vs (view s)"
  shows "call_ok view (rd_hvals rd k) s P"
proof -
  obtain fs vs s' where "rd_hvals rd k s = (Inr vs, s')" "view s' = view s" "distinct fs" "set fs = dom (view s k)"
    "map Some vs = map (view s k) fs"
    using assms(1) unfolding redis_laws_def by metis
  with assms(2) show ?thesis by (auto simp: call_ok_def)
qed

section \<open>The token store implements a list of records\<close>

datatype token_op =
    CreateToken token_seed string "string list"
  | RevokeToken string
  | RevokeNamed string
  | VerifyToken u64 string
  | ListTokens

datatype token_out =
    Created admin_token_view string
  | Revoked bool
  | RevokedMany nat
  | Verified "admin_token_view option"
  | Listed "admin_token_view list"

definition token_step :: "('s, 'j) redis_token_store \<Rightarrow> token_op \<Rightarrow> ('s, token_out) redis_call" where
  "token_step st op =
     (case op of
        CreateToken d name scopes \<Rightarrow> rd_bind (create_token_with_scopes st d name scopes) (\<lambda>(v, t). rd_return (Created v t))
      | RevokeToken i \<Rightarrow> rd_bind (revoke_token st i) (\<lambda>b. rd_return (Revoked b))
      | RevokeNamed name \<Rightarrow> rd_bind (revoke_tokens_by_name st name) (\<lambda>n. rd_return (RevokedMany n))
      | VerifyToken now token \<Rightarrow> rd_bind (verify_token st now token) (\<lambda>v. rd_return (Verified v))
      | ListTokens \<Rightarrow> rd_bind (list_tokens st) (\<lambda>vs. rd_return (Listed vs)))"

fun token_run :: "('s, 'j) redis_token_store \<Rightarrow> token_op list \<Rightarrow> ('s, token_out list) redis_call" where
  "token_run st [] = rd_return []"
| "token_run st (op # ops) = rd_bind (token_step st op) (\<lambda>x. rd_bind (token_run st ops) (\<lambda>xs. rd_return (x # xs)))"

text \<open>The specification: the live records, in the order they were created.\<close>

definition spec_verify :: "(string \<Rightarrow> string) \<Rightarrow> u64 \<Rightarrow> string \<Rightarrow> admin_token_record list \<Rightarrow>
    admin_token_view option \<times> admin_token_record list" where
  "spec_verify hash now token rs =
     (case find (\<lambda>r. at_token_hash r = hash token) rs of
        None \<Rightarrow> (None, rs)
      | Some r \<Rightarrow>
          if at_enabled r
          then (Some (token_view (r\<lparr>at_last_used_unix_ms := Some now\<rparr>)),
                map (\<lambda>q. if at_id q = at_id r then q\<lparr>at_last_used_unix_ms := Some now\<rparr> else q) rs)
          else (None, rs))"

definition spec_step :: "(string \<Rightarrow> string) \<Rightarrow> token_op \<Rightarrow> admin_token_record list \<Rightarrow> token_out \<times> admin_token_record list" where
  "spec_step hash op rs =
     (case op of
        CreateToken d name scopes \<Rightarrow>
          (Created (token_view (new_token_record hash d name scopes)) (fresh_token d), rs @ [new_token_record hash d name scopes])
      | RevokeToken i \<Rightarrow> (Revoked (i \<in> at_id ` set rs), filter (\<lambda>r. at_id r \<noteq> i) rs)
      | RevokeNamed name \<Rightarrow>
          (RevokedMany (length (filter (\<lambda>r. at_name r = name) rs)), filter (\<lambda>r. at_name r \<noteq> name) rs)
      | VerifyToken now token \<Rightarrow> (let (v, rs) = spec_verify hash now token rs in (Verified v, rs))
      | ListTokens \<Rightarrow> (Listed (sort_key (\<lambda>v. (av_name v, av_id v)) (map token_view rs)), rs))"

fun spec_run :: "(string \<Rightarrow> string) \<Rightarrow> token_op list \<Rightarrow> admin_token_record list \<Rightarrow> token_out list" where
  "spec_run hash [] rs = []"
| "spec_run hash (op # ops) rs = (let (x, rs) = spec_step hash op rs in x # spec_run hash ops rs)"

text \<open>The random identifiers are new, and so is the hash of the token made of them.\<close>

fun fresh_run :: "(string \<Rightarrow> string) \<Rightarrow> token_op list \<Rightarrow> admin_token_record list \<Rightarrow> bool" where
  "fresh_run hash [] rs = True"
| "fresh_run hash (op # ops) rs =
     ((case op of
         CreateToken d _ _ \<Rightarrow> sd_id d \<notin> at_id ` set rs \<and> hash (fresh_token d) \<notin> at_token_hash ` set rs
       | _ \<Rightarrow> True) \<and> fresh_run hash ops (snd (spec_step hash op rs)))"

definition stored :: "('s, 'j) redis_token_store \<Rightarrow> admin_token_record list \<Rightarrow> 'j hashes \<Rightarrow> bool" where
  "stored st rs w \<longleftrightarrow>
     distinct (map at_id rs) \<and> distinct (map at_token_hash rs) \<and>
     w (ts_key st) = map_of (map (\<lambda>r. (at_id r, Json (ts_encode st r))) rs) \<and>
     w (ts_hash_index_key st) = map_of (map (\<lambda>r. (at_token_hash r, Text (at_id r))) rs)"

definition store_ok :: "('s, 'j) redis_token_store \<Rightarrow> ('s \<Rightarrow> 'j hashes) \<Rightarrow> bool" where
  "store_ok st view \<longleftrightarrow> redis_laws (ts_redis st) view \<and> ts_key st \<noteq> ts_hash_index_key st \<and>
     (\<forall>r. ts_decode st (ts_encode st r) = Inr r)"

lemma map_of_keyed: "map_of (map (\<lambda>r. (k r, g r)) rs) x = map_option g (find (\<lambda>r. k r = x) rs)"
  by (induction rs) auto

lemma map_of_keyed_snoc:
  "k r \<notin> k ` set rs \<Longrightarrow> map_of (map (\<lambda>r. (k r, g r)) (rs @ [r])) = (map_of (map (\<lambda>r. (k r, g r)) rs))(k r \<mapsto> g r)"
  by (induction rs) (auto simp: fun_upd_twist)

lemma map_of_keyed_filter:
  "map_of (map (\<lambda>r. (k r, g r)) (filter (\<lambda>r. k r \<noteq> x) rs)) = (map_of (map (\<lambda>r. (k r, g r)) rs))(x := None)"
  by (induction rs) (auto simp: fun_upd_twist)

lemma distinct_keyed_eq: "distinct (map k rs) \<Longrightarrow> r \<in> set rs \<Longrightarrow> q \<in> set rs \<Longrightarrow> k r = k q \<Longrightarrow> r = q"
  by (auto simp: distinct_map inj_on_def)

lemma find_keyed: "distinct (map k rs) \<Longrightarrow> r \<in> set rs \<Longrightarrow> find (\<lambda>q. k q = k r) rs = Some r"
  by (induction rs) (auto dest: distinct_keyed_eq)

lemma find_Some: "find P xs = Some x \<Longrightarrow> x \<in> set xs \<and> P x"
  by (auto simp: find_Some_iff)

lemma drop_by_other_key:
  assumes "distinct (map k rs)" "distinct (map h rs)" "q \<in> set rs"
  shows "filter (\<lambda>r. k r \<noteq> k q) rs = filter (\<lambda>r. h r \<noteq> h q) rs"
  using assms by (intro filter_cong) (auto dest: distinct_keyed_eq)

lemma stored_distinct: "stored st rs w \<Longrightarrow> distinct (map at_id rs) \<and> distinct (map at_token_hash rs)"
  by (simp add: stored_def)

lemma stored_drop:
  assumes "stored st rs w" and "q \<in> set rs" and "ts_key st \<noteq> ts_hash_index_key st"
  shows "stored st (filter (\<lambda>r. at_id r \<noteq> at_id q) rs)
    ((w(ts_hash_index_key st := (w (ts_hash_index_key st))(at_token_hash q := None)))
      (ts_key st := (w (ts_key st))(at_id q := None)))"
proof -
  have same: "filter (\<lambda>r. at_id r \<noteq> at_id q) rs = filter (\<lambda>r. at_token_hash r \<noteq> at_token_hash q) rs"
    using assms stored_distinct by (intro drop_by_other_key) auto
  have index: "map_of (map (\<lambda>r. (at_token_hash r, Text (at_id r))) (filter (\<lambda>r. at_id r \<noteq> at_id q) rs)) =
      (map_of (map (\<lambda>r. (at_token_hash r, Text (at_id r))) rs))(at_token_hash q := None)"
    unfolding same by (rule map_of_keyed_filter)
  have records: "map_of (map (\<lambda>r. (at_id r, Json (ts_encode st r))) (filter (\<lambda>r. at_id r \<noteq> at_id q) rs)) =
      (map_of (map (\<lambda>r. (at_id r, Json (ts_encode st r))) rs))(at_id q := None)"
    by (rule map_of_keyed_filter)
  show ?thesis
    using assms unfolding stored_def index records by (simp add: distinct_map_filter)
qed

lemma create_stored:
  assumes "store_ok st view" and "stored st rs (view s)"
    and "sd_id d \<notin> at_id ` set rs" and "ts_hash st (fresh_token d) \<notin> at_token_hash ` set rs"
  shows "call_ok view (create_token_with_scopes st d name scopes) s
    (\<lambda>x w. x = (token_view (new_token_record (ts_hash st) d name scopes), fresh_token d) \<and>
       stored st (rs @ [new_token_record (ts_hash st) d name scopes]) w)"
proof -
  define r where "r = new_token_record (ts_hash st) d name scopes"
  have r: "at_id r = sd_id d" "at_token_hash r = ts_hash st (fresh_token d)"
    by (simp_all add: r_def new_token_record_def)
  have laws: "redis_laws (ts_redis st) view" and keys: "ts_key st \<noteq> ts_hash_index_key st"
    using assms(1) by (auto simp: store_ok_def)
  let ?w = "(view s)(ts_key st := (view s (ts_key st))(at_id r \<mapsto> Json (ts_encode st r)),
    ts_hash_index_key st := (view s (ts_hash_index_key st))(at_token_hash r \<mapsto> Text (at_id r)))"
  have "distinct (map at_id (rs @ [r]))" "distinct (map at_token_hash (rs @ [r]))"
    using assms r by (auto simp: stored_def)
  then have "stored st (rs @ [r]) ?w"
    using assms r keys unfolding stored_def
    by (simp add: map_of_keyed_snoc [of at_id] map_of_keyed_snoc [of at_token_hash] del: map_append)
  with keys show ?thesis
    unfolding create_token_with_scopes_def r_def [symmetric] Let_def
    by (auto intro!: call_bind call_connect [OF laws] call_hset [OF laws] call_return)
qed

lemma stored_record:
  assumes "store_ok st view" and "stored st rs w"
  shows "w (ts_key st) i = map_option (\<lambda>r. Json (ts_encode st r)) (find (\<lambda>r. at_id r = i) rs)"
    and "w (ts_hash_index_key st) h = map_option (\<lambda>r. Text (at_id r)) (find (\<lambda>r. at_token_hash r = h) rs)"
    and "read_json (ts_decode st) (Json (ts_encode st r)) = Inr r"
  using assms by (simp_all add: stored_def store_ok_def map_of_keyed read_json_def)

lemma revoke_stored:
  assumes ok: "store_ok st view" and st: "stored st rs (view s)"
  shows "call_ok view (revoke_token st i) s
    (\<lambda>x w. x = (i \<in> at_id ` set rs) \<and> stored st (filter (\<lambda>r. at_id r \<noteq> i) rs) w)"
proof (cases "find (\<lambda>r. at_id r = i) rs")
  case None
  have laws: "redis_laws (ts_redis st) view" using ok by (simp add: store_ok_def)
  from None have no: "i \<notin> at_id ` set rs" and same: "filter (\<lambda>r. at_id r \<noteq> i) rs = rs"
    by (auto simp: find_None_iff filter_id_conv)
  have "view s (ts_key st) i = None" using stored_record(1) [OF ok st] None by simp
  moreover from this have "(view s)(ts_key st := (view s (ts_key st))(i := None)) = view s" by (simp add: fun_upd_idem)
  ultimately show ?thesis
    using st no unfolding revoke_token_def same
    by (auto intro!: call_bind call_connect [OF laws] call_hget [OF laws] call_hdel [OF laws] call_return)
next
  case (Some q)
  have laws: "redis_laws (ts_redis st) view" and keys: "ts_key st \<noteq> ts_hash_index_key st"
    using ok by (auto simp: store_ok_def)
  from find_Some [OF Some] have q: "q \<in> set rs" "at_id q = i" by auto
  have v: "view s (ts_key st) i = Some (Json (ts_encode st q))" using stored_record(1) [OF ok st] Some by simp
  have "stored st (filter (\<lambda>r. at_id r \<noteq> i) rs)
    ((view s)(ts_hash_index_key st := (view s (ts_hash_index_key st))(at_token_hash q := None),
      ts_key st := (view s (ts_key st))(i := None)))"
    using stored_drop [OF st q(1) keys] q(2) by simp
  then show ?thesis
    using q v keys unfolding revoke_token_def
    by (auto intro!: call_bind call_connect [OF laws] call_hget [OF laws] call_hdel [OF laws] call_return
        call_lift [OF stored_record(3) [OF ok st]])
qed

text \<open>What \<open>HVALS\<close> returns is the records in some order.\<close>

lemma stored_values:
  assumes "stored st rs w" and "distinct fs" and "set fs = dom (w (ts_key st))" and "map Some vs = map (w (ts_key st)) fs"
  shows "\<exists>qs. vs = map (\<lambda>r. Json (ts_encode st r)) qs \<and> mset qs = mset rs"
proof -
  let ?get = "\<lambda>i. the (find (\<lambda>r. at_id r = i) rs)"
  have dom: "set fs = at_id ` set rs"
    using assms(1,3) by (auto simp: stored_def dom_map_of_conv_image_fst image_iff)
  have found: "find (\<lambda>r. at_id r = at_id q) rs = Some q" if "q \<in> set rs" for q
    using find_keyed [of at_id rs q] assms(1) that by (simp add: stored_def)
  have "map Some vs = map (\<lambda>i. Some (Json (ts_encode st (?get i)))) fs"
    unfolding assms(4) using assms(1) dom found by (auto simp: stored_def map_of_keyed)
  then have "map Some vs = map Some (map (\<lambda>r. Json (ts_encode st r)) (map ?get fs))" by simp
  then have "vs = map (\<lambda>r. Json (ts_encode st r)) (map ?get fs)" by (simp only: inj_map_eq_map inj_Some)
  moreover have "mset (map ?get fs) = mset rs"
  proof -
    have "mset fs = mset (map at_id rs)"
      using assms(1,2) dom set_eq_iff_mset_eq_distinct [of fs "map at_id rs"] by (simp add: stored_def)
    then have "mset (map ?get fs) = mset (map ?get (map at_id rs))" by (metis mset_map)
    also have "map ?get (map at_id rs) = rs" using found by (auto intro: map_idI)
    finally show ?thesis .
  qed
  ultimately show ?thesis by blast
qed

lemma revoke_named_stored:
  assumes ok: "store_ok st view"
  shows "stored st rs (view s) \<Longrightarrow> set qs \<subseteq> set rs \<Longrightarrow> distinct qs \<Longrightarrow>
    call_ok view (revoke_named st name (map (\<lambda>r. Json (ts_encode st r)) qs) n) s
      (\<lambda>x w. x = n + length (filter (\<lambda>r. at_name r = name) qs) \<and>
         stored st (filter (\<lambda>r. r \<notin> set qs \<or> at_name r \<noteq> name) rs) w)"
proof (induction qs arbitrary: rs s n)
  case Nil
  then show ?case by (simp add: call_return)
next
  case (Cons q qs)
  have laws: "redis_laws (ts_redis st) view" and keys: "ts_key st \<noteq> ts_hash_index_key st"
    using ok by (auto simp: store_ok_def)
  have json: "read_json (ts_decode st) (Json (ts_encode st q)) = Inr q"
    by (rule stored_record(3) [OF ok Cons.prems(1)])
  define P where "P = (\<lambda>x w. x = n + length (filter (\<lambda>r. at_name r = name) (q # qs)) \<and>
    stored st (filter (\<lambda>r. r \<notin> set (q # qs) \<or> at_name r \<noteq> name) rs) w)"
  show ?case
  proof (cases "at_name q = name")
    case False
    then have "filter (\<lambda>r. r \<notin> set (q # qs) \<or> at_name r \<noteq> name) rs = filter (\<lambda>r. r \<notin> set qs \<or> at_name r \<noteq> name) rs"
      by (intro filter_cong) auto
    then have rest: "call_ok view (revoke_named st name (map (\<lambda>r. Json (ts_encode st r)) qs) n) s' P"
      if "view s' = view s" for s'
      using Cons.IH [of rs s' n] Cons.prems False that unfolding P_def by simp
    show ?thesis
      unfolding P_def [symmetric] using False rest by (auto intro!: call_bind call_lift [OF json])
  next
    case True
    let ?rs = "filter (\<lambda>r. at_id r \<noteq> at_id q) rs"
    have q: "q \<in> set rs" using Cons.prems by simp
    have others: "at_id r = at_id q \<longleftrightarrow> r = q" if "r \<in> set rs" for r
      using distinct_keyed_eq [of at_id rs r q] Cons.prems(1) q that by (auto simp: stored_def)
    have after: "stored st ?rs
      ((view s)(ts_hash_index_key st := (view s (ts_hash_index_key st))(at_token_hash q := None),
        ts_key st := (view s (ts_key st))(at_id q := None)))"
      by (rule stored_drop [OF Cons.prems(1) q keys])
    have present: "view s (ts_key st) (at_id q) \<noteq> None"
      using stored_record(1) [OF ok Cons.prems(1)] find_keyed [of at_id rs q] q Cons.prems(1) by (simp add: stored_def)
    have "set qs \<subseteq> set ?rs" "distinct qs" using Cons.prems others by auto
    moreover have "filter (\<lambda>r. r \<notin> set qs \<or> at_name r \<noteq> name) ?rs =
        filter (\<lambda>r. r \<notin> set (q # qs) \<or> at_name r \<noteq> name) rs"
      unfolding filter_filter using others True Cons.prems by (intro filter_cong) auto
    ultimately have rest: "call_ok view (revoke_named st name (map (\<lambda>r. Json (ts_encode st r)) qs) (Suc n)) s' P"
      if "stored st ?rs (view s')" for s'
      using Cons.IH [of ?rs s' "Suc n"] that True unfolding P_def by simp
    show ?thesis
      unfolding P_def [symmetric] using True keys present after
      by (auto intro!: call_bind call_lift [OF json] call_hdel [OF laws] rest [folded True])
  qed
qed

lemma revoke_by_name_stored:
  assumes ok: "store_ok st view" and st: "stored st rs (view s)"
  shows "call_ok view (revoke_tokens_by_name st name) s
    (\<lambda>x w. x = length (filter (\<lambda>r. at_name r = name) rs) \<and> stored st (filter (\<lambda>r. at_name r \<noteq> name) rs) w)"
proof -
  have laws: "redis_laws (ts_redis st) view" using ok by (simp add: store_ok_def)
  define P where "P = (\<lambda>x w. x = length (filter (\<lambda>r. at_name r = name) rs) \<and> stored st (filter (\<lambda>r. at_name r \<noteq> name) rs) w)"
  have "call_ok view (revoke_named st name vs 0) s' P"
    if same: "view s' = view s" and vals: "distinct fs" "set fs = dom (view s (ts_key st))" "map Some vs = map (view s (ts_key st)) fs"
    for vs fs s'
  proof -
    from stored_values [OF st vals] obtain qs where qs: "vs = map (\<lambda>r. Json (ts_encode st r)) qs" "mset qs = mset rs" by blast
    have "set qs = set rs" using mset_eq_setD [OF qs(2)] .
    moreover have "distinct qs" using st mset_eq_imp_distinct_iff [OF qs(2)] by (auto simp: stored_def distinct_map)
    moreover have "length (filter (\<lambda>r. at_name r = name) qs) = length (filter (\<lambda>r. at_name r = name) rs)"
      by (metis mset_filter qs(2) size_mset)
    moreover have "filter (\<lambda>r. r \<notin> set rs \<or> at_name r \<noteq> name) rs = filter (\<lambda>r. at_name r \<noteq> name) rs"
      by (intro filter_cong) auto
    ultimately show ?thesis
      using revoke_named_stored [OF ok, of rs s' qs name 0] st same qs(1) unfolding P_def by simp
  qed
  then show ?thesis
    unfolding revoke_tokens_by_name_def P_def [symmetric]
    by (auto intro!: call_bind call_connect [OF laws] call_hvals [OF laws])
qed

lemma collect_decoded:
  assumes "store_ok st view"
  shows "collect_results (map (\<lambda>v. read_json (ts_decode st) v) (map (\<lambda>r. Json (ts_encode st r)) qs)) = Inr qs"
  using assms by (induction qs) (simp_all add: res_bind_def read_json_def store_ok_def)

lemma sort_key_distinct_unique:
  assumes "mset xs = mset ys" and "distinct (map f xs)"
  shows "sort_key f xs = sort_key f ys"
proof (rule properties_for_sort_key)
  show "mset (sort_key f ys) = mset xs" using assms(1) by simp
  show "sorted (map f (sort_key f ys))" by simp
  fix k assume "k \<in> set (sort_key f ys)"
  have one: "length (filter (\<lambda>x. f k = f x) zs) \<le> 1" if "distinct (map f zs)" for zs
    using that by (induction zs) (auto simp: filter_empty_conv image_iff)
  have "distinct (map f (sort_key f ys))" using assms
    by (metis distinct_map mset_eq_imp_distinct_iff mset_map mset_sort)
  then have "length (filter (\<lambda>x. f k = f x) (sort_key f ys)) \<le> 1" "length (filter (\<lambda>x. f k = f x) xs) \<le> 1"
    using one assms(2) by auto
  moreover have "mset (filter (\<lambda>x. f k = f x) (sort_key f ys)) = mset (filter (\<lambda>x. f k = f x) xs)"
    using assms(1) by (simp add: mset_filter)
  ultimately show "filter (\<lambda>x. f k = f x) (sort_key f ys) = filter (\<lambda>x. f k = f x) xs"
    by (cases "filter (\<lambda>x. f k = f x) (sort_key f ys)"; cases "filter (\<lambda>x. f k = f x) xs") auto
qed

lemma list_stored:
  assumes ok: "store_ok st view" and st: "stored st rs (view s)"
  shows "call_ok view (list_tokens st) s
    (\<lambda>x w. x = sort_key (\<lambda>v. (av_name v, av_id v)) (map token_view rs) \<and> stored st rs w)"
proof -
  have laws: "redis_laws (ts_redis st) view" using ok by (simp add: store_ok_def)
  let ?sorted = "sort_key (\<lambda>v. (av_name v, av_id v))"
  have "\<exists>qs. collect_results (map (read_json (ts_decode st)) vs) = Inr qs \<and> ?sorted (map token_view qs) = ?sorted (map token_view rs)"
    if vals: "distinct fs" "set fs = dom (view s (ts_key st))" "map Some vs = map (view s (ts_key st)) fs" for fs vs
  proof -
    from stored_values [OF st vals] obtain qs where qs: "vs = map (\<lambda>r. Json (ts_encode st r)) qs" "mset qs = mset rs" by blast
    have "map (\<lambda>v. (av_name v, av_id v)) (map token_view qs) = map (\<lambda>r. (at_name r, at_id r)) qs"
      by (simp add: token_view_def)
    moreover have "distinct (map at_id qs)" using st qs(2) by (metis mset_eq_imp_distinct_iff mset_map stored_def)
    then have "distinct (map (\<lambda>r. (at_name r, at_id r)) qs)" by (auto simp: distinct_map inj_on_def)
    moreover have "mset (map token_view qs) = mset (map token_view rs)" using qs(2) by simp
    ultimately have "?sorted (map token_view qs) = ?sorted (map token_view rs)" by (metis sort_key_distinct_unique)
    then show ?thesis using collect_decoded [OF ok, of qs] qs(1) by (auto simp: comp_def)
  qed
  then show ?thesis
    using st unfolding list_tokens_def
    by (fastforce intro!: call_bind call_connect [OF laws] call_hvals [OF laws] call_return intro: call_lift)
qed

lemma redis_eq [simp]: "redis_constant_time_eq l r \<longleftrightarrow> l = r"
  by (auto simp: redis_constant_time_eq_def fold_differences)

lemma stored_update:
  assumes "stored st rs w" and "r \<in> set rs" and "ts_key st \<noteq> ts_hash_index_key st"
  shows "stored st (map (\<lambda>q. if at_id q = at_id r then q\<lparr>at_last_used_unix_ms := Some now\<rparr> else q) rs)
    (w(ts_key st := (w (ts_key st))(at_id r \<mapsto> Json (ts_encode st (r\<lparr>at_last_used_unix_ms := Some now\<rparr>)))))"
proof -
  let ?upd = "\<lambda>q. if at_id q = at_id r then q\<lparr>at_last_used_unix_ms := Some now\<rparr> else q"
  have keys: "at_id (?upd q) = at_id q" "at_token_hash (?upd q) = at_token_hash q" for q by simp_all
  have "map_of (map (\<lambda>q. (at_id q, Json (ts_encode st (?upd q)))) rs) =
      (map_of (map (\<lambda>q. (at_id q, Json (ts_encode st q))) rs))(at_id r \<mapsto> Json (ts_encode st (?upd r)))"
  proof
    fix i
    have "find (\<lambda>q. at_id q = at_id r) rs = Some r"
      using find_keyed [of at_id rs r] assms(1,2) by (simp add: stored_def)
    then show "map_of (map (\<lambda>q. (at_id q, Json (ts_encode st (?upd q)))) rs) i =
      ((map_of (map (\<lambda>q. (at_id q, Json (ts_encode st q))) rs))(at_id r \<mapsto> Json (ts_encode st (?upd r)))) i"
      unfolding map_of_keyed by (auto simp: map_of_keyed dest!: find_Some intro!: map_option_cong)
  qed
  then show ?thesis
    using assms unfolding stored_def by (simp add: comp_def keys cong: if_cong)
qed

lemma verify_stored:
  assumes ok: "store_ok st view" and st: "stored st rs (view s)"
  shows "call_ok view (verify_token st now token) s
    (\<lambda>x w. x = fst (spec_verify (ts_hash st) now token rs) \<and> stored st (snd (spec_verify (ts_hash st) now token rs)) w)"
proof (cases "find (\<lambda>r. at_token_hash r = ts_hash st token) rs")
  case None
  have laws: "redis_laws (ts_redis st) view" using ok by (simp add: store_ok_def)
  have "view s (ts_hash_index_key st) (ts_hash st token) = None" using stored_record(2) [OF ok st] None by simp
  then show ?thesis
    using st None unfolding verify_token_def spec_verify_def
    by (auto simp: Let_def intro!: call_bind call_connect [OF laws] call_hget [OF laws] call_return)
next
  case (Some r)
  have laws: "redis_laws (ts_redis st) view" and keys: "ts_key st \<noteq> ts_hash_index_key st"
    using ok by (auto simp: store_ok_def)
  from find_Some [OF Some] have r: "r \<in> set rs" "at_token_hash r = ts_hash st token" by auto
  have "view s (ts_hash_index_key st) (ts_hash st token) = Some (Text (at_id r))"
    using stored_record(2) [OF ok st] Some by simp
  moreover have "view s (ts_key st) (at_id r) = Some (Json (ts_encode st r))"
    using stored_record(1) [OF ok st] find_keyed [of at_id rs r] r st by (simp add: stored_def)
  ultimately show ?thesis
    using st Some r stored_update [OF st r(1) keys] unfolding verify_token_def spec_verify_def
    by (auto simp: Let_def text_of_def intro!: call_bind call_connect [OF laws] call_hget [OF laws] call_hset [OF laws]
        call_return call_lift [OF stored_record(3) [OF ok st]])
qed

lemma step_stored:
  assumes ok: "store_ok st view" and st: "stored st rs (view s)" and "fresh_run (ts_hash st) [op] rs"
  shows "call_ok view (token_step st op) s
    (\<lambda>x w. x = fst (spec_step (ts_hash st) op rs) \<and> stored st (snd (spec_step (ts_hash st) op rs)) w)"
proof (cases op)
  case (CreateToken d name scopes)
  with assms show ?thesis
    by (auto simp: token_step_def spec_step_def intro!: call_bind call_mono [OF create_stored [OF ok st]] call_return)
next
  case (RevokeToken i)
  then show ?thesis
    by (auto simp: token_step_def spec_step_def intro!: call_bind call_mono [OF revoke_stored [OF ok st]] call_return)
next
  case (RevokeNamed name)
  then show ?thesis
    by (auto simp: token_step_def spec_step_def intro!: call_bind call_mono [OF revoke_by_name_stored [OF ok st]] call_return)
next
  case (VerifyToken now token)
  then show ?thesis
    by (auto simp: token_step_def spec_step_def split_beta intro!: call_bind call_mono [OF verify_stored [OF ok st]] call_return)
next
  case ListTokens
  then show ?thesis
    by (auto simp: token_step_def spec_step_def intro!: call_bind call_mono [OF list_stored [OF ok st]] call_return)
qed

lemma run_stored:
  assumes ok: "store_ok st view"
  shows "stored st rs (view s) \<Longrightarrow> fresh_run (ts_hash st) ops rs \<Longrightarrow>
    call_ok view (token_run st ops) s (\<lambda>x w. x = spec_run (ts_hash st) ops rs)"
proof (induction ops arbitrary: rs s)
  case (Cons op ops)
  have "fresh_run (ts_hash st) [op] rs" using Cons.prems(2) by simp
  from step_stored [OF ok Cons.prems(1) this] show ?case
    using Cons.prems(2)
    by (auto simp: split_beta Let_def intro!: call_bind call_return elim!: call_mono
        intro!: call_mono [OF Cons.IH [of "snd (spec_step (ts_hash st) op rs)"]])
qed (simp add: call_return)

section \<open>Routes and bandwidth\<close>

lemma collect_results_Inr: "collect_results rs = Inr xs \<longleftrightarrow> rs = map Inr xs"
proof (induction rs arbitrary: xs)
  case (Cons r rs)
  have "collect_results (r # rs) = Inr xs \<longleftrightarrow>
      (\<exists>x ys. r = Inr x \<and> collect_results rs = Inr ys \<and> xs = x # ys)"
    by (cases r; cases "collect_results rs") (auto simp: res_bind_def)
  then show ?case using Cons.IH by (cases xs) auto
qed auto

text \<open>Whatever Redis holds, the routes that are loaded are admissible API routes, and not too many.\<close>

lemma loaded_routes_valid:
  assumes "fst (load_routes rd decode validate key s) = Inr rs"
  shows "length rs \<le> MAX_ROUTES_PER_SOURCE \<and>
    (\<forall>r\<in>set rs. rt_source r = Api \<and> (\<exists>d. rt_domain r = normalize_domain d) \<and> is_ok (validate r))"
proof -
  obtain vs where "map (load_route decode validate) (take MAX_ROUTES_PER_SOURCE vs) = map Inr rs"
    using assms by (auto simp: load_routes_def rd_bind_def rd_lift_def collect_results_Inr split: prod.splits sum.splits)
  then have "length rs = length (take MAX_ROUTES_PER_SOURCE vs)"
    and "Inr ` set rs \<subseteq> range (load_route decode validate)"
    by (metis length_map, metis image_subset_iff list.set_map rangeI)
  then have "length rs \<le> MAX_ROUTES_PER_SOURCE" and loaded: "r \<in> set rs \<Longrightarrow> \<exists>v. load_route decode validate v = Inr r" for r
    by (auto simp: image_iff) (metis rangeE subsetD imageI)
  moreover have "rt_source r = Api \<and> (\<exists>d. rt_domain r = normalize_domain d) \<and> is_ok (validate r)"
    if "load_route decode validate v = Inr r" for v r
    using that by (auto simp: load_route_def res_bind_def persisted_form_def is_ok_def Let_def split: sum.splits)
  ultimately show ?thesis by blast
qed

text \<open>One entry that does not decode or validate hides every persisted route.\<close>

lemma bad_entry_hides_all:
  assumes "rd_connect rd s = (Inr (), s1)" and "rd_hvals rd key s1 = (Inr vs, s2)"
    and "v \<in> set (take MAX_ROUTES_PER_SOURCE vs)" and "load_route decode validate v = Inl e"
  shows "\<not> is_ok (fst (load_routes rd decode validate key s))"
proof -
  have "collect_results (map (load_route decode validate) (take MAX_ROUTES_PER_SOURCE vs)) \<noteq> Inr xs" for xs
    unfolding collect_results_Inr using assms(3,4) by (metis imageI list.set_map Inl_Inr_False imageE)
  with assms(1,2) show ?thesis
    by (auto simp: load_routes_def rd_bind_def rd_lift_def is_ok_def split: sum.splits)
qed

text \<open>A domain is within its limits while both counters are below them.\<close>

lemma check_limit_iff:
  assumes "\<And>key s. fst (get_usage rd key s) = Inr (usage key)"
  shows "fst (check_limit rd d domain monthly daily s) =
    Inr ((\<forall>l. monthly = Some l \<longrightarrow> usage (monthly_key d domain) < l) \<and> (\<forall>l. daily = Some l \<longrightarrow> usage (daily_key d domain) < l))"
proof -
  have answered: "\<exists>s'. get_usage rd key s = (Inr (usage key), s')" for key s
    using assms [of key s] by (cases "get_usage rd key s") auto
  obtain s' where m: "get_usage rd (monthly_key d domain) s = (Inr (usage (monthly_key d domain)), s')" using answered by blast
  obtain t where t: "get_usage rd (daily_key d domain) s = (Inr (usage (daily_key d domain)), t)" using answered by blast
  obtain u where u: "get_usage rd (daily_key d domain) s' = (Inr (usage (daily_key d domain)), u)" using answered by blast
  show ?thesis
    by (cases monthly; cases daily)
      (auto simp: check_limit_def below_limit_def get_monthly_usage_def get_daily_usage_def rd_bind_def rd_return_def m t u)
qed

section \<open>Properties\<close>

text \<open>
  C13. The admin tokens kept in Redis behave like a list of live records, whatever the sequence of
  creations, revocations (one or by name), verifications and listings: on a server that answers, with
  new random identifiers and no two tokens of the same hash, every operation answers exactly what the
  list says. In particular a token is accepted from its creation until it is revoked, and no longer,
  although it is found through a second hash that indexes the first by the token's digest.
\<close>

theorem token_store_refines_records:
  assumes "redis_laws rd view" and "\<And>r. decode (encode r) = Inr r"
    and "view s = (\<lambda>_ _. None)" and "fresh_run hash ops []"
  shows "fst (token_run (new_token_store rd hash encode decode key) ops s) = Inr (spec_run hash ops [])"
proof -
  let ?st = "new_token_store rd hash encode decode key"
  have "store_ok ?st view" using assms(1,2) by (simp add: store_ok_def new_token_store_def)
  moreover have "stored ?st [] (view s)" using assms(3) by (simp add: stored_def fun_eq_iff)
  moreover have "ts_hash ?st = hash" by (simp add: new_token_store_def)
  ultimately show ?thesis using run_stored [of ?st view "[]" s ops] assms(4) by (auto simp: call_ok_def)
qed

text \<open>A server that keeps its hashes in memory.\<close>

type_synonym 'j memory = "(string \<times> string, 'j redis_value) hmap"

definition memory_fields :: "string \<Rightarrow> 'j memory \<Rightarrow> string list" where
  "memory_fields k m = remdups (map (snd \<circ> fst) (filter (\<lambda>e. fst (fst e) = k) m))"

definition memory_redis :: "('j memory, 'j) redis_ops" where
  "memory_redis =
     \<lparr>rd_connect = (\<lambda>m. (Inr (), m)),
      rd_hset = (\<lambda>k f v m. (Inr 1, hm_insert (k, f) v m)),
      rd_hget = (\<lambda>k f m. (Inr (hm_get m (k, f)), m)),
      rd_hdel = (\<lambda>k f m. (Inr (if hm_get m (k, f) = None then 0 else 1), hm_remove (k, f) m)),
      rd_hvals = (\<lambda>k m. (Inr (map (\<lambda>f. the (hm_get m (k, f))) (memory_fields k m)), m)),
      rd_incr = (\<lambda>_ n m. (Inr n, m)), rd_expire = (\<lambda>_ _ m. (Inr True, m)), rd_get = (\<lambda>_ m. (Inr None, m)),
      rd_publish = (\<lambda>_ _ m. (Inr 0, m))\<rparr>"

lemma memory_fields_dom: "set (memory_fields k m) = dom (\<lambda>f. hm_get m (k, f))"
proof (intro set_eqI)
  fix f
  have "f \<in> set (memory_fields k m) \<longleftrightarrow> (k, f) \<in> fst ` set m"
    unfolding memory_fields_def by force
  also have "\<dots> \<longleftrightarrow> f \<in> dom (\<lambda>f. hm_get m (k, f))"
    by (metis domIff map_of_eq_None_iff)
  finally show "f \<in> set (memory_fields k m) \<longleftrightarrow> f \<in> dom (\<lambda>f. hm_get m (k, f))" .
qed

lemma memory_values:
  "map Some (map (\<lambda>f. the (hm_get m (k, f))) (memory_fields k m)) = map (\<lambda>f. hm_get m (k, f)) (memory_fields k m)"
  using memory_fields_dom [of k m] by auto

lemma memory_distinct: "distinct (memory_fields k m)"
  by (simp add: memory_fields_def)

lemma memory_laws: "redis_laws memory_redis (\<lambda>m k f. hm_get m (k, f))"
  unfolding redis_laws_def
proof (intro conjI allI)
  show "\<exists>s'. rd_connect memory_redis s = (Inr (), s') \<and> (\<lambda>k f. hm_get s' (k, f)) = (\<lambda>k f. hm_get s (k, f))"
    for s :: "'a memory" by (simp add: memory_redis_def)
  show "\<exists>n s'. rd_hset memory_redis k f v s = (Inr n, s') \<and>
      (\<lambda>k f. hm_get s' (k, f)) = (\<lambda>k f. hm_get s (k, f))(k := (\<lambda>f. hm_get s (k, f))(f \<mapsto> v))"
    for k f v and s :: "'a memory" by (simp add: memory_redis_def hm.get_put fun_eq_iff)
  show "\<exists>s'. rd_hget memory_redis k f s = (Inr (hm_get s (k, f)), s') \<and>
      (\<lambda>k f. hm_get s' (k, f)) = (\<lambda>k f. hm_get s (k, f))"
    for k f and s :: "'a memory" by (simp add: memory_redis_def)
  show "\<exists>s'. rd_hdel memory_redis k f s = (Inr (if hm_get s (k, f) = None then 0 else 1), s') \<and>
      (\<lambda>k f. hm_get s' (k, f)) = (\<lambda>k f. hm_get s (k, f))(k := (\<lambda>f. hm_get s (k, f))(f := None))"
    for k f and s :: "'a memory" by (simp add: memory_redis_def hm.get_del fun_eq_iff)
  show "\<exists>fs vs s'. rd_hvals memory_redis k s = (Inr vs, s') \<and> (\<lambda>k f. hm_get s' (k, f)) = (\<lambda>k f. hm_get s (k, f)) \<and>
      distinct fs \<and> set fs = dom (\<lambda>f. hm_get s (k, f)) \<and> map Some vs = map (\<lambda>f. hm_get s (k, f)) fs"
    for k and s :: "'a memory"
    using memory_fields_dom [of k s] memory_values [of s k] memory_distinct [of k s]
    by (intro exI [of _ "memory_fields k s"] exI [of _ "map (\<lambda>f. the (hm_get s (k, f))) (memory_fields k s)"] exI [of _ s])
       (simp add: memory_redis_def)
qed

definition sample_seed :: token_seed where
  "sample_seed = \<lparr>sd_id = ''7'', sd_first = ''a'', sd_second = ''b'', sd_now = 1\<rparr>"

definition sample_token_ops :: "token_op list" where
  "sample_token_ops = [CreateToken sample_seed ''ci'' [], VerifyToken 2 ''pxxl_a_b'', RevokeToken ''7'', VerifyToken 3 ''pxxl_a_b'']"

theorem token_store_refines_records_witness:
  "fst (token_run (new_token_store memory_redis (\<lambda>t. t) (\<lambda>r. r) Inr ''tokens'') sample_token_ops []) =
   Inr [Created \<lparr>av_id = ''7'', av_name = ''ci'', av_scopes = [''admin''], av_created_at_unix_ms = 1,
          av_last_used_unix_ms = None, av_enabled = True\<rparr> ''pxxl_a_b'',
        Verified (Some \<lparr>av_id = ''7'', av_name = ''ci'', av_scopes = [''admin''], av_created_at_unix_ms = 1,
          av_last_used_unix_ms = Some 2, av_enabled = True\<rparr>),
        Revoked True, Verified None]"
proof -
  have scopes: "normalize_scopes [] = [''admin'']" "normalize_scopes [''admin''] = [''admin'']"
    by (simp_all add: normalize_scopes_def default_admin_scopes_def trim_graphic graphic_def byte_of_def
        to_ascii_lowercase_def ascii_lower_def is_ascii_upper_def)
  have "fresh_run (\<lambda>t. t) sample_token_ops []"
    by (simp add: sample_token_ops_def)
  from token_store_refines_records [OF memory_laws, where decode = Inr and encode = "\<lambda>r. r" and s = "[]" and key = "''tokens''", OF _ _ this]
  have "fst (token_run (new_token_store memory_redis (\<lambda>t. t) (\<lambda>r. r) Inr ''tokens'') sample_token_ops []) =
    Inr (spec_run (\<lambda>t. t) sample_token_ops [])" by simp
  then show ?thesis
    by (simp add: sample_token_ops_def sample_seed_def spec_step_def spec_verify_def new_token_record_def fresh_token_def
        token_view_def scopes)
qed

end
