(* ===== verification/Connections.thy ===== *)
theory Connections
  imports Edge_State Step_Machines
begin

text \<open>
  The accept loops (\<open>run_plain_listener\<close>, \<open>run_tls_listener\<close>, \<open>spawn_connection\<close> and
  \<open>serve_stream\<close> of \<open>edge/crates/http-proxy/src/lib.rs\<close>; \<open>run_database_proxy\<close> and
  \<open>run_database_proxy_public_port\<close> of \<open>edge/crates/database-proxy/src/lib.rs\<close>). A loop takes a permit
  of its semaphore for each connection and moves it into the task that serves the connection; the
  task drops it when it ends. What the network, the handshake and the shutdown channel do is a
  sequence of events.
\<close>

section \<open>Definitions\<close>

definition EDGE_MAX_CONNECTIONS :: nat where "EDGE_MAX_CONNECTIONS = 8192"

definition DB_PROXY_MAX_CONNECTIONS :: nat where "DB_PROXY_MAX_CONNECTIONS = 4096"

text \<open>A task has its permit; it counts as active while it serves.\<close>

datatype task_phase = Spawned | Serving

record listener =
  li_running :: bool
  li_permits :: nat
  li_tasks :: "(nat, task_phase) hmap"
  li_next :: nat

definition new_listener :: "nat \<Rightarrow> listener" where
  "new_listener limit = \<lparr>li_running = True, li_permits = limit, li_tasks = [], li_next = 0\<rparr>"

datatype listener_event = Accepted | AcceptFailed | Started nat | HandshakeFailed nat | Ended nat | ShutdownChanged bool

text \<open>\<open>try_acquire_owned\<close> and the task; without a permit the connection is dropped.\<close>

definition accept_connection :: "listener \<Rightarrow> listener" where
  "accept_connection l =
     (if \<not> li_running l \<or> li_permits l = 0 then l
      else l\<lparr>li_permits := li_permits l - 1, li_tasks := hm_insert (li_next l) Spawned (li_tasks l), li_next := li_next l + 1\<rparr>)"

definition stop_listener :: "listener \<Rightarrow> listener" where
  "stop_listener l = l\<lparr>li_running := False\<rparr>"

definition drop_task :: "nat \<Rightarrow> listener \<Rightarrow> listener" where
  "drop_task i l =
     (if hm_get (li_tasks l) i = None then l
      else l\<lparr>li_permits := li_permits l + 1, li_tasks := hm_remove i (li_tasks l)\<rparr>)"

text \<open>A listener of the edge with the gauge of active connections; only the TLS listener has a handshake.\<close>

fun edge_listener_step :: "bool \<Rightarrow> listener_event \<Rightarrow> listener \<times> int \<Rightarrow> listener \<times> int" where
  "edge_listener_step tls Accepted (l, g) = (accept_connection l, g)"
| "edge_listener_step tls AcceptFailed (l, g) = (stop_listener l, g)"
| "edge_listener_step tls (Started i) (l, g) =
     (if hm_get (li_tasks l) i = Some Spawned then (l\<lparr>li_tasks := hm_insert i Serving (li_tasks l)\<rparr>, g + 1) else (l, g))"
| "edge_listener_step tls (HandshakeFailed i) (l, g) =
     (if tls \<and> hm_get (li_tasks l) i = Some Spawned then (drop_task i l, g) else (l, g))"
| "edge_listener_step tls (Ended i) (l, g) =
     (if hm_get (li_tasks l) i = Some Serving then (drop_task i l, g - 1) else (l, g))"
| "edge_listener_step tls (ShutdownChanged stop) (l, g) = (if stop then stop_listener l else l, g)"

text \<open>The two listeners of the edge share the gauge.\<close>

record edge_listeners =
  el_http :: listener
  el_https :: listener
  el_active :: int

definition new_edge_listeners :: edge_listeners where
  "new_edge_listeners =
     \<lparr>el_http = new_listener EDGE_MAX_CONNECTIONS, el_https = new_listener EDGE_MAX_CONNECTIONS, el_active = 0\<rparr>"

fun edge_listeners_step :: "bool \<times> listener_event \<Rightarrow> edge_listeners \<Rightarrow> edge_listeners" where
  "edge_listeners_step (tls, e) s =
     (if tls then let (l, g) = edge_listener_step True e (el_https s, el_active s) in s\<lparr>el_https := l, el_active := g\<rparr>
      else let (l, g) = edge_listener_step False e (el_http s, el_active s) in s\<lparr>el_http := l, el_active := g\<rparr>)"

text \<open>A database listener: the task starts at once, and ends with its connection or by the timeout.\<close>

fun database_listener_step :: "listener_event \<Rightarrow> listener \<Rightarrow> listener" where
  "database_listener_step Accepted l = accept_connection l"
| "database_listener_step AcceptFailed l = stop_listener l"
| "database_listener_step (Ended i) l = drop_task i l"
| "database_listener_step (ShutdownChanged stop) l = (if stop then stop_listener l else l)"
| "database_listener_step (Started i) l = l"
| "database_listener_step (HandshakeFailed i) l = l"

section \<open>Permits\<close>

definition listener_inv :: "nat \<Rightarrow> listener \<Rightarrow> bool" where
  "listener_inv limit l \<longleftrightarrow> hm_wf (li_tasks l) \<and> (\<forall>i. hm_get (li_tasks l) i \<noteq> None \<longrightarrow> i < li_next l) \<and>
     li_permits l + length (li_tasks l) = limit"

definition serving_tasks :: "listener \<Rightarrow> nat" where
  "serving_tasks l = length (filter (\<lambda>(_, p). p = Serving) (li_tasks l))"

lemma new_listener_inv: "listener_inv limit (new_listener limit)" "serving_tasks (new_listener limit) = 0"
  by (simp_all add: listener_inv_def new_listener_def hm_wf_def serving_tasks_def)

text \<open>Inserting and removing under distinct keys, with the number of entries of a kind.\<close>

definition entries :: "('v \<Rightarrow> bool) \<Rightarrow> ('k, 'v) hmap \<Rightarrow> nat" where
  "entries P m = length (filter (\<lambda>(_, v). P v) m)"

lemma entries_insert:
  "hm_wf m \<Longrightarrow> entries P (hm_insert k v m) + (case hm_get m k of Some u \<Rightarrow> if P u then 1 else 0 | None \<Rightarrow> 0) =
     entries P m + (if P v then 1 else 0)"
  by (induction m) (auto simp: entries_def hm_insert_def hm_wf_def split: option.splits dest: map_of_SomeD)

lemma entries_remove:
  "hm_wf m \<Longrightarrow> entries P (hm_remove k m) + (case hm_get m k of Some u \<Rightarrow> if P u then 1 else 0 | None \<Rightarrow> 0) = entries P m"
  by (induction m) (auto simp: entries_def hm_remove_def hm_wf_def)

lemma length_entries: "length m = entries (\<lambda>_. True) m"
  by (simp add: entries_def case_prod_unfold)

lemma serving_entries: "serving_tasks l = entries (\<lambda>p. p = Serving) (li_tasks l)"
  by (simp add: serving_tasks_def entries_def)

lemma accept_keeps:
  assumes "listener_inv limit l"
  shows "listener_inv limit (accept_connection l)" and "serving_tasks (accept_connection l) = serving_tasks l"
proof -
  have new: "hm_get (li_tasks l) (li_next l) = None"
    using assms by (auto simp: listener_inv_def)
  show "listener_inv limit (accept_connection l)"
    using assms new entries_insert [of "li_tasks l" "\<lambda>_. True" "li_next l" Spawned] hm.wf_put
    by (auto simp: accept_connection_def listener_inv_def length_entries hm.get_put less_Suc_eq)
  show "serving_tasks (accept_connection l) = serving_tasks l"
    using assms new entries_insert [of "li_tasks l" "\<lambda>p. p = Serving" "li_next l" Spawned]
    by (simp add: accept_connection_def serving_entries listener_inv_def)
qed

lemma stop_keeps:
  "listener_inv limit (stop_listener l) = listener_inv limit l" "serving_tasks (stop_listener l) = serving_tasks l"
  by (simp_all add: stop_listener_def listener_inv_def serving_tasks_def)

lemma drop_keeps:
  assumes "listener_inv limit l"
  shows "listener_inv limit (drop_task i l)"
    and "serving_tasks (drop_task i l) + (if hm_get (li_tasks l) i = Some Serving then 1 else 0) = serving_tasks l"
proof -
  have wf: "hm_wf (li_tasks l)" using assms by (simp add: listener_inv_def)
  show "listener_inv limit (drop_task i l)"
    using assms entries_remove [OF wf, of "\<lambda>_. True" i] hm.wf_del [OF wf, of i]
    by (auto simp: drop_task_def listener_inv_def length_entries hm.get_del)
  show "serving_tasks (drop_task i l) + (if hm_get (li_tasks l) i = Some Serving then 1 else 0) = serving_tasks l"
    using entries_remove [OF wf, of "\<lambda>p. p = Serving" i]
    by (auto simp: drop_task_def serving_entries split: option.splits)
qed

lemma edge_step_keeps:
  assumes "listener_inv limit l" and "edge_listener_step tls e (l, g) = (l', g')"
  shows "listener_inv limit l' \<and> g' - int (serving_tasks l') = g - int (serving_tasks l)"
proof (cases e)
  case (Started i)
  have wf: "hm_wf (li_tasks l)" using assms by (simp add: listener_inv_def)
  then show ?thesis
    using assms Started entries_insert [OF wf, of "\<lambda>_. True" i Serving] hm.wf_put [OF wf, of i Serving]
      entries_insert [OF wf, of "\<lambda>p. p = Serving" i Serving]
    by (auto simp: listener_inv_def length_entries serving_entries hm.get_put split: if_splits)
next
  case Accepted
  then show ?thesis using assms accept_keeps [OF assms(1)] by auto
next
  case AcceptFailed
  then show ?thesis using assms by (auto simp: stop_keeps)
next
  case (HandshakeFailed i)
  then show ?thesis using assms drop_keeps(1) [OF assms(1), of i] drop_keeps(2) [OF assms(1), of i] by (auto split: if_splits)
next
  case (Ended i)
  then show ?thesis using assms drop_keeps(1) [OF assms(1), of i] drop_keeps(2) [OF assms(1), of i] by (auto split: if_splits)
next
  case (ShutdownChanged stop)
  then show ?thesis using assms by (auto simp: stop_keeps)
qed

definition edge_listeners_inv :: "edge_listeners \<Rightarrow> bool" where
  "edge_listeners_inv s \<longleftrightarrow> listener_inv EDGE_MAX_CONNECTIONS (el_http s) \<and> listener_inv EDGE_MAX_CONNECTIONS (el_https s) \<and>
     el_active s = int (serving_tasks (el_http s) + serving_tasks (el_https s))"

interpretation listeners: step_machine edge_listeners_step "\<lambda>_. True" edge_listeners_inv
proof
  fix s and e :: "bool \<times> listener_event"
  assume inv: "edge_listeners_inv s"
  obtain tls ev where e: "e = (tls, ev)" by fastforce
  obtain l g where step: "edge_listener_step tls ev (if tls then el_https s else el_http s, el_active s) = (l, g)" by fastforce
  from inv have "listener_inv EDGE_MAX_CONNECTIONS (if tls then el_https s else el_http s)"
    by (simp add: edge_listeners_inv_def)
  from edge_step_keeps [OF this step] inv step e show "edge_listeners_inv (edge_listeners_step e s)"
    by (cases tls) (auto simp: edge_listeners_inv_def)
qed

interpretation database_listener: step_machine database_listener_step "\<lambda>_. True" "listener_inv DB_PROXY_MAX_CONNECTIONS"
proof
  fix l and e :: listener_event
  assume "listener_inv DB_PROXY_MAX_CONNECTIONS l"
  then show "listener_inv DB_PROXY_MAX_CONNECTIONS (database_listener_step e l)"
    by (cases e) (auto simp: accept_keeps stop_keeps drop_keeps)
qed

text \<open>A listener that was told to stop accepts nothing more.\<close>

lemma stopped_step: "\<not> li_running l \<Longrightarrow> edge_listener_step tls e (l, g) = (l', g') \<Longrightarrow> \<not> li_running l' \<and> li_next l' = li_next l"
  by (cases e) (auto simp: accept_connection_def stop_listener_def drop_task_def split: if_splits)

lemma stopped_accepts_nothing:
  assumes "\<not> li_running (el_https s)"
  shows "li_next (el_https (run_steps edge_listeners_step es s)) = li_next (el_https s)"
  using assms
proof (induction es arbitrary: s)
  case (Cons e es)
  obtain tls ev where e: "e = (tls, ev)" by fastforce
  have "\<not> li_running (el_https (edge_listeners_step e s)) \<and> li_next (el_https (edge_listeners_step e s)) = li_next (el_https s)"
    using stopped_step [OF Cons.prems, of True ev "el_active s" "fst (edge_listener_step True ev (el_https s, el_active s))"
        "snd (edge_listener_step True ev (el_https s, el_active s))"] Cons.prems
    unfolding e by (simp add: case_prod_unfold Let_def)
  with Cons.IH show ?case by simp
qed simp

section \<open>Properties\<close>

text \<open>
  C14. Connections are bounded and accounted for. Whatever the order in which clients connect, handshakes
  fail, connections end and a shutdown arrives, a listener of the edge never serves more than its
  limit, its free permits and its tasks always add up to the limit (no permit is lost or returned
  twice), and the gauge of active connections is the number of connections that the two listeners
  serve; the same bound holds for a listener of the database proxy.
\<close>

theorem connections_bounded:
  "let s = run_steps edge_listeners_step es new_edge_listeners; d = run_steps database_listener_step fs (new_listener DB_PROXY_MAX_CONNECTIONS) in
     length (li_tasks (el_http s)) \<le> EDGE_MAX_CONNECTIONS \<and> length (li_tasks (el_https s)) \<le> EDGE_MAX_CONNECTIONS \<and>
     li_permits (el_http s) + length (li_tasks (el_http s)) = EDGE_MAX_CONNECTIONS \<and>
     li_permits (el_https s) + length (li_tasks (el_https s)) = EDGE_MAX_CONNECTIONS \<and>
     el_active s = int (serving_tasks (el_http s)) + int (serving_tasks (el_https s)) \<and>
     li_permits d + length (li_tasks d) = DB_PROXY_MAX_CONNECTIONS"
proof -
  have "edge_listeners_inv (run_steps edge_listeners_step es new_edge_listeners)"
    by (rule listeners.run_keeps) (simp_all add: edge_listeners_inv_def new_edge_listeners_def new_listener_inv)
  moreover have "listener_inv DB_PROXY_MAX_CONNECTIONS (run_steps database_listener_step fs (new_listener DB_PROXY_MAX_CONNECTIONS))"
    by (rule database_listener.run_keeps) (simp_all add: new_listener_inv)
  ultimately show ?thesis by (auto simp: edge_listeners_inv_def listener_inv_def Let_def)
qed

end
