(* ===== verification/Database_Proxy.thy ===== *)
theory Database_Proxy
  imports Connections Std_Num "HOL-Library.List_Lexorder" "HOL-Library.Char_ord" "HOL-Library.Product_Lexorder"
begin

text \<open>
  The database proxy (\<open>edge/crates/database-proxy/src/lib.rs\<close>): the registry of database routes, the
  file they are kept in, the startup packet of a PostgreSQL client and what happens to a connection.
  Its accept loops are in \<open>Connections\<close>. The client is the list of bytes it sends; the JSON codec and
  the success of a connection attempt are arguments.
\<close>

section \<open>Definitions\<close>

subsection \<open>Paths and ordered maps of the standard library\<close>

text \<open>\<open>Path::extension\<close> and \<open>with_extension\<close>, for a path that ends in a file name.\<close>

definition path_split :: "string \<Rightarrow> string \<times> string" where
  "path_split p = (case rsplit_once CHR ''/'' p of None \<Rightarrow> ([], p) | Some (d, f) \<Rightarrow> (d @ ''/'', f))"

definition stem_and_extension :: "string \<Rightarrow> string \<times> string option" where
  "stem_and_extension f =
     (case rsplit_once CHR ''.'' f of None \<Rightarrow> (f, None) | Some (s, e) \<Rightarrow> if s = [] then (f, None) else (s, Some e))"

definition path_extension :: "string \<Rightarrow> string option" where
  "path_extension p = snd (stem_and_extension (snd (path_split p)))"

definition with_extension :: "string \<Rightarrow> string \<Rightarrow> string" where
  "with_extension e p = (let (d, f) = path_split p in d @ fst (stem_and_extension f) @ ''.'' @ e)"

text \<open>The entries of a \<open>BTreeMap\<close> in the order of their keys.\<close>

definition bt_values :: "('k::linorder, 'v) hmap \<Rightarrow> 'v list" where
  "bt_values m = map snd (sort_key fst m)"

subsection \<open>Routes and their file\<close>

record database_proxy_route =
  dp_database_type :: string
  dp_key :: string
  dp_upstream :: string
  dp_route_host :: "string option"
  dp_public_port :: "u16 option"

datatype file_read = FileBytes string | FileNotFound | FileFailed string

definition load_database_routes_from_file ::
    "(string \<Rightarrow> string + database_proxy_route list) \<Rightarrow> file_read \<Rightarrow> string + database_proxy_route list" where
  "load_database_routes_from_file decode r =
     (case r of
        FileNotFound \<Rightarrow> Inr []
      | FileFailed e \<Rightarrow> Inl e
      | FileBytes bytes \<Rightarrow> if list_all is_ascii_whitespace bytes then Inr [] else decode bytes)"

definition file_order :: "database_proxy_route \<Rightarrow> string \<times> string \<times> string \<times> nat" where
  "file_order r = (dp_database_type r, dp_key r, case dp_route_host r of Some h \<Rightarrow> h | None \<Rightarrow> [],
     case dp_public_port r of Some p \<Rightarrow> unat p | None \<Rightarrow> 0)"

text \<open>
  The files by path. Creating the directory, writing and renaming can fail; a failed write may leave
  any part of the content in the file it was writing.
\<close>

type_synonym files = "string \<Rightarrow> string option"

record disk =
  dk_mkdir_ok :: bool
  dk_torn_write :: "string option option"
  dk_rename_ok :: bool

definition save_database_routes_to_file ::
    "disk \<Rightarrow> (database_proxy_route list \<Rightarrow> string + string) \<Rightarrow> string \<Rightarrow> database_proxy_route list \<Rightarrow> files \<Rightarrow>
     (string + unit) \<times> files" where
  "save_database_routes_to_file dk encode path routes fs =
     (if \<not> dk_mkdir_ok dk then (Inl ''creating directory'', fs)
      else case encode (sort_key file_order routes) of
        Inl e \<Rightarrow> (Inl e, fs)
      | Inr bytes \<Rightarrow>
          (let temp_path = with_extension ((case path_extension path of Some e \<Rightarrow> e | None \<Rightarrow> ''json'') @ ''.tmp'') path
           in case dk_torn_write dk of
                Some left \<Rightarrow> (Inl (''writing '' @ temp_path), fs(temp_path := left))
              | None \<Rightarrow>
                  if \<not> dk_rename_ok dk then (Inl (''renaming '' @ temp_path), fs(temp_path \<mapsto> bytes))
                  else (Inr (), (fs(temp_path := None))(path \<mapsto> bytes))))"

subsection \<open>The registry\<close>

definition normalize_database_type :: "string \<Rightarrow> string" where
  "normalize_database_type v =
     (let t = to_ascii_lowercase (trim v)
      in if t = ''postgresql'' then ''postgres'' else if t = ''dragonflydb'' then ''dragonfly'' else t)"

definition normalize_route_key :: "string \<Rightarrow> string" where
  "normalize_route_key v = to_ascii_lowercase (trim v)"

record database_route_registry =
  dbr_routes :: "(string, (string, string) hmap) hmap"
  dbr_metadata :: "(string, (string, database_proxy_route) hmap) hmap"
  dbr_routes_by_port :: "(u16, string) hmap"

definition empty_database_registry :: database_route_registry where
  "empty_database_registry = \<lparr>dbr_routes = [], dbr_metadata = [], dbr_routes_by_port = []\<rparr>"

text \<open>\<open>entry(t).or_default().insert(k, v)\<close>.\<close>

definition nested_insert :: "string \<Rightarrow> string \<Rightarrow> 'v \<Rightarrow> (string, (string, 'v) hmap) hmap \<Rightarrow> (string, (string, 'v) hmap) hmap" where
  "nested_insert t k v m = hm_insert t (hm_insert k v (hm_get_or m t [])) m"

definition database_upsert :: "database_proxy_route \<Rightarrow> database_route_registry \<Rightarrow> database_route_registry" where
  "database_upsert route r =
     (let t = normalize_database_type (dp_database_type route); k = normalize_route_key (dp_key route);
          upstream = trim (dp_upstream route)
      in if t = [] \<or> k = [] \<or> upstream = [] then r
         else r\<lparr>dbr_routes := nested_insert t k upstream (dbr_routes r),
                dbr_metadata := nested_insert t k (route\<lparr>dp_database_type := t, dp_key := k\<rparr>) (dbr_metadata r),
                dbr_routes_by_port :=
                  (case dp_public_port route of Some p \<Rightarrow> hm_insert p upstream (dbr_routes_by_port r)
                   | None \<Rightarrow> dbr_routes_by_port r)\<rparr>)"

definition new_database_registry :: "database_proxy_route list \<Rightarrow> database_route_registry" where
  "new_database_registry routes = fold database_upsert routes empty_database_registry"

definition database_delete :: "string \<Rightarrow> string \<Rightarrow> database_route_registry \<Rightarrow> bool \<times> database_route_registry" where
  "database_delete database_type key r =
     (let t = normalize_database_type database_type; k = normalize_route_key key
      in case hm_get (dbr_routes r) t of
           None \<Rightarrow> (False, r)
         | Some by_key \<Rightarrow>
             (let rest = hm_remove k by_key;
                  known = Option.bind (hm_get (dbr_metadata r) t) (\<lambda>m. hm_get m k)
              in (hm_contains by_key k,
                  r\<lparr>dbr_routes := (if rest = [] then hm_remove t (dbr_routes r) else hm_insert t rest (dbr_routes r)),
                    dbr_metadata :=
                      (case hm_get (dbr_metadata r) t of
                         Some m \<Rightarrow> hm_insert t (hm_remove k m) (dbr_metadata r) | None \<Rightarrow> dbr_metadata r),
                    dbr_routes_by_port :=
                      (case Option.bind known dp_public_port of
                         Some p \<Rightarrow> hm_remove p (dbr_routes_by_port r) | None \<Rightarrow> dbr_routes_by_port r)\<rparr>)))"

definition database_list :: "database_route_registry \<Rightarrow> database_proxy_route list" where
  "database_list r = concat (map bt_values (bt_values (dbr_metadata r)))"

definition database_resolve :: "string \<Rightarrow> string \<Rightarrow> database_route_registry \<Rightarrow> string option" where
  "database_resolve database_type key r =
     Option.bind (hm_get (dbr_routes r) (normalize_database_type database_type)) (\<lambda>by_key.
       hm_get by_key (normalize_route_key key))"

definition resolve_only_route :: "string \<Rightarrow> database_route_registry \<Rightarrow> string option" where
  "resolve_only_route database_type r =
     Option.bind (hm_get (dbr_routes r) (normalize_database_type database_type)) (\<lambda>by_key.
       if length by_key = 1 then (case bt_values by_key of [] \<Rightarrow> None | v # _ \<Rightarrow> Some v) else None)"

definition resolve_public_port :: "u16 \<Rightarrow> database_route_registry \<Rightarrow> string option" where
  "resolve_public_port p r = hm_get (dbr_routes_by_port r) p"

subsection \<open>The startup packet of a PostgreSQL client\<close>

definition POSTGRES_SSL_REQUEST_CODE :: nat where "POSTGRES_SSL_REQUEST_CODE = 80877103"

definition POSTGRES_GSSENC_REQUEST_CODE :: nat where "POSTGRES_GSSENC_REQUEST_CODE = 80877104"

definition POSTGRES_STARTUP_MAX_BYTES :: nat where "POSTGRES_STARTUP_MAX_BYTES = 64 * 1024"

record postgres_startup =
  ps_user :: "string option"
  ps_database :: "string option"
  ps_parameters :: "(string, string) hmap"

definition startup_route_key :: "postgres_startup \<Rightarrow> string option" where
  "startup_route_key s =
     (let named = (\<lambda>v. case v of Some n \<Rightarrow> if trim n = [] then None else Some n | None \<Rightarrow> None)
      in map_option normalize_route_key
           (case named (ps_database s) of Some n \<Rightarrow> Some n | None \<Rightarrow> named (ps_user s)))"

text \<open>The texts between NUL bytes in pairs, as long as there is a pair.\<close>

fun read_parameters :: "string list \<Rightarrow> (string, string) hmap \<Rightarrow> string + (string, string) hmap" where
  "read_parameters (k # v # parts) m =
     (if \<not> utf8_valid k then Inl ''postgres startup key was not UTF-8''
      else if \<not> utf8_valid v then Inl ''postgres startup value was not UTF-8''
      else read_parameters parts (hm_insert k v m))"
| "read_parameters _ m = Inr m"

definition parse_postgres_startup_parameters :: "string \<Rightarrow> string + postgres_startup" where
  "parse_postgres_startup_parameters bytes =
     res_bind (read_parameters (filter (\<lambda>p. p \<noteq> []) (split_on CHR 0x00 bytes)) []) (\<lambda>m.
       Inr \<lparr>ps_user = hm_get m ''user'', ps_database = hm_get m ''database'', ps_parameters = m\<rparr>)"

text \<open>\<open>u32::from_be_bytes\<close>.\<close>

definition from_be_bytes :: "string \<Rightarrow> nat" where
  "from_be_bytes bs = foldl (\<lambda>n b. 256 * n + byte_of b) 0 bs"

text \<open>
  The client's bytes, and whether an answer to it can be written. The result has the parsed packet,
  the packet itself and what the client sent after it; \<open>n\<close> counts the refusals \<open>N\<close> that were written.
\<close>

function read_postgres_startup_packet :: "bool \<Rightarrow> string \<Rightarrow> nat \<Rightarrow> (string + postgres_startup \<times> string \<times> string) \<times> nat" where
  "read_postgres_startup_packet writable input n =
     (if length input < 4 then (Inl ''early eof'', n)
      else let packet_len = from_be_bytes (take 4 input); tail = drop 4 input
           in if packet_len < 8 \<or> POSTGRES_STARTUP_MAX_BYTES < packet_len then (Inl ''invalid postgres startup packet length'', n)
              else if length tail < packet_len - 4 then (Inl ''early eof'', n)
              else let content = take (packet_len - 4) tail; after = drop (packet_len - 4) tail;
                       code = from_be_bytes (take 4 content)
                   in if code = POSTGRES_SSL_REQUEST_CODE \<or> code = POSTGRES_GSSENC_REQUEST_CODE
                      then if writable then read_postgres_startup_packet writable after (n + 1) else (Inl ''broken pipe'', n)
                      else (res_bind (parse_postgres_startup_parameters (drop 4 content)) (\<lambda>s.
                              Inr (s, take 4 input @ content, after)), n))"
  by pat_completeness auto
termination by (relation "measure (\<lambda>(_, input, _). length input)") auto

declare read_postgres_startup_packet.simps [simp del]

subsection \<open>Connections\<close>

definition require_database_proxy_token :: "(string \<Rightarrow> string option) \<Rightarrow> postgres_startup \<Rightarrow> string + unit" where
  "require_database_proxy_token env s =
     (case env ''PXXL_DATABASE_PROXY_TOKEN'' of
        None \<Rightarrow> Inl ''PXXL_DATABASE_PROXY_TOKEN is required for database proxy auth''
      | Some expected \<Rightarrow>
          (case Option.bind (hm_get (ps_parameters s) ''pxxl_proxy_token'') (\<lambda>v. if trim v = [] then None else Some (trim v)) of
             None \<Rightarrow> Inl ''missing database proxy token''
           | Some provided \<Rightarrow> if provided \<noteq> expected then Inl ''invalid database proxy token'' else Inr ()))"

text \<open>What the connection becomes: the upstream, the bytes written to it first, and the client's bytes that are copied.\<close>

record database_connection =
  dc_upstream :: string
  dc_written :: string
  dc_copied :: string

definition connect_to :: "(string \<Rightarrow> bool) \<Rightarrow> string \<Rightarrow> string \<Rightarrow> string \<Rightarrow> string + database_connection" where
  "connect_to reachable upstream prelude rest =
     (if reachable upstream then Inr \<lparr>dc_upstream = upstream, dc_written = prelude, dc_copied = rest\<rparr>
      else Inl (''connecting to database upstream '' @ upstream))"

definition handle_public_port_connection ::
    "(string \<Rightarrow> bool) \<Rightarrow> u16 \<Rightarrow> string \<Rightarrow> database_route_registry \<Rightarrow> string + database_connection" where
  "handle_public_port_connection reachable public_port input r =
     (case resolve_public_port public_port r of
        None \<Rightarrow> Inl ''no database proxy route''
      | Some u \<Rightarrow> connect_to reachable u [] input)"

definition startup_of ::
    "(string \<Rightarrow> string option) \<Rightarrow> bool \<Rightarrow> string \<Rightarrow> string \<Rightarrow> string + string option \<times> string \<times> string" where
  "startup_of env writable database_type input =
     (if database_type = ''postgres'' \<or> database_type = ''postgresql''
      then res_bind (fst (read_postgres_startup_packet writable input 0)) (\<lambda>(s, prelude, rest).
           res_bind (require_database_proxy_token env s) (\<lambda>_. Inr (startup_route_key s, prelude, rest)))
      else Inr (None, [], input))"

definition handle_database_connection ::
    "(string \<Rightarrow> string option) \<Rightarrow> bool \<Rightarrow> (string \<Rightarrow> bool) \<Rightarrow> string \<Rightarrow> string \<Rightarrow> database_route_registry \<Rightarrow>
     string + database_connection" where
  "handle_database_connection env writable reachable database_type input r =
     res_bind (startup_of env writable database_type input) (\<lambda>(key, prelude, rest).
       case (case Option.bind key (\<lambda>k. database_resolve database_type k r) of
               Some u \<Rightarrow> Some u | None \<Rightarrow> resolve_only_route database_type r) of
         None \<Rightarrow> Inl ''no database proxy route''
       | Some u \<Rightarrow> connect_to reachable u prelude rest)"

section \<open>Normalised names\<close>

definition trimmed :: "string \<Rightarrow> bool" where
  "trimmed s \<longleftrightarrow> (\<forall>w\<in>set whitespace_encodings. \<not> prefix w s \<and> \<not> suffix w s)"

lemma trimmed_trim: "trimmed s \<Longrightarrow> trim s = s"
proof -
  assume "trimmed s"
  then have "strip_all whitespace_encodings s = s" "strip_all (map rev whitespace_encodings) (rev s) = rev s"
    by (auto simp: trimmed_def suffix_to_prefix intro!: strip_all_stop)
  then show ?thesis by (simp add: trim_def trim_start_def trim_end_def)
qed

lemma trim_trimmed: "trimmed (trim s)"
  unfolding trimmed_def
proof
  fix w assume w: "w \<in> set whitespace_encodings"
  then have "w \<noteq> []" using whitespace_heads by blast
  have "rev (trim s) = strip_all (map rev whitespace_encodings) (rev (trim_start s))"
    by (simp add: trim_def trim_end_def)
  with strip_all_done [of "rev w" "map rev whitespace_encodings"] w \<open>w \<noteq> []\<close> have "\<not> suffix w (trim s)"
    by (simp add: suffix_to_prefix)
  moreover have "prefix (trim s) (trim_start s)"
    using strip_all_suffix [of "map rev whitespace_encodings" "rev (trim_start s)"]
    by (simp add: trim_def trim_end_def suffix_to_prefix)
  then have "\<not> prefix w (trim s)"
    using strip_all_done [OF w \<open>w \<noteq> []\<close>, of s] unfolding trim_start_def by (metis prefix_order.trans)
  ultimately show "\<not> prefix w (trim s) \<and> \<not> suffix w (trim s)" by simp
qed

lemma ascii_lower_other: "\<not> graphic c \<Longrightarrow> ascii_lower x = c \<longleftrightarrow> x = c"
  by (auto simp: ascii_lower_def is_ascii_upper_def graphic_def byte_of_def)

lemma lower_prefix:
  assumes "\<forall>c\<in>set w. \<not> graphic c"
  shows "prefix w (map ascii_lower s) \<longleftrightarrow> prefix w s"
  using assms
proof (induction w arbitrary: s)
  case (Cons c w)
  then show ?case by (cases s) (auto simp: ascii_lower_other eq_commute [of c])
qed simp

lemma trimmed_lower: "trimmed (to_ascii_lowercase s) \<longleftrightarrow> trimmed s"
proof -
  have "\<forall>c\<in>set w. \<not> graphic c" if "w \<in> set whitespace_encodings" for w using whitespace_not_graphic that by blast
  then show ?thesis
    by (simp add: trimmed_def to_ascii_lowercase_def suffix_to_prefix rev_map lower_prefix)
qed

lemma trim_normalized [simp]:
  "trim (trim s) = trim s" "normalize_route_key (normalize_route_key s) = normalize_route_key s"
  "normalize_database_type (normalize_database_type s) = normalize_database_type s"
proof -
  have lower: "trim (to_ascii_lowercase (trim s)) = to_ascii_lowercase (trim s)" for s
    by (rule trimmed_trim) (simp add: trimmed_lower trim_trimmed)
  show "trim (trim s) = trim s" by (rule trimmed_trim) (rule trim_trimmed)
  show "normalize_route_key (normalize_route_key s) = normalize_route_key s" by (simp add: normalize_route_key_def lower)
  have "trim ''postgres'' = ''postgres''" "trim ''dragonfly'' = ''dragonfly''"
    by (rule trim_graphic, simp add: graphic_def byte_of_def)+
  moreover have "to_ascii_lowercase ''postgres'' = ''postgres''" "to_ascii_lowercase ''dragonfly'' = ''dragonfly''" by code_simp+
  ultimately show "normalize_database_type (normalize_database_type s) = normalize_database_type s"
    by (simp add: normalize_database_type_def lower Let_def)
qed

section \<open>The registry as a map\<close>

definition nested_get :: "(string, (string, 'v) hmap) hmap \<Rightarrow> string \<Rightarrow> string \<Rightarrow> 'v option" where
  "nested_get m t k = Option.bind (hm_get m t) (\<lambda>b. hm_get b k)"

definition nested_wf :: "(string, (string, 'v) hmap) hmap \<Rightarrow> bool" where
  "nested_wf m \<longleftrightarrow> hm_wf m \<and> (\<forall>t b. hm_get m t = Some b \<longrightarrow> hm_wf b)"

lemma nested_get_insert:
  "nested_get (nested_insert t k v m) t' k' = (if t' = t \<and> k' = k then Some v else nested_get m t' k')"
  by (auto simp: nested_get_def nested_insert_def hm.get_put hm_get_or_def split: option.split)

lemma nested_wf_insert: "nested_wf m \<Longrightarrow> nested_wf (nested_insert t k v m)"
  by (auto simp: nested_wf_def nested_insert_def hm.get_put hm_get_or_def hm_wf_def intro!: hm.wf_put [unfolded hm_wf_def] split: option.split)

text \<open>What the registry promises: a map from normalised names to routes.\<close>

type_synonym database_spec = "string \<times> string \<Rightarrow> database_proxy_route option"

datatype database_op = Upsert database_proxy_route | Delete string string

definition spec_name :: "database_proxy_route \<Rightarrow> string \<times> string" where
  "spec_name x = (dp_database_type x, dp_key x)"

definition normalized_route :: "database_proxy_route \<Rightarrow> database_proxy_route" where
  "normalized_route x = x\<lparr>dp_database_type := normalize_database_type (dp_database_type x), dp_key := normalize_route_key (dp_key x)\<rparr>"

definition accepted_route :: "database_proxy_route \<Rightarrow> bool" where
  "accepted_route x \<longleftrightarrow> normalize_database_type (dp_database_type x) \<noteq> [] \<and> normalize_route_key (dp_key x) \<noteq> [] \<and> trim (dp_upstream x) \<noteq> []"

fun database_spec_step :: "database_op \<Rightarrow> database_spec \<Rightarrow> database_spec" where
  "database_spec_step (Upsert x) m = (if accepted_route x then m(spec_name (normalized_route x) \<mapsto> normalized_route x) else m)"
| "database_spec_step (Delete t k) m = m((normalize_database_type t, normalize_route_key k) := None)"

fun database_step :: "database_op \<Rightarrow> database_route_registry \<Rightarrow> database_route_registry" where
  "database_step (Upsert x) r = database_upsert x r"
| "database_step (Delete t k) r = snd (database_delete t k r)"

definition registry_refines :: "database_route_registry \<Rightarrow> database_spec \<Rightarrow> bool" where
  "registry_refines r m \<longleftrightarrow> nested_wf (dbr_routes r) \<and> nested_wf (dbr_metadata r) \<and>
     (\<forall>t k. nested_get (dbr_metadata r) t k = m (t, k)) \<and>
     (\<forall>t k. nested_get (dbr_routes r) t k = map_option (\<lambda>x. trim (dp_upstream x)) (m (t, k))) \<and>
     (\<forall>q x. m q = Some x \<longrightarrow> q = spec_name x \<and> accepted_route x \<and> normalized_route x = x)"

lemma normalized_twice: "normalized_route (normalized_route x) = normalized_route x" "accepted_route (normalized_route x) = accepted_route x"
  by (simp_all add: normalized_route_def accepted_route_def)

lemma registry_empty: "registry_refines empty_database_registry Map.empty"
  by (simp add: registry_refines_def empty_database_registry_def nested_wf_def nested_get_def hm_wf_def)

lemma upsert_refines:
  assumes "registry_refines r m"
  shows "registry_refines (database_upsert x r) (database_spec_step (Upsert x) m)"
proof (cases "accepted_route x")
  case False
  then show ?thesis using assms by (auto simp: database_upsert_def accepted_route_def Let_def)
next
  case True
  let ?t = "normalize_database_type (dp_database_type x)" and ?k = "normalize_route_key (dp_key x)"
  have "dbr_routes (database_upsert x r) = nested_insert ?t ?k (trim (dp_upstream x)) (dbr_routes r)"
    "dbr_metadata (database_upsert x r) = nested_insert ?t ?k (normalized_route x) (dbr_metadata r)"
    using True by (simp_all add: database_upsert_def accepted_route_def normalized_route_def Let_def)
  note routes = this
  have name: "spec_name (normalized_route x) = (?t, ?k)" "dp_upstream (normalized_route x) = dp_upstream x"
    by (simp_all add: spec_name_def normalized_route_def)
  have m: "nested_wf (dbr_routes r)" "nested_wf (dbr_metadata r)" "\<And>t k. nested_get (dbr_metadata r) t k = m (t, k)"
    "\<And>t k. nested_get (dbr_routes r) t k = map_option (\<lambda>x. trim (dp_upstream x)) (m (t, k))"
    "\<And>q x. m q = Some x \<Longrightarrow> q = spec_name x \<and> accepted_route x \<and> normalized_route x = x"
    using assms unfolding registry_refines_def by blast+
  show ?thesis unfolding registry_refines_def
  proof (intro conjI allI impI)
    fix q y assume "database_spec_step (Upsert x) m q = Some y"
    then have "q = spec_name y \<and> accepted_route y \<and> normalized_route y = y"
      using True m(5) [of q y] by (cases "q = spec_name (normalized_route x)") (auto simp: normalized_twice)
    then show "q = spec_name y" "accepted_route y" "normalized_route y = y" by blast+
  qed (use True m(1-4) in \<open>simp_all add: routes nested_wf_insert nested_get_insert name\<close>)
qed

lemma registry_refinesD:
  assumes "registry_refines r m"
  shows "nested_wf (dbr_routes r)" "nested_wf (dbr_metadata r)" "nested_get (dbr_metadata r) t k = m (t, k)"
    "nested_get (dbr_routes r) t k = map_option (\<lambda>x. trim (dp_upstream x)) (m (t, k))"
    "m q = Some x \<Longrightarrow> q = spec_name x \<and> accepted_route x \<and> normalized_route x = x"
  using assms unfolding registry_refines_def by blast+

text \<open>Removing a name under a type; an empty inner map is dropped or kept.\<close>

lemma nested_get_remove:
  assumes "hm_get m t = Some b"
  shows "nested_get (hm_insert t (hm_remove k b) m) t' k' = (if t' = t \<and> k' = k then None else nested_get m t' k')"
    and "hm_remove k b = [] \<Longrightarrow> nested_get (hm_remove t m) t' k' = (if t' = t \<and> k' = k then None else nested_get m t' k')"
proof -
  show "nested_get (hm_insert t (hm_remove k b) m) t' k' = (if t' = t \<and> k' = k then None else nested_get m t' k')"
    using assms by (auto simp: nested_get_def hm.get_put hm.get_del)
  assume "hm_remove k b = []"
  then have "hm_get b j = None" if "j \<noteq> k" for j using hm.get_del [of k b j] that by simp
  then show "nested_get (hm_remove t m) t' k' = (if t' = t \<and> k' = k then None else nested_get m t' k')"
    using assms by (auto simp: nested_get_def hm.get_del)
qed

lemma nested_wf_remove:
  assumes "nested_wf m" and "hm_get m t = Some b"
  shows "nested_wf (hm_insert t (hm_remove k b) m)" and "nested_wf (hm_remove t m)"
  using assms hm.wf_put hm.wf_del unfolding nested_wf_def by (auto simp: hm.get_put hm.get_del split: if_splits)

lemma delete_refines:
  assumes "registry_refines r m"
  shows "registry_refines (snd (database_delete t k r)) (database_spec_step (Delete t k) m)"
    and "fst (database_delete t k r) \<longleftrightarrow> m (normalize_database_type t, normalize_route_key k) \<noteq> None"
proof -
  let ?t = "normalize_database_type t" and ?k = "normalize_route_key k"
  note r = registry_refinesD [OF assms]
  have "registry_refines (snd (database_delete t k r)) (database_spec_step (Delete t k) m) \<and>
    (fst (database_delete t k r) \<longleftrightarrow> m (?t, ?k) \<noteq> None)"
  proof (cases "hm_get (dbr_routes r) ?t")
    case None
    then have none: "m (?t, j) = None" for j using r(4) [of ?t j] by (simp add: nested_get_def)
    then have "database_spec_step (Delete t k) m = m" by (auto simp: fun_eq_iff)
    with None none assms show ?thesis by (simp add: database_delete_def Let_def)
  next
    case (Some b)
    obtain c where meta: "nested_wf c" "\<And>t' k'. nested_get c t' k' = (if t' = ?t \<and> k' = ?k then None else m (t', k'))"
      "dbr_metadata (snd (database_delete t k r)) = c"
    proof (cases "hm_get (dbr_metadata r) ?t")
      case None
      then show ?thesis using that [of "dbr_metadata r"] r(2) r(3) [of ?t ?k] Some
        by (auto simp: database_delete_def Let_def nested_get_def) (metis r(3) nested_get_def)
    next
      case (Some d)
      then show ?thesis
        using that [of "hm_insert ?t (hm_remove ?k d) (dbr_metadata r)"] nested_wf_remove [OF r(2) Some] nested_get_remove(1) [OF Some]
          r(3) \<open>hm_get (dbr_routes r) ?t = Some b\<close> by (simp add: database_delete_def Let_def)
    qed
    obtain e where routes: "nested_wf e"
      "\<And>t' k'. nested_get e t' k' = (if t' = ?t \<and> k' = ?k then None else map_option (\<lambda>x. trim (dp_upstream x)) (m (t', k')))"
      "dbr_routes (snd (database_delete t k r)) = e"
      using that [of "hm_insert ?t (hm_remove ?k b) (dbr_routes r)"] that [of "hm_remove ?t (dbr_routes r)"]
        nested_wf_remove [OF r(1) Some] nested_get_remove [OF Some] r(4) Some
      by (cases "hm_remove ?k b = []") (simp_all add: database_delete_def Let_def)
    have "fst (database_delete t k r) \<longleftrightarrow> hm_get b ?k \<noteq> None" using Some by (simp add: database_delete_def Let_def hm_contains_def)
    also have "\<dots> \<longleftrightarrow> m (?t, ?k) \<noteq> None" using r(4) [of ?t ?k] Some by (simp add: nested_get_def)
    finally have found: "fst (database_delete t k r) \<longleftrightarrow> m (?t, ?k) \<noteq> None" .
    have "registry_refines (snd (database_delete t k r)) (database_spec_step (Delete t k) m)"
      unfolding registry_refines_def
    proof (intro conjI allI impI)
      fix q y assume "database_spec_step (Delete t k) m q = Some y"
      then have "m q = Some y" by (auto split: if_splits)
      from r(5) [OF this] show "q = spec_name y" "accepted_route y" "normalized_route y = y" by blast+
    qed (simp_all add: meta routes)
    with found show ?thesis by simp
  qed
  then show "registry_refines (snd (database_delete t k r)) (database_spec_step (Delete t k) m)"
    and "fst (database_delete t k r) \<longleftrightarrow> m (?t, ?k) \<noteq> None" by blast+
qed

lemma step_refines: "registry_refines r m \<Longrightarrow> registry_refines (database_step op r) (database_spec_step op m)"
  by (cases op) (simp_all add: upsert_refines delete_refines(1) del: database_spec_step.simps)

lemma run_refines: "registry_refines r m \<Longrightarrow> registry_refines (run_steps database_step ops r) (run_steps database_spec_step ops m)"
  by (induction ops arbitrary: r m) (simp_all add: step_refines)

text \<open>What the reading operations give.\<close>

lemma set_bt_values: "hm_wf m \<Longrightarrow> set (bt_values m) = ran (hm_get m)"
  by (simp add: bt_values_def hm_wf_def ran_distinct)

lemma list_refines:
  assumes "registry_refines r m"
  shows "set (database_list r) = ran m"
proof -
  note r = registry_refinesD [OF assms]
  have wf: "hm_wf (dbr_metadata r)" "\<And>t b. hm_get (dbr_metadata r) t = Some b \<Longrightarrow> hm_wf b"
    using r(2) unfolding nested_wf_def by blast+
  have "set (database_list r) = (\<Union>b\<in>ran (hm_get (dbr_metadata r)). ran (hm_get b))"
  proof -
    have "set (bt_values b) = ran (hm_get b)" if "b \<in> ran (hm_get (dbr_metadata r))" for b
      using that wf(2) by (auto simp: ran_def set_bt_values)
    then show ?thesis using wf(1) by (simp add: database_list_def set_bt_values)
  qed
  also have "\<dots> = {x. \<exists>t k. nested_get (dbr_metadata r) t k = Some x}"
    by (auto simp: ran_def nested_get_def bind_eq_Some_conv)
  also have "\<dots> = ran m" unfolding r(3) by (auto simp: ran_def)
  finally show ?thesis .
qed

lemma single_entry: "hm_wf b \<Longrightarrow> length b = 1 \<longleftrightarrow> (\<exists>k. dom (hm_get b) = {k})"
proof -
  assume "hm_wf b"
  then have "card (dom (hm_get b)) = length b"
    using distinct_card [of "map fst b"] by (simp add: hm_wf_def dom_map_of_conv_image_fst)
  then show ?thesis using card_1_singleton_iff [of "dom (hm_get b)"] by simp
qed

lemma only_route_refines:
  assumes "registry_refines r m"
  shows "resolve_only_route t r = Some u \<longleftrightarrow>
    (\<exists>k x. {k'. m (normalize_database_type t, k') \<noteq> None} = {k} \<and> m (normalize_database_type t, k) = Some x \<and> u = trim (dp_upstream x))"
proof (cases "hm_get (dbr_routes r) (normalize_database_type t)")
  case None
  then show ?thesis using registry_refinesD(4) [OF assms, of "normalize_database_type t"]
    by (auto simp: resolve_only_route_def nested_get_def)
next
  case (Some b)
  have wf: "hm_wf b" using registry_refinesD(1) [OF assms] Some by (auto simp: nested_wf_def)
  have get: "hm_get b k = map_option (\<lambda>x. trim (dp_upstream x)) (m (normalize_database_type t, k))" for k
    using registry_refinesD(4) [OF assms, of "normalize_database_type t" k] Some by (simp add: nested_get_def)
  then have dom: "dom (hm_get b) = {k'. m (normalize_database_type t, k') \<noteq> None}" by (auto simp: dom_def)
  show ?thesis
  proof (cases "length b = 1")
    case False
    then show ?thesis using Some single_entry [OF wf] by (auto simp: resolve_only_route_def dom)
  next
    case True
    then obtain k v where b: "b = [(k, v)]" by (cases b) auto
    have "dom (hm_get b) = {k}" unfolding b by (auto split: if_splits)
    then have only: "{k'. m (normalize_database_type t, k') \<noteq> None} = {k}" using dom by simp
    have "resolve_only_route t r = Some v" using Some b by (simp add: resolve_only_route_def bt_values_def)
    moreover have "map_option (\<lambda>x. trim (dp_upstream x)) (m (normalize_database_type t, k)) = Some v" using get [of k] b by simp
    ultimately show ?thesis unfolding only by auto
  qed
qed

text \<open>The routes of a registry, inserted again in any order, give the same map.\<close>

lemma reinsert_spec:
  assumes "\<And>q x. m q = Some x \<Longrightarrow> q = spec_name x \<and> accepted_route x \<and> normalized_route x = x" and "set rs \<subseteq> ran m"
  shows "run_steps database_spec_step (map Upsert rs) Map.empty q = (if q \<in> spec_name ` set rs then m q else None)"
  using assms(2)
proof (induction rs rule: rev_induct)
  case (snoc x rs)
  then obtain q' where "m q' = Some x" by (auto simp: ran_def)
  with assms(1) [OF this] have "m (spec_name x) = Some x" "accepted_route x" "normalized_route x = x" by auto
  with snoc show ?case by (auto simp: run_steps_append)
qed simp

lemma reinserted_refines:
  assumes "registry_refines r m" and "set rs = set (database_list r)"
  shows "registry_refines (new_database_registry rs) m"
proof -
  have "new_database_registry rs = run_steps database_step (map Upsert rs) empty_database_registry"
    unfolding new_database_registry_def by (induction rs rule: rev_induct) (simp_all add: run_steps_append)
  moreover have "run_steps database_spec_step (map Upsert rs) Map.empty = m"
  proof
    fix q
    have ran: "set rs = ran m" using assms list_refines by simp
    have "m q = None" if "q \<notin> spec_name ` set rs"
    proof (rule ccontr)
      assume "m q \<noteq> None"
      then obtain x where x: "m q = Some x" by blast
      then have "x \<in> set rs" "q = spec_name x" using registry_refinesD(5) [OF assms(1) x] unfolding ran by (auto intro: ranI)
      with that show False by blast
    qed
    moreover have "run_steps database_spec_step (map Upsert rs) Map.empty q = (if q \<in> spec_name ` set rs then m q else None)"
      by (rule reinsert_spec) (use registry_refinesD(5) [OF assms(1)] ran in blast)+
    ultimately show "run_steps database_spec_step (map Upsert rs) Map.empty q = m q" by auto
  qed
  ultimately show ?thesis using run_refines [OF registry_empty, of "map Upsert rs"] by simp
qed

text \<open>The file is written under another name first.\<close>

lemma rsplit_once_Some: "rsplit_once c s = Some (a, b) \<Longrightarrow> s = a @ c # b"
proof -
  assume "rsplit_once c s = Some (a, b)"
  then have "rev s = rev b @ c # rev a" by (auto simp: rsplit_once_def split_once_Some)
  then have "rev (rev s) = rev (rev b @ c # rev a)" by simp
  then show ?thesis by simp
qed

lemma temp_path_other: "with_extension ((case path_extension path of Some e \<Rightarrow> e | None \<Rightarrow> ''json'') @ ''.tmp'') path \<noteq> path"
proof -
  obtain d f where split: "path_split path = (d, f)" by fastforce
  then have path: "path = d @ f" by (auto simp: path_split_def dest: rsplit_once_Some split: option.splits)
  define f' where "f' = fst (stem_and_extension f) @ ''.'' @ (case snd (stem_and_extension f) of Some e \<Rightarrow> e | None \<Rightarrow> ''json'') @ ''.tmp''"
  have "length f < length f'"
    by (auto simp: f'_def stem_and_extension_def split: option.split dest!: rsplit_once_Some)
  moreover have "with_extension ((case path_extension path of Some e \<Rightarrow> e | None \<Rightarrow> ''json'') @ ''.tmp'') path = d @ f'"
    using split by (simp add: with_extension_def path_extension_def f'_def)
  ultimately show ?thesis unfolding path by auto
qed

section \<open>The startup packet\<close>

text \<open>The packet that is passed on is what the client sent after the requests that were refused.\<close>

lemma read_packet:
  "read_postgres_startup_packet writable input n = (Inr (s, packet, rest), n') \<Longrightarrow>
     (\<exists>refused. input = refused @ packet @ rest) \<and> parse_postgres_startup_parameters (drop 8 packet) = Inr s"
proof (induction writable input n rule: read_postgres_startup_packet.induct)
  case (1 writable input n)
  define packet_len where "packet_len = from_be_bytes (take 4 input)"
  define content where "content = take (packet_len - 4) (drop 4 input)"
  define after where "after = drop (packet_len - 4) (drop 4 input)"
  define code where "code = from_be_bytes (take 4 content)"
  have input: "input = take 4 input @ content @ after" by (simp add: content_def after_def del: drop_drop)
  have ok: "\<not> length input < 4" "\<not> (packet_len < 8 \<or> POSTGRES_STARTUP_MAX_BYTES < packet_len)" "\<not> length (drop 4 input) < packet_len - 4"
    using 1(2) unfolding packet_len_def by (auto simp: read_postgres_startup_packet.simps [of writable input n] Let_def split: if_splits)
  have step: "read_postgres_startup_packet writable input n =
      (if code = POSTGRES_SSL_REQUEST_CODE \<or> code = POSTGRES_GSSENC_REQUEST_CODE
       then if writable then read_postgres_startup_packet writable after (n + 1) else (Inl ''broken pipe'', n)
       else (res_bind (parse_postgres_startup_parameters (drop 4 content)) (\<lambda>s. Inr (s, take 4 input @ content, after)), n))"
    using ok by (simp add: read_postgres_startup_packet.simps [of writable input n] packet_len_def content_def after_def code_def Let_def)
  show ?case
  proof (cases "code = POSTGRES_SSL_REQUEST_CODE \<or> code = POSTGRES_GSSENC_REQUEST_CODE")
    case True
    then have "writable" and run: "read_postgres_startup_packet writable after (n + 1) = (Inr (s, packet, rest), n')"
      using 1(2) unfolding step by (auto split: if_splits)
    have "(\<exists>refused. after = refused @ packet @ rest) \<and> parse_postgres_startup_parameters (drop 8 packet) = Inr s"
      by (rule 1(1) [OF ok(1) packet_len_def refl ok(2) ok(3) content_def after_def code_def True \<open>writable\<close> run])
    then show ?thesis using input by (metis append.assoc)
  next
    case False
    with 1(2) have "parse_postgres_startup_parameters (drop 4 content) = Inr s" "packet = take 4 input @ content" "rest = after"
      unfolding step by (auto simp: res_bind_def split: sum.splits)
    moreover have "drop 8 (take 4 input @ content) = drop 4 content" using ok(1) by simp
    ultimately show ?thesis using input by (metis append_Nil append.assoc)
  qed
qed

text \<open>An empty value does not count as a text, so the pairs after it are shifted.\<close>

lemma empty_value_shifts:
  "parse_postgres_startup_parameters (''options'' @ [CHR 0x00, CHR 0x00] @ ''user'' @ [CHR 0x00] @ ''bob'' @ [CHR 0x00]) =
     Inr \<lparr>ps_user = None, ps_database = None, ps_parameters = [(''options'', ''user'')]\<rparr>"
  by code_simp

text \<open>Changing the port of a route leaves the old port in place.\<close>

definition sample_database_route :: database_proxy_route where
  "sample_database_route = \<lparr>dp_database_type = ''PostgreSQL'', dp_key = '' App '', dp_upstream = ''h:1'', dp_route_host = None,
     dp_public_port = Some 5001\<rparr>"

lemma stale_public_port:
  "let r = new_database_registry [sample_database_route, sample_database_route\<lparr>dp_upstream := ''h:2'', dp_public_port := Some 5002\<rparr>] in
     resolve_public_port 5001 r = Some ''h:1'' \<and> database_resolve ''postgres'' ''app'' r = Some ''h:2'' \<and> length (database_list r) = 1"
  by code_simp

section \<open>Properties\<close>

text \<open>
  C34. The database registry is a map of normalised names. After any sequence of insertions and deletions
  from the empty registry, resolving a type and a key gives the trimmed upstream of the last accepted
  route under these names that was not deleted since, whatever their spelling; a type without a key
  resolves exactly when it has one route; deleting tells whether there was a route; and the listing
  has the routes of the map.
\<close>

theorem database_registry_refines:
  "let r = run_steps database_step ops empty_database_registry; m = run_steps database_spec_step ops Map.empty in
     database_resolve t k r = map_option (\<lambda>x. trim (dp_upstream x)) (m (normalize_database_type t, normalize_route_key k)) \<and>
     (resolve_only_route t r = Some u \<longleftrightarrow>
       (\<exists>j x. {j'. m (normalize_database_type t, j') \<noteq> None} = {j} \<and> m (normalize_database_type t, j) = Some x \<and>
          u = trim (dp_upstream x))) \<and>
     (fst (database_delete t k r) \<longleftrightarrow> m (normalize_database_type t, normalize_route_key k) \<noteq> None) \<and>
     set (database_list r) = ran m"
proof -
  note r = run_refines [OF registry_empty, of ops]
  show ?thesis unfolding Let_def
    using registry_refinesD(4) [OF r] only_route_refines [OF r] delete_refines(2) [OF r] list_refines [OF r]
    by (intro conjI) (simp_all add: database_resolve_def nested_get_def [symmetric])
qed

text \<open>
  C35. Database routes survive a restart. Saving the listing of a registry either writes the whole file or
  leaves the old one in place; and when it succeeded, the registry built from the file that is read
  back resolves every name as before.
\<close>

theorem database_routes_survive_restart:
  fixes ops path
  defines "r \<equiv> run_steps database_step ops empty_database_registry"
  assumes codec: "\<And>rs b. encode rs = Inr b \<Longrightarrow> decode b = Inr rs \<and> \<not> list_all is_ascii_whitespace b"
    and save: "save_database_routes_to_file dk encode path (database_list r) fs = (res, fs')"
  shows "if res = Inr ()
    then \<exists>b rs. fs' path = Some b \<and> load_database_routes_from_file decode (FileBytes b) = Inr rs \<and>
      database_resolve t k (new_database_registry rs) = database_resolve t k r
    else fs' path = fs path"
proof (cases "res = Inr ()")
  case False
  then show ?thesis using save temp_path_other [of path]
    by (auto simp: save_database_routes_to_file_def Let_def split: if_splits sum.splits option.splits)
next
  case True
  then obtain b where b: "encode (sort_key file_order (database_list r)) = Inr b" "fs' path = Some b"
    using save by (auto simp: save_database_routes_to_file_def Let_def split: if_splits sum.splits option.splits)
  note ref = run_refines [OF registry_empty, of ops, folded r_def]
  have ref': "registry_refines (new_database_registry (sort_key file_order (database_list r)))
      (run_steps database_spec_step ops Map.empty)"
    by (rule reinserted_refines [OF ref]) simp
  have "database_resolve t k (new_database_registry (sort_key file_order (database_list r))) = database_resolve t k r"
    using registry_refinesD(4) [OF ref] registry_refinesD(4) [OF ref'] by (simp add: database_resolve_def nested_get_def [symmetric])
  moreover have "load_database_routes_from_file decode (FileBytes b) = Inr (sort_key file_order (database_list r))"
    using codec [OF b(1)] by (simp add: load_database_routes_from_file_def)
  ultimately show ?thesis using True b(2) by auto
qed

definition sample_codec :: "(database_proxy_route list \<Rightarrow> string + string) \<times> (string \<Rightarrow> string + database_proxy_route list)" where
  "sample_codec =
     (let rs = [normalized_route sample_database_route]
      in (\<lambda>xs. if xs = rs then Inr ''[]'' else Inl ''no'', \<lambda>b. if b = ''[]'' then Inr rs else Inl ''no''))"

theorem database_routes_survive_restart_witness:
  "\<exists>b rs. load_database_routes_from_file (snd sample_codec) (FileBytes b) = Inr rs \<and>
     database_resolve ''postgres'' ''APP'' (new_database_registry rs) = Some ''h:1''"
proof -
  let ?r = "run_steps database_step [Upsert sample_database_route] empty_database_registry"
  let ?dk = "\<lparr>dk_mkdir_ok = True, dk_torn_write = None, dk_rename_ok = True\<rparr>"
  have codec: "snd sample_codec b = Inr rs \<and> \<not> list_all is_ascii_whitespace b" if "fst sample_codec rs = Inr b" for rs b
    using that by (auto simp: sample_codec_def Let_def is_ascii_whitespace_def split: if_splits)
  have "database_list ?r = [normalized_route sample_database_route]" by code_simp
  then have "fst (save_database_routes_to_file ?dk (fst sample_codec) ''/d/r.json'' (database_list ?r) Map.empty) = Inr ()"
    by (simp add: save_database_routes_to_file_def sample_codec_def Let_def)
  then obtain fs' where "save_database_routes_to_file ?dk (fst sample_codec) ''/d/r.json'' (database_list ?r) Map.empty = (Inr (), fs')"
    by (metis prod.collapse)
  from database_routes_survive_restart [OF codec this, of "''postgres''" "''APP''"] obtain b rs where
    "load_database_routes_from_file (snd sample_codec) (FileBytes b) = Inr rs"
    "database_resolve ''postgres'' ''APP'' (new_database_registry rs) = database_resolve ''postgres'' ''APP'' ?r"
    by auto
  moreover have "database_resolve ''postgres'' ''APP'' ?r = Some ''h:1''" by code_simp
  ultimately show ?thesis by auto
qed

text \<open>
  C15. A PostgreSQL connection is authorised and passed on unchanged. When a connection to the PostgreSQL
  listener reaches an upstream, the startup packet carried the token that the environment asks for,
  the upstream is the route for the database or else the user of that packet, or the only route of
  the type, and the bytes that go to the upstream are exactly those the client sent from that packet
  on, the encryption requests before it left out.
\<close>

theorem postgres_connection_authorised:
  assumes "handle_database_connection env writable reachable ''postgres'' input r = Inr c"
  shows "\<exists>refused s token. input = refused @ dc_written c @ dc_copied c \<and>
    parse_postgres_startup_parameters (drop 8 (dc_written c)) = Inr s \<and>
    env ''PXXL_DATABASE_PROXY_TOKEN'' = Some token \<and> token \<noteq> [] \<and>
    map_option trim (hm_get (ps_parameters s) ''pxxl_proxy_token'') = Some token \<and>
    Some (dc_upstream c) \<in> {Option.bind (startup_route_key s) (\<lambda>k. database_resolve ''postgres'' k r), resolve_only_route ''postgres'' r}"
proof -
  from assms obtain key packet rest u where start: "startup_of env writable ''postgres'' input = Inr (key, packet, rest)"
    and u: "(case Option.bind key (\<lambda>k. database_resolve ''postgres'' k r) of Some u \<Rightarrow> Some u | None \<Rightarrow> resolve_only_route ''postgres'' r) = Some u"
    and c: "connect_to reachable u packet rest = Inr c"
    by (auto simp: handle_database_connection_def res_bind_def split: sum.splits option.splits)
  from start obtain s where read: "fst (read_postgres_startup_packet writable input 0) = Inr (s, packet, rest)"
    and token: "require_database_proxy_token env s = Inr ()" and key: "key = startup_route_key s"
    by (auto simp: startup_of_def res_bind_def split: sum.splits)
  from read_packet [of writable input 0 s packet rest "snd (read_postgres_startup_packet writable input 0)"] read
  have packet: "\<exists>refused. input = refused @ packet @ rest" "parse_postgres_startup_parameters (drop 8 packet) = Inr s"
    by (metis prod.collapse)+
  have conn: "dc_upstream c = u" "dc_written c = packet" "dc_copied c = rest"
    using c by (auto simp: connect_to_def split: if_splits)
  obtain tk where "env ''PXXL_DATABASE_PROXY_TOKEN'' = Some tk" "tk \<noteq> []"
    "map_option trim (hm_get (ps_parameters s) ''pxxl_proxy_token'') = Some tk"
    using token by (auto simp: require_database_proxy_token_def bind_eq_Some_conv split: option.splits if_splits)
  with packet u key show ?thesis unfolding conn by (auto split: option.splits)
qed

definition startup_bytes :: string where
  "startup_bytes = [CHR 0x00, CHR 0x00, CHR 0x00, CHR 0x29, CHR 0x00, CHR 0x03, CHR 0x00, CHR 0x00] @ ''pxxl_proxy_token'' @ [CHR 0x00] @
     ''t'' @ [CHR 0x00] @ ''database'' @ [CHR 0x00] @ ''APP'' @ [CHR 0x00, CHR 0x00] @ ''x''"

theorem postgres_connection_authorised_witness:
  "\<exists>c. handle_database_connection (\<lambda>_. Some ''t'') True (\<lambda>_. True) ''postgres'' startup_bytes
      (new_database_registry [sample_database_route]) = Inr c \<and> dc_upstream c = ''h:1'' \<and>
    (\<exists>refused. startup_bytes = refused @ dc_written c @ dc_copied c)"
proof -
  let ?c = "\<lparr>dc_upstream = ''h:1'', dc_written = butlast startup_bytes, dc_copied = ''x''\<rparr>"
  have "handle_database_connection (\<lambda>_. Some ''t'') True (\<lambda>_. True) ''postgres'' startup_bytes
      (new_database_registry [sample_database_route]) = Inr ?c" by code_simp
  from postgres_connection_authorised [OF this] this show ?thesis by (intro exI [of _ ?c]) auto
qed

end
