(* ===== verification/Spec2Isabelle.thy ===== *)
theory Spec2Isabelle
  imports Adaptive_Window Client_Ip Proxy_Flow Redis_Sync Database_Proxy
begin

text \<open>
  A verification development for the Pxxl edge: a reverse proxy in Rust that terminates HTTP and HTTPS,
  finds the route of a request, enforces the policy of its domain, forwards it to an upstream and
  accounts for it. File names below are relative to \<open>src/edge/crates\<close>.

  \<^bold>\<open>How the parts interact.\<close> A connection is accepted under a permit (\<open>run_plain_listener\<close>,
  \<open>run_tls_listener\<close>) and its requests go through \<open>ProxyServer::handle\<close>: client address, canonical
  path (\<open>canonicalize_path\<close>), ACME files, blacklist, adaptive blocker and rate limiter
  (\<open>SecurityEngine\<close>), route lookup (\<open>RouteRegistry\<close>), the policy of the domain
  (\<open>PolicyEnforcer\<close>), middleware and authentication, the choice of an upstream (\<open>LoadBalancer\<close>,
  circuit breakers, limits in flight, sticky sessions), the forwarded request with its retries, and the
  rules on the response. Answers of the edge itself come from \<open>ErrorPageRenderer\<close>. Every request ends in
  the metrics and the statistics of its domain. Routes enter through \<open>EdgeState\<close> from the configuration,
  discovery and the control plane, after validation; routes, tokens, blacklist and bandwidth are kept in
  Redis. The database proxy has listeners, a registry and a route file of its own.

  \<^bold>\<open>Foundations.\<close>
  \<^item> \<open>Prelude\<close>: words for machine integers, keyed stores (locale \<open>keyed_store\<close>, interpreted on
    association lists), results as sums with \<open>res_bind\<close>, the iterator combinators the code uses.
  \<^item> \<open>Rust_Str\<close>, \<open>Std_Net\<close>, \<open>Std_Num\<close>, \<open>F64\<close>: what the code uses of the standard library on
    byte strings, addresses, numbers as text and doubles (exact rationals rounded to 53 bits).
  \<^item> \<open>Step_Machines\<close>: runs of a component as folds over its operations (locale \<open>step_machine\<close>,
    interpreted for the blocker, the edge state and the listeners).
  \<^item> \<open>Http_Base\<close>: header maps, requests and responses; the parsers of the \<open>http\<close> crate are the
    fields of the argument \<open>http_crate\<close>.

  \<^bold>\<open>common/src/lib.rs.\<close> \<open>Common_Types\<close> and \<open>Common_Rules\<close> have the structs as records and the enums as
  datatypes with their defaults. \<open>Common_Names\<close> has host names and paths; it shows that a canonical path
  has no dot segment, no encoded separator and no control byte, and what the four decoding passes leave.
  \<open>Common_Validate\<close> has the admission of routes and upstreams; it shows that a dynamic route points only at
  permitted upstreams, and that IPv6 literals escape the address check.

  \<^bold>\<open>core/src/lib.rs and metrics/src/lib.rs.\<close> \<open>Route_Registry\<close> is the table with its index by domain: the
  index stays sound and lookup returns the best route (locale \<open>swap_store\<close> for the pointer that updates
  replace). \<open>Domain_Stats\<close> is the statistics of domains, which account for every event and survive a
  snapshot. \<open>Edge_State\<close> is the shared state with its metrics; the route gauges agree with the table.

  \<^bold>\<open>load-balancer/src/lib.rs.\<close> \<open>Load_Balancer\<close> has every algorithm: only healthy upstreams are chosen,
  weighted round robin gives exact shares (locale \<open>rotation\<close>), rendezvous hashing moves few clients.

  \<^bold>\<open>ddos/src/lib.rs.\<close> \<open>Token_Bucket\<close> (locale \<open>metered\<close>) and \<open>Keyed_Limiter\<close> prove the bound on admitted
  requests once, for the limiter of addresses in \<open>Rate_Limit\<close> and that of domain rules in
  \<open>Policy_Rate\<close>. \<open>Adaptive_Block\<close> is the adaptive blocker; \<open>Adaptive_Safety\<close> shows its invariant, that
  blocks hold until they expire and that a restart keeps decisions; \<open>Adaptive_Window\<close> that the bucketed
  window counts like a log of requests. \<open>Security_Engine\<close> composes the three.

  \<^bold>\<open>http-proxy/src/lib.rs.\<close>
  \<^item> \<open>Client_Ip\<close>: the client address, which an untrusted peer cannot forge.
  \<^item> \<open>Middleware\<close>: the expansion of chains, which ends, and the settings that result.
  \<^item> \<open>Forwarding\<close>: target, headers, buffered bodies and the retry loop.
  \<^item> \<open>Waf\<close>, \<open>Policy_Rate\<close>, \<open>Circuit\<close>, \<open>Policy\<close>: the policy of a domain, which admits a request exactly
    when every rule does; circuit breakers against the results of an upstream; the limit in flight under
    interleaved threads, as a step relation; passive health and its timers.
  \<^item> \<open>Response_Rules\<close>, \<open>Digest_Auth\<close>, \<open>Error_Pages\<close>: headers, compression and sticky cookies; basic and
    digest authentication; the pages of the edge, to which a request adds no markup.
  \<^item> \<open>Proxy_Server\<close> is the handler, one definition for each stage, in two halves (\<open>admit\<close>,
    \<open>complete\<close>) around the wait for the upstream. \<open>Proxy_Flow\<close> interleaves the halves of many requests
    with timers, mirror tasks and route changes: only admitted requests are forwarded, a request is
    counted once, slots are given back.
  \<^item> \<open>Connections\<close>: the accept loops, here and in the database proxy, with their permits.

  \<^bold>\<open>geo, redis-sync and database-proxy.\<close> \<open>Geo\<close> is the lookup of an address. \<open>Redis_Sync\<close> is what is kept
  in Redis; the token store refines a list of live records. \<open>Database_Proxy\<close> is the registry, which
  refines a map of normalised names, the route file, which survives a restart, and the decision on a
  connection, which reaches an upstream only with the token.

  \<^bold>\<open>Bounds and fuel.\<close> Loops of the code are structural recursion or have a termination proof. The bounds
  are those of the code: four decoding passes of a path, the depth of the expansion of chains, the number of
  attempts of a retry. No definition has fuel of its own. Rate bounds are for windows of at most ten minutes, the life of an
  idle bucket.

  \<^bold>\<open>Arguments.\<close> Code outside the repository is an argument, with the documented behaviour a theorem
  needs as its hypothesis: \<open>url\<close>, \<open>ipnet\<close>, \<open>http\<close>, \<open>serde_json\<close>, SHA-256, base64, gzip,
  \<open>maxminddb\<close>, the Redis server, the HTTP client, clocks, files and the environment.

  \<^bold>\<open>Not modelled.\<close> \<open>docker-discovery\<close> (polling of a container socket; its routes enter through the
  modelled validation), \<open>config\<close> (TOML structs with defaults), \<open>tls\<close> (certificate files and rustls),
  \<open>storage\<close> (statements sent to ClickHouse), \<open>api\<close> (handlers that call the modelled operations), the text
  encoding of the metrics, \<open>main.rs\<close> (start-up), and the bytes moved by hyper, rustls and
  \<open>copy_bidirectional\<close>.
\<close>

end
